theory Spec2Isabelle
  imports Complex_Main
begin

section \<open>Tensors\<close>

text \<open>
  The numeric code of the repository works on tensors of 32-bit floats. The entries of
  a tensor are real numbers here: a vector is a list of reals, a batch (or a memory row
  over the parallel environments) is a list of vectors. Where a property is about the
  structure of a computation (which entries are combined, in which order, with which
  coefficients) the operations are taken exactly. Where a property depends on the
  rounding of the floats (a strict inequality that rounding can close), every operation
  is followed by the rounding to 32-bit floats of the section on binary32 arithmetic.
\<close>

type_synonym vec = "real list"
type_synonym batch = "vec list"

datatype error =
  RuntimeError | KeyError | ValueError | IndexError | FileNotFoundError | Exception

section \<open>Binary32 arithmetic\<close>

text \<open>
  A 32-bit float has 24 significant bits. A real \<open>x\<close> with \<open>2^e \<le> |x| < 2^(e+1)\<close> is
  rounded to the nearest multiple of \<open>2^(e-23)\<close>, a tie going to the even multiple; below
  the smallest normal number \<open>2^-126\<close> the spacing stays \<open>2^-149\<close>. Overflow to infinity
  is not modelled: the values met below stay far under \<open>2^128\<close>. An operation of torch
  on 32-bit floats is the exact operation followed by this rounding; \<open>exp\<close> and \<open>log\<close>
  are taken as correctly rounded.
\<close>

definition round_even :: "real \<Rightarrow> int" where
  "round_even y =
     (let f = \<lfloor>y\<rfloor> in
      if y - of_int f < 1 / 2 then f
      else if 1 / 2 < y - of_int f then f + 1
      else if even f then f else f + 1)"

definition ulp32 :: "real \<Rightarrow> real" where
  "ulp32 x = 2 powr (of_int (max \<lfloor>log 2 \<bar>x\<bar>\<rfloor> (- 126)) - 23)"

definition binary32 :: "real \<Rightarrow> real" where
  "binary32 x = (if x = 0 then 0 else of_int (round_even (x / ulp32 x)) * ulp32 x)"

section \<open>BaseActor.update_parameters (actor_models.py)\<close>

text \<open>
  A parameter is a tensor: its sizes (\<open>Tensor.shape\<close>) and its entries in row-major
  order. The parameters of a module live in storage and are updated in place, and two
  modules may share a tensor. A store maps the address of a tensor to the tensor;
  \<open>self.parameters()\<close> and \<open>model.parameters()\<close> are the lists of addresses the two
  modules own. The products and sums of the update are taken exactly: the properties
  below are about which tensors are read and written, and the numbers of the examples
  are exact as 32-bit floats as well.
\<close>

record tensor =
  sizes :: "nat list"
  entries :: vec

type_synonym addr = nat
type_synonym store = "addr \<Rightarrow> tensor"

definition well_formed :: "tensor \<Rightarrow> bool" where
  "well_formed t = (length (entries t) = prod_list (sizes t))"

text \<open>The coordinates of the entry at a row-major position, and back.\<close>

fun unravel :: "nat list \<Rightarrow> nat \<Rightarrow> nat list" where
  "unravel [] i = []"
| "unravel (d # ds) i = i div prod_list ds # unravel ds (i mod prod_list ds)"

fun ravel :: "nat list \<Rightarrow> nat list \<Rightarrow> nat" where
  "ravel (d # ds) (c # cs) = c * prod_list ds + ravel ds cs"
| "ravel ds cs = 0"

text \<open>
  The in-place operations \<open>copy_\<close> and \<open>add_\<close> broadcast their argument to the sizes of
  the tensor they write: the argument may have fewer dimensions, and, aligned at the
  last dimension, each of its sizes is the size of the target or 1. Anything else
  raises a \<open>RuntimeError\<close>. An entry of the expanded argument is read at the target's
  coordinates, with 0 in place of the coordinate of a dimension of size 1.
\<close>

definition broadcastable :: "nat list \<Rightarrow> nat list \<Rightarrow> bool" where
  "broadcastable ds ss =
     (length ss \<le> length ds \<and>
      list_all2 (\<lambda>d s. s = d \<or> s = 1) (drop (length ds - length ss) ds) ss)"

definition expand :: "nat list \<Rightarrow> tensor \<Rightarrow> vec option" where
  "expand ds src =
     (let ss = sizes src in
      if broadcastable ds ss
      then Some (map (\<lambda>i. entries src !
                        ravel ss (map2 (\<lambda>s c. if s = 1 then 0 else c) ss
                                   (drop (length ds - length ss) (unravel ds i))))
                   [0..<prod_list ds])
      else None)"

text \<open>\<open>parameters.data.copy_(model_parameters.data)\<close>\<close>

definition tensor_copy :: "store \<Rightarrow> addr \<Rightarrow> addr \<Rightarrow> error + store" where
  "tensor_copy s p mp =
     (case expand (sizes (s p)) (s mp) of
        None \<Rightarrow> Inl RuntimeError
      | Some src \<Rightarrow> Inr (s(p := (s p)\<lparr>entries := src\<rparr>)))"

text \<open>\<open>parameters.data.mul_(c)\<close> with a Python scalar \<open>c\<close>\<close>

definition tensor_mul :: "store \<Rightarrow> addr \<Rightarrow> real \<Rightarrow> store" where
  "tensor_mul s p c = s(p := (s p)\<lparr>entries := map (\<lambda>x. x * c) (entries (s p))\<rparr>)"

text \<open>\<open>c * t\<close> with a Python scalar \<open>c\<close>: a new tensor\<close>

definition scalar_times :: "real \<Rightarrow> tensor \<Rightarrow> tensor" where
  "scalar_times c t = t\<lparr>entries := map (\<lambda>x. c * x) (entries t)\<rparr>"

text \<open>\<open>parameters.data.add_(other)\<close> with a tensor value \<open>other\<close>\<close>

definition tensor_add :: "store \<Rightarrow> addr \<Rightarrow> tensor \<Rightarrow> error + store" where
  "tensor_add s p other =
     (case expand (sizes (s p)) other of
        None \<Rightarrow> Inl RuntimeError
      | Some src \<Rightarrow> Inr (s(p := (s p)\<lparr>entries := map2 (+) (entries (s p)) src\<rparr>)))"

text \<open>The hard-update loop over \<open>zip(self.parameters(), model.parameters())\<close>.\<close>

fun hard_update :: "store \<Rightarrow> (addr \<times> addr) list \<Rightarrow> error + store" where
  "hard_update s [] = Inr s"
| "hard_update s ((p, mp) # rest) =
     (case tensor_copy s p mp of
        Inl e \<Rightarrow> Inl e
      | Inr s' \<Rightarrow> hard_update s' rest)"

text \<open>
  The soft-update loop. The product \<open>polyak * model_parameters.data\<close> is evaluated after
  the in-place \<open>mul_\<close>, so it reads the store that \<open>mul_\<close> has left.
\<close>

fun soft_update :: "store \<Rightarrow> (addr \<times> addr) list \<Rightarrow> real \<Rightarrow> error + store" where
  "soft_update s [] polyak = Inr s"
| "soft_update s ((p, mp) # rest) polyak =
     (let s1 = tensor_mul s p (1 - polyak) in
      case tensor_add s1 p (scalar_times polyak (s1 mp)) of
        Inl e \<Rightarrow> Inl e
      | Inr s' \<Rightarrow> soft_update s' rest polyak)"

definition update_parameters ::
  "store \<Rightarrow> addr list \<Rightarrow> addr list \<Rightarrow> real \<Rightarrow> error + store" where
  "update_parameters s self_parameters model_parameters polyak =
     (if polyak = 1 then hard_update s (zip self_parameters model_parameters)
      else soft_update s (zip self_parameters model_parameters) polyak)"

text \<open>The formula of the docstring, entry by entry.\<close>

definition polyak_mix :: "real \<Rightarrow> vec \<Rightarrow> vec \<Rightarrow> vec" where
  "polyak_mix p theta theta_net = map2 (\<lambda>t tn. (1 - p) * t + p * tn) theta theta_net"

text \<open>A store in which one tensor is both the actor's and the model's parameter.\<close>

definition shared_store :: store where
  "shared_store = (\<lambda>a. \<lparr>sizes = [1], entries = [4]\<rparr>)"

text \<open>A store in which the actor owns tensor 0 and the model owns tensor 1.\<close>

definition separate_store :: store where
  "separate_store = (\<lambda>a. if a = 0 then \<lparr>sizes = [2], entries = [1, 2]\<rparr>
                          else \<lparr>sizes = [2], entries = [3, 4]\<rparr>)"

text \<open>
  A store with a parameter of sizes \<open>(2, 3)\<close> at address 0, a tensor of sizes \<open>(3)\<close> at
  address 1 and one of sizes \<open>(3, 2)\<close> elsewhere.
\<close>

definition mixed_store :: store where
  "mixed_store = (\<lambda>a. if a = 0 then \<lparr>sizes = [2, 3], entries = [1, 2, 3, 4, 5, 6]\<rparr>
                       else if a = 1 then \<lparr>sizes = [3], entries = [7, 8, 9]\<rparr>
                       else \<lparr>sizes = [3, 2], entries = [1, 2, 3, 4, 5, 6]\<rparr>)"

section \<open>ActorPPO_Beta (actor_models.py)\<close>

text \<open>
  The claim about this actor is a strict inequality on its outputs, so its arithmetic
  is that of 32-bit floats. \<open>F.softplus\<close> with its defaults \<open>beta = 1\<close> and
  \<open>threshold = 20\<close> is the identity above the threshold and \<open>log1p(exp(x))\<close> otherwise:
  the exponential is rounded, and \<open>log1p\<close> rounds the logarithm of one plus its argument.
\<close>

definition softplus :: "real \<Rightarrow> real" where
  "softplus x = (if x > 20 then x else binary32 (ln (1 + binary32 (exp x))))"

text \<open>
  The networks of the actor are functions on batches; the model places no condition on
  them.
\<close>

record actor_ppo_beta =
  backbone_net :: "batch \<Rightarrow> batch"
  alpha_layer :: "batch \<Rightarrow> batch"
  beta_layer :: "batch \<Rightarrow> batch"

definition forward :: "actor_ppo_beta \<Rightarrow> batch \<Rightarrow> batch \<times> batch" where
  "forward self state =
     (let state = backbone_net self state;
          alpha = map (map (\<lambda>x. binary32 (softplus x + 1.0))) (alpha_layer self state);
          beta = map (map (\<lambda>x. binary32 (softplus x + 1.0))) (beta_layer self state)
      in (alpha, beta))"

text \<open>
  \<open>Beta(alpha, beta)\<close> validates its arguments: a concentration that is not positive
  raises a \<open>ValueError\<close>.
\<close>

datatype dist = Beta batch batch

definition all_positive :: "batch \<Rightarrow> bool" where
  "all_positive t = list_all (list_all (\<lambda>x. 0 < x)) t"

definition get_dist :: "actor_ppo_beta \<Rightarrow> batch \<Rightarrow> error + dist" where
  "get_dist self state =
     (let (alpha, beta) = forward self state
      in if all_positive alpha \<and> all_positive beta then Inr (Beta alpha beta) else Inl ValueError)"

definition mean :: "actor_ppo_beta \<Rightarrow> batch \<Rightarrow> batch" where
  "mean self state =
     (let (alpha, beta) = forward self state
      in map2 (map2 (\<lambda>a b. binary32 (a / binary32 (a + b)))) alpha beta)"

text \<open>An actor whose networks are the identity and the negation.\<close>

definition plain_actor :: actor_ppo_beta where
  "plain_actor = \<lparr>backbone_net = (\<lambda>s. s), alpha_layer = (\<lambda>s. s),
     beta_layer = map (map uminus)\<rparr>"

section \<open>HOTUHLMMAgent (hotu_hlmm_agent.py)\<close>

text \<open>
  A tensor with one scalar per environment is a \<open>vec\<close>, a tensor with one vector per
  environment a \<open>batch\<close>; a memory tensor has one such row per step. The networks, the
  preprocessors and the low-level controller are defined outside these files and are
  fields of the agents. A discriminator and its preprocessor work on one observation
  at a time. The policy is stochastic: the field \<open>policy\<close> stands for one call of it,
  with the draw it makes. A name cannot begin with an underscore here and \<open>value\<close> is a
  keyword, so \<open>_get_llc_action\<close> is \<open>get_llc_action\<close>, the attribute \<open>_discount\<close> is
  \<open>discount\<close>, and so on, and the value network \<open>self.value\<close> is \<open>value_net\<close>.
\<close>

type_synonym scaler_state = vec

record amp_agent =
  discriminator :: "vec \<Rightarrow> real"
  amp_state_preprocessor :: "vec \<Rightarrow> vec"
  least_square_discriminator :: bool
  discriminator_reward_scale :: real

record hotu_llc_agent = amp_agent +
  llc_act :: "batch \<Rightarrow> bool \<Rightarrow> batch \<Rightarrow> batch \<times> vec"

record hotu_hlmm_agent = amp_agent +
  task_related_state_size :: int
  task_reward_weight :: real
  style_reward_weight :: real
  demo_style_reward_weight :: real
  rewards_shaper :: "(vec \<Rightarrow> vec) option"
  discount :: real
  td_lambda :: real
  policy :: "batch \<Rightarrow> bool \<Rightarrow> batch \<times> vec"
  state_preprocessor :: "batch \<Rightarrow> batch"
  value_net :: "batch \<Rightarrow> vec"
  value_preprocessor_inverse :: "vec \<Rightarrow> vec"
  value_preprocessor :: "scaler_state \<Rightarrow> batch \<Rightarrow> batch \<times> scaler_state"
  value_scaler :: scaler_state
  llc_agent :: hotu_llc_agent
  num_envs :: nat
  current_states :: "batch option"
  current_log_prob :: "vec option"
  omega_actions_for_llc :: "batch option"
  pre_states :: "batch option"
  llc_cum_rew :: vec
  llc_cum_disc_rew :: vec
  need_reset :: vec
  need_terminate :: vec

text \<open>Python's \<open>xs[:e]\<close>: a negative bound counts from the end, and bounds are clipped.\<close>

definition py_slice_to :: "'a list \<Rightarrow> int \<Rightarrow> 'a list" where
  "py_slice_to xs e =
     (let n = int (length xs);
          e' = (if e < 0 then max (n + e) 0 else min e n)
      in take (nat e') xs)"

text \<open>
  \<open>torch.nn.functional.normalize(v, dim=-1)\<close> with its defaults \<open>p = 2\<close> and
  \<open>eps = 1e-12\<close>: the vector divided by the larger of its Euclidean norm and \<open>eps\<close>.
\<close>

definition norm2 :: "vec \<Rightarrow> real" where
  "norm2 v = sqrt (sum_list (map (\<lambda>x. x\<^sup>2) v))"

definition F_normalize :: "vec \<Rightarrow> vec" where
  "F_normalize v = (let d = max (norm2 v) (1 / 10 ^ 12) in map (\<lambda>x. x / d) v)"

text \<open>
  \<open>states[:, :states.shape[1] - k]\<close> is taken row by row: every row of a tensor has
  \<open>states.shape[1]\<close> entries.
\<close>

definition get_llc_action :: "hotu_hlmm_agent \<Rightarrow> batch \<Rightarrow> batch \<Rightarrow> batch" where
  "get_llc_action self states omega_actions =
     (let task_agnostic_states =
            map (\<lambda>row. py_slice_to row (int (length row) - task_related_state_size self)) states;
          z = map F_normalize omega_actions;
          (actions, _) = llc_act (llc_agent self) task_agnostic_states False z
      in actions)"

definition act ::
  "hotu_hlmm_agent \<Rightarrow> batch \<Rightarrow> bool \<Rightarrow> (batch \<times> vec) \<times> hotu_hlmm_agent" where
  "act self states deterministic =
     (let states = (case current_states self of Some s \<Rightarrow> s | None \<Rightarrow> states);
          self = self\<lparr>pre_states := Some states,
                      llc_cum_rew := replicate (num_envs self) 0,
                      llc_cum_disc_rew := replicate (num_envs self) 0,
                      need_reset := replicate (num_envs self) 0,
                      need_terminate := replicate (num_envs self) 0\<rparr>;
          (omega_actions, log_prob) = policy self (state_preprocessor self states) deterministic;
          self = self\<lparr>current_log_prob := Some log_prob,
                      omega_actions_for_llc := Some omega_actions\<rparr>;
          actions = get_llc_action self states omega_actions
      in ((actions, log_prob), self))"

text \<open>
  The style reward of the low-level controller's discriminator, in exact arithmetic;
  the same lines with the rounding of 32-bit floats are \<open>get_llc_disc_reward32\<close> below.
\<close>

definition get_llc_disc_reward :: "hotu_hlmm_agent \<Rightarrow> batch \<Rightarrow> vec" where
  "get_llc_disc_reward self amp_states =
     (let llc = llc_agent self;
          amp_logits = map (\<lambda>a. discriminator llc (amp_state_preprocessor llc a)) amp_states;
          style_rewards =
            (if least_square_discriminator llc
             then map (\<lambda>l. max (1 - 0.25 * (1 - l)\<^sup>2) 0.0001) amp_logits
             else map (\<lambda>l. - ln (max (1 - 1 / (1 + exp (- l))) 0.0001)) amp_logits)
      in map (\<lambda>r. r * discriminator_reward_scale llc) style_rewards)"

text \<open>
  The memory of the agent: one field for each tensor that \<open>store_transition\<close> writes
  and \<open>update_net\<close> reads or writes by name. A tensor of scalars has the entry of step
  \<open>i\<close> and environment \<open>j\<close> at \<open>t ! i ! j\<close>.
\<close>

record memory =
  mem_rewards :: batch
  mem_amp_states :: "batch list"
  mem_disc_rewards :: batch
  mem_values :: batch
  mem_next_values :: batch
  mem_terminated :: "bool list list"
  mem_returns :: batch
  mem_advantages :: batch

text \<open>The keyword arguments of the call of \<open>memory.add_samples\<close>.\<close>

record samples =
  s_states :: batch
  s_actions :: batch
  s_rewards :: vec
  s_next_states :: batch
  s_terminated :: "bool list"
  s_truncated :: "bool list"
  s_log_prob :: "vec option"
  s_values :: vec
  s_amp_states :: batch
  s_next_values :: vec
  s_omega_actions :: "batch option"
  s_disc_rewards :: vec

text \<open>
  Modelled from the spec: \<open>Memory.add_samples\<close> and \<open>Memory.get_tensor_by_name\<close> belong to
  the memory class, which is not among these files. The tensors stored during
  \<open>store_transition\<close> are read back unchanged from the memory: \<open>add_samples\<close> writes each
  sample it is given into the row at the memory's write position \<open>memory_index\<close> of the
  tensor of the same name and touches no other row, and \<open>get_tensor_by_name\<close> returns the
  tensor, here the field of the record. Samples of tensors that \<open>update_net\<close> does not read
  before its mini-batches (states, actions, log-probabilities, latents) have no field.
\<close>

definition add_samples :: "memory \<Rightarrow> nat \<Rightarrow> samples \<Rightarrow> memory" where
  "add_samples m memory_index s =
     m\<lparr>mem_rewards := (mem_rewards m)[memory_index := s_rewards s],
       mem_amp_states := (mem_amp_states m)[memory_index := s_amp_states s],
       mem_disc_rewards := (mem_disc_rewards m)[memory_index := s_disc_rewards s],
       mem_values := (mem_values m)[memory_index := s_values s],
       mem_next_values := (mem_next_values m)[memory_index := s_next_values s],
       mem_terminated := (mem_terminated m)[memory_index := s_terminated s]\<rparr>"

text \<open>
  Modelled from the spec: \<open>BaseAgent.store_transition\<close> is not among these files either.
  It takes the transition for the tracking of the episode rewards; the tensors it is
  given and the memory are as before after the call.
\<close>

definition base_store_transition :: "memory \<Rightarrow> memory" where
  "base_store_transition m = m"

text \<open>
  \<open>store_transition\<close>, on the memory of the agent at its write position: the call of the
  base class, the values of the two states, and one call of \<open>memory.add_samples\<close>.
\<close>

definition store_transition ::
  "hotu_hlmm_agent \<Rightarrow> memory \<Rightarrow> nat \<Rightarrow> batch \<Rightarrow> batch \<Rightarrow> batch \<Rightarrow> vec \<Rightarrow> bool list
     \<Rightarrow> bool list \<Rightarrow> batch \<Rightarrow> memory" where
  "store_transition self m memory_index states actions next_states rewards terminated truncated
     amp_obs =
     (let states = (case current_states self of Some s \<Rightarrow> s | None \<Rightarrow> states);
          m = base_store_transition m;
          amp_states = amp_obs;
          rewards = (case rewards_shaper self of Some f \<Rightarrow> f rewards | None \<Rightarrow> rewards);
          values = value_net self (state_preprocessor self states);
          values = value_preprocessor_inverse self values;
          next_values = value_net self (state_preprocessor self next_states);
          next_values = value_preprocessor_inverse self next_values;
          next_values = map2 (\<lambda>v t. v * (if t = 0 then 1 else 0)) next_values (need_terminate self)
      in add_samples m memory_index
           \<lparr>s_states = states, s_actions = actions, s_rewards = rewards,
            s_next_states = next_states, s_terminated = terminated, s_truncated = truncated,
            s_log_prob = current_log_prob self, s_values = values, s_amp_states = amp_states,
            s_next_values = next_values, s_omega_actions = omega_actions_for_llc self,
            s_disc_rewards = get_llc_disc_reward self amp_states\<rparr>)"

text \<open>
  The style reward of the agent's own discriminator in \<open>update_net\<close>, in exact
  arithmetic; with the rounding of 32-bit floats it is \<open>demo_style_rewards32\<close> below.
\<close>

definition demo_style_rewards :: "hotu_hlmm_agent \<Rightarrow> batch list \<Rightarrow> batch" where
  "demo_style_rewards self amp_states =
     (let amp_logits =
            map (map (\<lambda>a. discriminator self (amp_state_preprocessor self a))) amp_states;
          demo_style_rewards =
            (if least_square_discriminator self
             then map (map (\<lambda>l. max (1 - 0.25 * (1 - l)\<^sup>2) 0.0001)) amp_logits
             else map (map (\<lambda>l. - ln (max (1 - 1 / (1 + exp (- l))) 0.0001))) amp_logits)
      in map (map (\<lambda>r. r * discriminator_reward_scale self)) demo_style_rewards)"

definition combined_rewards :: "hotu_hlmm_agent \<Rightarrow> memory \<Rightarrow> batch" where
  "combined_rewards self m =
     (let rewards = mem_rewards m;
          amp_states = mem_amp_states m;
          style_rewards = mem_disc_rewards m;
          demo_style_rewards = demo_style_rewards self amp_states
      in map2 (map2 (+))
           (map2 (map2 (+))
              (map (map (\<lambda>r. task_reward_weight self * r)) rewards)
              (map (map (\<lambda>r. style_reward_weight self * r)) style_rewards))
           (map (map (\<lambda>r. demo_style_reward_weight self * r)) demo_style_rewards))"

text \<open>
  The variable \<open>advantage\<close> of the loop starts as the Python number \<open>0\<close> (here \<open>None\<close>)
  and holds a row afterwards; a product with the number broadcasts it.
\<close>

fun times_advantage :: "vec \<Rightarrow> vec option \<Rightarrow> vec" where
  "times_advantage row None = map (\<lambda>x. x * 0) row"
| "times_advantage row (Some a) = map2 (*) row a"

text \<open>The right-hand side of the assignment to \<open>advantage\<close> in the loop body.\<close>

definition advantage_row ::
  "hotu_hlmm_agent \<Rightarrow> batch \<Rightarrow> batch \<Rightarrow> batch \<Rightarrow> bool list list \<Rightarrow> nat
     \<Rightarrow> vec option \<Rightarrow> vec" where
  "advantage_row self combined values next_values not_dones i advantage =
     map2 (+) (map2 (-) (combined ! i) (values ! i))
       (map (\<lambda>x. discount self * x)
          (map2 (+) (next_values ! i)
             (times_advantage
                (map (\<lambda>b. td_lambda self * (if b then 1 else 0)) (not_dones ! i))
                advantage)))"

definition gae_step ::
  "hotu_hlmm_agent \<Rightarrow> batch \<Rightarrow> batch \<Rightarrow> batch \<Rightarrow> bool list list \<Rightarrow> nat
     \<Rightarrow> vec option \<times> batch \<Rightarrow> vec option \<times> batch" where
  "gae_step self combined values next_values not_dones i st =
     (let (advantage, advantages) = st;
          advantage = advantage_row self combined values next_values not_dones i advantage
      in (Some advantage, advantages[i := advantage]))"

text \<open>\<open>for i in reversed(range(memory_size))\<close>, from \<open>advantage = 0\<close> and a tensor of zeros.\<close>

definition gae_advantages ::
  "hotu_hlmm_agent \<Rightarrow> batch \<Rightarrow> batch \<Rightarrow> batch \<Rightarrow> bool list list \<Rightarrow> batch" where
  "gae_advantages self combined values next_values not_dones =
     (let memory_size = length combined
      in snd (fold (gae_step self combined values next_values not_dones)
                (rev [0..<memory_size])
                (None, map (map (\<lambda>_. 0)) combined)))"

text \<open>
  \<open>t.mean()\<close> and \<open>t.std()\<close> over all entries of a tensor; \<open>std\<close> is the sample standard
  deviation (divisor \<open>N - 1\<close>), which is not a number for a tensor of one entry.
\<close>

definition tensor_mean :: "batch \<Rightarrow> real" where
  "tensor_mean t = sum_list (concat t) / real (length (concat t))"

definition tensor_std :: "batch \<Rightarrow> real" where
  "tensor_std t =
     sqrt (sum_list (map (\<lambda>x. (x - tensor_mean t)\<^sup>2) (concat t))
           / (real (length (concat t)) - 1))"

text \<open>
  \<open>update_net\<close> up to its three \<open>memory.set_tensor_by_name\<close> calls. The rest of the
  method samples mini-batches and trains the networks; it does not write to the memory.
  The value preprocessor is called in training mode, which also updates its scaler.
\<close>

definition update_net :: "hotu_hlmm_agent \<Rightarrow> memory \<Rightarrow> memory \<times> hotu_hlmm_agent" where
  "update_net self m =
     (let combined_rewards = combined_rewards self m;
          values = mem_values m;
          next_values = mem_next_values m;
          not_dones = map (map Not) (mem_terminated m);
          advantages = gae_advantages self combined_rewards values next_values not_dones;
          values_target = map2 (map2 (+)) advantages values;
          mu = tensor_mean advantages;
          sd = tensor_std advantages;
          advantages = map (map (\<lambda>a. (a - mu) / (sd + 1 / 10 ^ 8))) advantages;
          (values', scaler) = value_preprocessor self (value_scaler self) values;
          (returns, scaler) = value_preprocessor self scaler values_target
      in (m\<lparr>mem_values := values', mem_returns := returns, mem_advantages := advantages\<rparr>,
          self\<lparr>value_scaler := scaler\<rparr>))"

text \<open>
  The style reward as the specification words it, for one discriminator logit.
\<close>

definition sigmoid :: "real \<Rightarrow> real" where
  "sigmoid x = 1 / (1 + exp (- x))"

definition style_reward :: "bool \<Rightarrow> real \<Rightarrow> real \<Rightarrow> real" where
  "style_reward least_squares scale logit =
     (if least_squares then max (1 - 0.25 * (1 - logit)\<^sup>2) 0.0001
      else - ln (max (1 - sigmoid logit) 0.0001)) * scale"

text \<open>
  A low-level controller that answers with the latent it is given, and an agent whose
  policy always draws the latent \<open>(3, 4)\<close>; both use least-squares discriminators that
  sum their observation.
\<close>

definition sample_llc :: hotu_llc_agent where
  "sample_llc = \<lparr>discriminator = sum_list, amp_state_preprocessor = (\<lambda>a. a),
     least_square_discriminator = True, discriminator_reward_scale = 2,
     llc_act = (\<lambda>states deterministic z. (z, []))\<rparr>"

definition sample_agent :: hotu_hlmm_agent where
  "sample_agent = \<lparr>discriminator = sum_list, amp_state_preprocessor = (\<lambda>a. a),
     least_square_discriminator = True, discriminator_reward_scale = 2,
     task_related_state_size = 1, task_reward_weight = 1, style_reward_weight = 1 / 2,
     demo_style_reward_weight = 1 / 4, rewards_shaper = None, discount = 1 / 2,
     td_lambda = 1 / 2, policy = (\<lambda>s deterministic. ([[3, 4]], [0])),
     state_preprocessor = (\<lambda>s. s), value_net = map sum_list,
     value_preprocessor_inverse = (\<lambda>v. v), value_preprocessor = (\<lambda>st x. (x, st)),
     value_scaler = [], llc_agent = sample_llc, num_envs = 1, current_states = None,
     current_log_prob = None, omega_actions_for_llc = None, pre_states = None,
     llc_cum_rew = [0], llc_cum_disc_rew = [0], need_reset = [0], need_terminate = [0]\<rparr>"

text \<open>A tensor of \<open>n\<close> rows with \<open>k\<close> entries each.\<close>

definition has_shape :: "nat \<Rightarrow> nat \<Rightarrow> 'a list list \<Rightarrow> bool" where
  "has_shape n k t = (length t = n \<and> list_all (\<lambda>row. length row = k) t)"

text \<open>A memory of two steps of one environment, the episode ending at the second.\<close>

definition sample_memory :: memory where
  "sample_memory = \<lparr>mem_rewards = [[1], [2]], mem_amp_states = [[[1]], [[1]]],
     mem_disc_rewards = [[2], [4]], mem_values = [[1], [1]], mem_next_values = [[1], [0]],
     mem_terminated = [[False], [True]], mem_returns = [[0], [0]],
     mem_advantages = [[0], [0]]\<rparr>"

text \<open>The sample agent with a value preprocessor that scales by one half.\<close>

definition halving_agent :: hotu_hlmm_agent where
  "halving_agent = sample_agent\<lparr>value_preprocessor := (\<lambda>st x. (map (map (\<lambda>v. v / 2)) x, st))\<rparr>"

text \<open>The sample agent with a policy that draws the zero latent.\<close>

definition zero_agent :: hotu_hlmm_agent where
  "zero_agent = sample_agent\<lparr>policy := (\<lambda>s deterministic. ([[0, 0]], [0]))\<rparr>"

text \<open>
  The two style-reward computations with the arithmetic of 32-bit floats: every tensor
  operation of the lines of \<open>_get_llc_disc_reward\<close> and of \<open>update_net\<close> is followed by
  the rounding, and the constant \<open>torch.tensor(0.0001)\<close> and the reward scale are the
  floats nearest to them. Negation and \<open>torch.maximum\<close> are exact.
\<close>

definition get_llc_disc_reward32 :: "hotu_hlmm_agent \<Rightarrow> batch \<Rightarrow> vec" where
  "get_llc_disc_reward32 self amp_states =
     (let llc = llc_agent self;
          amp_logits = map (\<lambda>a. discriminator llc (amp_state_preprocessor llc a)) amp_states;
          style_rewards =
            (if least_square_discriminator llc
             then map (\<lambda>l. max (binary32 (1 - binary32 (0.25 * binary32 ((binary32 (1 - l))\<^sup>2))))
                             (binary32 0.0001)) amp_logits
             else map (\<lambda>l. - binary32 (ln (max
                               (binary32 (1 - binary32 (1 / binary32 (1 + binary32 (exp (- l))))))
                               (binary32 0.0001)))) amp_logits)
      in map (\<lambda>r. binary32 (r * binary32 (discriminator_reward_scale llc))) style_rewards)"

definition demo_style_rewards32 :: "hotu_hlmm_agent \<Rightarrow> batch list \<Rightarrow> batch" where
  "demo_style_rewards32 self amp_states =
     (let amp_logits =
            map (map (\<lambda>a. discriminator self (amp_state_preprocessor self a))) amp_states;
          demo_style_rewards =
            (if least_square_discriminator self
             then map (map (\<lambda>l. max (binary32 (1 - binary32 (0.25 * binary32 ((binary32 (1 - l))\<^sup>2))))
                                  (binary32 0.0001))) amp_logits
             else map (map (\<lambda>l. - binary32 (ln (max
                                    (binary32 (1 - binary32 (1 / binary32 (1 + binary32 (exp (- l))))))
                                    (binary32 0.0001))))) amp_logits)
      in map (map (\<lambda>r. binary32 (r * binary32 (discriminator_reward_scale self)))) demo_style_rewards)"

text \<open>The sample agent and its low-level controller without the least-squares flag.\<close>

definition log_agent :: hotu_hlmm_agent where
  "log_agent = sample_agent\<lparr>least_square_discriminator := False,
     llc_agent := sample_llc\<lparr>least_square_discriminator := False\<rparr>\<rparr>"

section \<open>record (devices/zed/record.py)\<close>

text \<open>
  The function acts on the file system and on the cameras. The world is the set of
  paths that exist (what \<open>os.path.exists\<close> answers) and the list of the events so far;
  files that the logging module and the camera SDK write are not tracked. A camera is
  described by what the SDK answers for it: whether \<open>open\<close> succeeds, whether
  \<open>get_intrinsic_parameters\<close> returns, and whether \<open>enable_recording\<close> succeeds. The
  name \<open>record\<close> is taken in Isabelle, so the function is \<open>zed_record\<close> here.
\<close>

record camera =
  serial_number :: nat
  open_ok :: bool
  params_ok :: bool
  recording_ok :: bool

text \<open>
  The events: the directory is created, \<open>open\<close> is called on the camera of a serial
  number, the recording thread of a camera is started.
\<close>

datatype event = Mkdir string | Open nat | Start nat

record world =
  existing :: "string set"
  events :: "event list"

datatype outcome = Returned | Raised error | Hangs

text \<open>
  The loop that opens the cameras: each camera of the device list is opened in turn,
  and the loop stops where reading the intrinsic parameters raises.
\<close>

fun open_cameras :: "world \<Rightarrow> camera list \<Rightarrow> error option \<times> world" where
  "open_cameras w [] = (None, w)"
| "open_cameras w (cam # cams) =
     (let w = w\<lparr>events := events w @ [Open (serial_number cam)]\<rparr>
      in if params_ok cam then open_cameras w cams else (Some RuntimeError, w))"

text \<open>
  The loop that starts the threads. A thread is appended for an opened camera only, but
  started as \<open>thread_list[index]\<close> with the index of the camera: after a camera that did
  not open, the next opened one raises an \<open>IndexError\<close>. The arguments \<open>index\<close> and \<open>n\<close>
  are the loop index and the length of \<open>thread_list\<close>.
\<close>

fun start_threads :: "world \<Rightarrow> camera list \<Rightarrow> nat \<Rightarrow> nat \<Rightarrow> error option \<times> world" where
  "start_threads w [] index n = (None, w)"
| "start_threads w (cam # cams) index n =
     (if open_ok cam then
        (if index < n + 1
         then start_threads (w\<lparr>events := events w @ [Start (serial_number cam)]\<rparr>) cams
                (index + 1) (n + 1)
         else (Some IndexError, w))
      else start_threads w cams (index + 1) n)"

text \<open>
  \<open>os.mkdir\<close> is not recursive: it raises, for instance a \<open>FileNotFoundError\<close> when
  \<open>root_dir\<close> is missing. What it answers is an input of the model: \<open>None\<close> when it
  creates the directory, the error otherwise. \<open>grab_run\<close> leaves its thread when
  \<open>enable_recording\<close> fails and loops forever otherwise, so joining the threads returns
  only if no started camera records.
\<close>

definition zed_record ::
  "world \<Rightarrow> string \<Rightarrow> string \<Rightarrow> error option \<Rightarrow> camera list \<Rightarrow> outcome \<times> world" where
  "zed_record w root_dir exp_name mkdir_answer cameras =
     (let path = root_dir @ ''/'' @ exp_name
      in if path \<in> existing w then (Raised Exception, w)
         else
           (case mkdir_answer of
              Some e \<Rightarrow> (Raised e, w)
            | None \<Rightarrow>
                (let w = w\<lparr>existing := insert path (existing w),
                             events := events w @ [Mkdir path]\<rparr>
                 in case open_cameras w cameras of
                      (Some e, w) \<Rightarrow> (Raised e, w)
                    | (None, w) \<Rightarrow>
                        (case start_threads w cameras 0 0 of
                           (Some e, w) \<Rightarrow> (Raised e, w)
                         | (None, w) \<Rightarrow>
                             (if list_ex (\<lambda>cam. open_ok cam \<and> recording_ok cam) cameras
                              then (Hangs, w) else (Returned, w))))))"

text \<open>An empty world, and a camera that opens but cannot record.\<close>

definition empty_world :: world where
  "empty_world = \<lparr>existing = {}, events = []\<rparr>"

definition idle_camera :: camera where
  "idle_camera = \<lparr>serial_number = 7, open_ok = True, params_ok = True, recording_ok = False\<rparr>"

section \<open>Skeletons and motions (poselib)\<close>

text \<open>
  The two retargeting scripts build on the repository's \<open>poselib\<close> package, which is not
  among the files at hand; the model takes the functions they call from it as the
  fields of a record and places no condition on them. A quaternion has the components
  \<open>x, y, z, w\<close>. A skeleton tree maps joint names to indices and gives every joint the
  index of its parent (\<open>-1\<close> for the root) and its translation from the parent; a skeleton state is one pose, a motion is one pose per
  frame. \<open>global_translation\<close> gives, for one frame, the global position of every joint
  from the tree, the frame's local rotations and its root translation.
\<close>

type_synonym vec3 = "real \<times> real \<times> real"
type_synonym quat = "real \<times> real \<times> real \<times> real"

record skeleton_tree =
  node_indices :: "string \<rightharpoonup> nat"
  parent_indices :: "int list"
  local_translation :: "vec3 list"

record skeleton_state =
  sk_tree :: skeleton_tree
  sk_local_rotation :: "quat list"
  sk_root_translation :: vec3

record skeleton_motion =
  skeleton_tree :: skeleton_tree
  local_rotation :: "quat list list"
  root_translation :: "vec3 list"
  fps :: real

record poselib =
  quat_mul :: "quat \<Rightarrow> quat \<Rightarrow> quat"
  quat_from_angle_axis :: "real \<Rightarrow> vec3 \<Rightarrow> bool \<Rightarrow> quat"
  quat_rotate :: "quat \<Rightarrow> vec3 \<Rightarrow> vec3"
  quat_identity :: quat
  global_translation :: "skeleton_tree \<Rightarrow> quat list \<Rightarrow> vec3 \<Rightarrow> vec3 list"
  from_mjcf :: "string \<Rightarrow> error + skeleton_tree"
  zero_pose_wo_qbhand :: "skeleton_tree \<Rightarrow> skeleton_state"
  retarget_to_by_tpose ::
    "skeleton_motion \<Rightarrow> (string \<times> string) list \<Rightarrow> skeleton_state \<Rightarrow> skeleton_state \<Rightarrow> quat
       \<Rightarrow> real \<Rightarrow> skeleton_motion"

text \<open>\<open>skeleton.index(name)\<close> and \<open>skeleton_tree._node_indices[name]\<close>: a dictionary lookup.\<close>

definition index :: "skeleton_tree \<Rightarrow> string \<Rightarrow> error + nat" where
  "index skeleton name = (case node_indices skeleton name of None \<Rightarrow> Inl KeyError | Some i \<Rightarrow> Inr i)"

section \<open>get_tpose (generate_walker_tpose.py)\<close>

text \<open>
  \<open>zero_pose.local_rotation\<close> is a view of the pose's own tensor, so the two indexed
  assignments change the pose that is saved afterwards; the model updates the pose's
  rotations in place. Saved poses are a map from paths to skeleton states. The plot
  that \<open>verbose\<close> asks for changes nothing.
\<close>

definition get_tpose ::
  "poselib \<Rightarrow> (string \<rightharpoonup> skeleton_state) \<Rightarrow> string \<Rightarrow> string \<Rightarrow> bool
     \<Rightarrow> error + (string \<rightharpoonup> skeleton_state)" where
  "get_tpose lib files xml_path save_path verbose =
     (case from_mjcf lib xml_path of
        Inl e \<Rightarrow> Inl e
      | Inr skeleton \<Rightarrow>
          (let zero_pose = zero_pose_wo_qbhand lib skeleton;
               local_rotation = sk_local_rotation zero_pose
           in case index skeleton ''left_limb_l2'' of
                Inl e \<Rightarrow> Inl e
              | Inr l \<Rightarrow>
                  (if length local_rotation \<le> l then Inl IndexError
                   else
                     (let local_rotation = local_rotation[l :=
                            quat_mul lib (quat_from_angle_axis lib (- 90) (0, 1, 0) True)
                              (local_rotation ! l)]
                      in case index skeleton ''right_limb_l2'' of
                           Inl e \<Rightarrow> Inl e
                         | Inr r \<Rightarrow>
                             (if length local_rotation \<le> r then Inl IndexError
                              else
                                (let local_rotation = local_rotation[r :=
                                       quat_mul lib
                                         (quat_from_angle_axis lib (- 90) (0, 1, 0) True)
                                         (local_rotation ! r)];
                                     zero_pose = zero_pose\<lparr>sk_local_rotation := local_rotation\<rparr>
                                 in Inr (files(save_path \<mapsto> zero_pose))))))))"

text \<open>
  The usual quaternion formulas, for the examples: the Hamilton product, the rotation
  by an angle about an axis, and the rotation of a vector.
\<close>

definition hamilton :: "quat \<Rightarrow> quat \<Rightarrow> quat" where
  "hamilton a b =
     (case a of (x1, y1, z1, w1) \<Rightarrow> case b of (x2, y2, z2, w2) \<Rightarrow>
        (w1 * x2 + x1 * w2 + y1 * z2 - z1 * y2,
         w1 * y2 + y1 * w2 + z1 * x2 - x1 * z2,
         w1 * z2 + z1 * w2 + x1 * y2 - y1 * x2,
         w1 * w2 - x1 * x2 - y1 * y2 - z1 * z2))"

definition angle_axis :: "real \<Rightarrow> vec3 \<Rightarrow> bool \<Rightarrow> quat" where
  "angle_axis angle axis degree =
     (case axis of (x, y, z) \<Rightarrow>
        (let theta = (if degree then angle / 180 * pi else angle) / 2
         in (x * sin theta, y * sin theta, z * sin theta, cos theta)))"

definition rotate_vec :: "quat \<Rightarrow> vec3 \<Rightarrow> vec3" where
  "rotate_vec q v =
     (case q of (x, y, z, w) \<Rightarrow> case v of (a, b, c) \<Rightarrow>
        (case hamilton (hamilton q (a, b, c, 0)) (- x, - y, - z, w) of (x', y', z', _) \<Rightarrow>
           (x', y', z')))"

definition vadd :: "vec3 \<Rightarrow> vec3 \<Rightarrow> vec3" where
  "vadd a b = (case a of (x1, y1, z1) \<Rightarrow> case b of (x2, y2, z2) \<Rightarrow> (x1 + x2, y1 + y2, z1 + z2))"

text \<open>
  Forward kinematics, joint by joint in the order of the indices: the root sits at the
  root translation with its local rotation; any other joint composes its parent's
  global rotation with its own, and sits at the parent's position plus its translation
  turned by the parent's global rotation.
\<close>

definition fk_step ::
  "skeleton_tree \<Rightarrow> quat list \<Rightarrow> vec3 \<Rightarrow> nat \<Rightarrow> quat list \<times> vec3 list
     \<Rightarrow> quat list \<times> vec3 list" where
  "fk_step tree rots root_pos j acc =
     (case acc of (grot, gpos) \<Rightarrow>
        (let p = parent_indices tree ! j
         in if p = - 1 then (grot @ [rots ! j], gpos @ [root_pos])
            else (grot @ [hamilton (grot ! nat p) (rots ! j)],
                  gpos @ [vadd (gpos ! nat p)
                            (rotate_vec (grot ! nat p) (local_translation tree ! j))])))"

definition forward_kinematics :: "skeleton_tree \<Rightarrow> quat list \<Rightarrow> vec3 \<Rightarrow> vec3 list" where
  "forward_kinematics tree rots root_pos =
     snd (fold (fk_step tree rots root_pos) [0..<length (local_translation tree)] ([], []))"

text \<open>
  A walker of three joints, and a library of the usual formulas whose MJCF parser
  returns the walker for every file and whose retargeting returns the source motion.
\<close>

definition walker_tree :: skeleton_tree where
  "walker_tree = \<lparr>node_indices = [''base'' \<mapsto> 0, ''left_limb_l2'' \<mapsto> 1, ''right_limb_l2'' \<mapsto> 2],
     parent_indices = [- 1, 0, 0],
     local_translation = [(0, 0, 0), (0, 1, - 1), (0, - 1, - 1)]\<rparr>"

definition sample_lib :: poselib where
  "sample_lib = \<lparr>quat_mul = hamilton, quat_from_angle_axis = angle_axis, quat_rotate = rotate_vec,
     quat_identity = (0, 0, 0, 1),
     global_translation = forward_kinematics,
     from_mjcf = (\<lambda>path. Inr walker_tree),
     zero_pose_wo_qbhand = (\<lambda>tree. \<lparr>sk_tree = tree,
        sk_local_rotation = map (\<lambda>_. (0, 0, 0, 1)) (local_translation tree),
        sk_root_translation = (0, 0, 0)\<rparr>),
     retarget_to_by_tpose = (\<lambda>motion mapping source target rotation scale. motion)\<rparr>"

section \<open>motion_retargeting (xsens_fbx_to_amp_npy.py)\<close>

text \<open>Python's \<open>xs[b:e]\<close>: negative bounds count from the end, and bounds are clipped.\<close>

definition py_slice :: "'a list \<Rightarrow> int \<Rightarrow> int \<Rightarrow> 'a list" where
  "py_slice xs b e =
     (let n = int (length xs);
          b' = (if b < 0 then max (n + b) 0 else min b n);
          e' = (if e < 0 then max (n + e) 0 else min e n)
      in drop (nat b') (take (nat e') xs))"

record retarget_cfg =
  cfg_target_motion_path :: string
  cfg_source_tpose :: string
  cfg_target_tpose :: string
  cfg_joint_mapping :: "(string \<times> string) list"
  cfg_rotation :: quat
  cfg_scale :: real
  cfg_root_height_offset :: real
  cfg_trim_frame_beg :: int
  cfg_trim_frame_end :: int

text \<open>\<open>tar_global_pos[..., 2]\<close>, flattened: the height of every joint in every frame.\<close>

definition heights :: "poselib \<Rightarrow> skeleton_motion \<Rightarrow> real list" where
  "heights lib motion =
     concat (map2 (\<lambda>rots root. map (\<lambda>p. snd (snd p))
                     (global_translation lib (skeleton_tree motion) rots root))
               (local_rotation motion) (root_translation motion))"

text \<open>
  T-poses are read from a map from paths to skeleton states, and the retargeted motion
  is saved into a map from paths to motions. \<open>torch.min\<close> raises on a tensor without
  entries. The plots that \<open>visualize\<close> asks for change nothing.
\<close>

definition motion_retargeting ::
  "poselib \<Rightarrow> (string \<rightharpoonup> skeleton_state) \<Rightarrow> (string \<rightharpoonup> skeleton_motion) \<Rightarrow> retarget_cfg
     \<Rightarrow> skeleton_motion \<Rightarrow> bool \<Rightarrow> error + (string \<rightharpoonup> skeleton_motion)" where
  "motion_retargeting lib tposes saved retarget_cfg source_motion visualize =
     (case tposes (cfg_source_tpose retarget_cfg) of
        None \<Rightarrow> Inl FileNotFoundError
      | Some source_tpose \<Rightarrow>
     (case tposes (cfg_target_tpose retarget_cfg) of
        None \<Rightarrow> Inl FileNotFoundError
      | Some target_tpose \<Rightarrow>
     (let rotation_to_target_skeleton = cfg_rotation retarget_cfg;
          target_motion = retarget_to_by_tpose lib source_motion
            (cfg_joint_mapping retarget_cfg) source_tpose target_tpose
            rotation_to_target_skeleton (cfg_scale retarget_cfg);
          frame_beg = cfg_trim_frame_beg retarget_cfg;
          frame_end = cfg_trim_frame_end retarget_cfg;
          frame_beg = (if frame_beg = - 1 then 0 else frame_beg);
          frame_end = (if frame_end = - 1 then int (length (local_rotation target_motion))
                       else frame_end);
          target_motion = target_motion
            \<lparr>local_rotation := py_slice (local_rotation target_motion) frame_beg frame_end,
             root_translation := py_slice (root_translation target_motion) frame_beg frame_end\<rparr>;
          tar_global_pos = heights lib target_motion
      in if tar_global_pos = [] then Inl RuntimeError
         else
           (let min_h = min_list tar_global_pos;
                root_translation =
                  map (\<lambda>(x, y, z). (x, y, z + - min_h)) (root_translation target_motion);
                root_height_offset = cfg_root_height_offset retarget_cfg;
                root_translation =
                  map (\<lambda>(x, y, z). (x, y, z + root_height_offset)) root_translation;
                target_motion = target_motion\<lparr>root_translation := root_translation\<rparr>
            in Inr (saved(cfg_target_motion_path retarget_cfg \<mapsto> target_motion))))))"

text \<open>
  A motion of three frames of the walker, its root at heights 2, 3 and 4, and the
  configuration that \<open>amp_npy_from_fbx\<close> builds, with a height offset of \<open>1/2\<close>.
\<close>

definition walker_motion :: skeleton_motion where
  "walker_motion = \<lparr>skeleton_tree = walker_tree,
     local_rotation = [[(0, 0, 0, 1), (0, 0, 0, 1), (0, 0, 0, 1)],
                       [(0, 0, 0, 1), (0, 1, 0, 0), (0, 0, 0, 1)],
                       [(0, 0, 0, 1), (0, 0, 0, 1), (1, 0, 0, 0)]],
     root_translation = [(0, 0, 2), (1, 0, 3), (2, 0, 4)], fps = 60\<rparr>"

definition walker_tposes :: "string \<rightharpoonup> skeleton_state" where
  "walker_tposes = [''tpose.npy'' \<mapsto> zero_pose_wo_qbhand sample_lib walker_tree,
                    ''amp_tpose.npy'' \<mapsto> zero_pose_wo_qbhand sample_lib walker_tree]"

definition walker_cfg :: retarget_cfg where
  "walker_cfg = \<lparr>cfg_target_motion_path = ''walk_amp.npy'', cfg_source_tpose = ''tpose.npy'',
     cfg_target_tpose = ''amp_tpose.npy'', cfg_joint_mapping = [(''Hips'', ''pelvis'')],
     cfg_rotation = (1 / 2, 1 / 2, 1 / 2, 1 / 2), cfg_scale = 1 / 1000,
     cfg_root_height_offset = 1 / 2, cfg_trim_frame_beg = 0, cfg_trim_frame_end = - 1\<rparr>"


section \<open>_project_joints (xsens_fbx_to_amp_npy.py)\<close>

text \<open>The function is \<open>project_joints\<close> here. Vectors of three components first.\<close>

definition vsub :: "vec3 \<Rightarrow> vec3 \<Rightarrow> vec3" where
  "vsub a b = (case a of (x1, y1, z1) \<Rightarrow> case b of (x2, y2, z2) \<Rightarrow> (x1 - x2, y1 - y2, z1 - z2))"

definition vneg :: "vec3 \<Rightarrow> vec3" where
  "vneg a = (case a of (x, y, z) \<Rightarrow> (- x, - y, - z))"

definition vdot :: "vec3 \<Rightarrow> vec3 \<Rightarrow> real" where
  "vdot a b = (case a of (x1, y1, z1) \<Rightarrow> case b of (x2, y2, z2) \<Rightarrow> x1 * x2 + y1 * y2 + z1 * z2)"

definition vnorm :: "vec3 \<Rightarrow> real" where
  "vnorm a = (case a of (x, y, z) \<Rightarrow> sqrt (x\<^sup>2 + y\<^sup>2 + z\<^sup>2))"

definition vdiv :: "vec3 \<Rightarrow> real \<Rightarrow> vec3" where
  "vdiv a c = (case a of (x, y, z) \<Rightarrow> (x / c, y / c, z / c))"

text \<open>\<open>torch.clamp(x, lo, hi)\<close>\<close>

definition clamp :: "real \<Rightarrow> real \<Rightarrow> real \<Rightarrow> real" where
  "clamp x lo hi = min (max x lo) hi"

text \<open>
  The function treats the right arm, the left arm, the right leg and the left leg in
  four blocks of the same shape, which differ in two signs: an arm bends by
  \<open>-|theta|\<close> and a leg by \<open>|theta|\<close>, and the twist keeps its sign where the turned
  direction has a \<open>y\<close> component \<open>\<le> 0\<close> for an arm and \<open>\<ge> 0\<close> for a leg. The model has
  the block once, with the flag \<open>arm\<close>, for one frame: \<open>pos\<close> are the frame's global
  joint positions and \<open>rot\<close> its local rotations.
\<close>

definition joint_theta :: "vec3 \<Rightarrow> vec3 \<Rightarrow> vec3 \<Rightarrow> real" where
  "joint_theta upper_pos lower_pos end_pos =
     (let delta0 = vsub upper_pos lower_pos;
          delta1 = vsub end_pos lower_pos;
          delta0 = vdiv delta0 (vnorm delta0);
          delta1 = vdiv delta1 (vnorm delta1);
          dot = vdot (vneg delta0) delta1;
          dot = clamp dot (- 1) 1
      in arccos dot)"

definition twist_theta :: "poselib \<Rightarrow> bool \<Rightarrow> quat \<Rightarrow> quat \<Rightarrow> vec3 \<Rightarrow> real" where
  "twist_theta lib arm joint_rot joint_q local_dir =
     (let local_dir0 = quat_rotate lib joint_rot local_dir;
          local_dir1 = quat_rotate lib joint_q local_dir;
          dot = vdot local_dir0 local_dir1;
          dot = clamp dot (- 1) 1;
          theta = arccos dot
      in if (if arm then fst (snd local_dir0) \<le> 0 else fst (snd local_dir0) \<ge> 0)
         then theta else - theta)"

definition project_limb ::
  "poselib \<Rightarrow> skeleton_tree \<Rightarrow> bool \<Rightarrow> nat \<Rightarrow> nat \<Rightarrow> nat \<Rightarrow> vec3 list \<Rightarrow> quat list
     \<Rightarrow> quat \<times> quat" where
  "project_limb lib tree arm upper_id lower_id end_id pos rot =
     (let theta = joint_theta (pos ! upper_id) (pos ! lower_id) (pos ! end_id);
          joint_q = quat_from_angle_axis lib (if arm then - \<bar>theta\<bar> else \<bar>theta\<bar>) (0, 1, 0) False;
          local_dir = local_translation tree ! end_id;
          local_dir = vdiv local_dir (vnorm local_dir);
          limb_theta = twist_theta lib arm (rot ! lower_id) joint_q local_dir;
          limb_q = quat_from_angle_axis lib limb_theta local_dir False
      in (quat_mul lib (rot ! upper_id) limb_q, joint_q))"

type_synonym limb_ids = "nat \<times> nat \<times> nat \<times> nat \<times> nat \<times> nat \<times> nat \<times> nat \<times> nat \<times> nat \<times> nat \<times> nat"

text \<open>The twelve dictionary lookups, in the order of the source; \<open>None\<close> is a \<open>KeyError\<close>.\<close>

definition limb_ids :: "skeleton_tree \<Rightarrow> limb_ids option" where
  "limb_ids tree =
     Option.bind (node_indices tree ''right_upper_arm'') (\<lambda>right_upper_arm_id.
     Option.bind (node_indices tree ''right_lower_arm'') (\<lambda>right_lower_arm_id.
     Option.bind (node_indices tree ''right_hand'') (\<lambda>right_hand_id.
     Option.bind (node_indices tree ''left_upper_arm'') (\<lambda>left_upper_arm_id.
     Option.bind (node_indices tree ''left_lower_arm'') (\<lambda>left_lower_arm_id.
     Option.bind (node_indices tree ''left_hand'') (\<lambda>left_hand_id.
     Option.bind (node_indices tree ''right_thigh'') (\<lambda>right_thigh_id.
     Option.bind (node_indices tree ''right_shin'') (\<lambda>right_shin_id.
     Option.bind (node_indices tree ''right_foot'') (\<lambda>right_foot_id.
     Option.bind (node_indices tree ''left_thigh'') (\<lambda>left_thigh_id.
     Option.bind (node_indices tree ''left_shin'') (\<lambda>left_shin_id.
     Option.bind (node_indices tree ''left_foot'') (\<lambda>left_foot_id.
       Some (right_upper_arm_id, right_lower_arm_id, right_hand_id,
             left_upper_arm_id, left_lower_arm_id, left_hand_id,
             right_thigh_id, right_shin_id, right_foot_id,
             left_thigh_id, left_shin_id, left_foot_id)))))))))))))"

text \<open>The new local rotations of one frame, assigned in the order of the source.\<close>

definition project_frame ::
  "poselib \<Rightarrow> skeleton_tree \<Rightarrow> limb_ids \<Rightarrow> vec3 list \<Rightarrow> quat list \<Rightarrow> quat list" where
  "project_frame lib tree ids pos rot =
     (case ids of
        (right_upper_arm_id, right_lower_arm_id, right_hand_id,
         left_upper_arm_id, left_lower_arm_id, left_hand_id,
         right_thigh_id, right_shin_id, right_foot_id,
         left_thigh_id, left_shin_id, left_foot_id) \<Rightarrow>
        (let (right_shoulder_rot, right_elbow_q) =
               project_limb lib tree True right_upper_arm_id right_lower_arm_id right_hand_id pos rot;
             (left_shoulder_rot, left_elbow_q) =
               project_limb lib tree True left_upper_arm_id left_lower_arm_id left_hand_id pos rot;
             (right_hip_rot, right_knee_q) =
               project_limb lib tree False right_thigh_id right_shin_id right_foot_id pos rot;
             (left_hip_rot, left_knee_q) =
               project_limb lib tree False left_thigh_id left_shin_id left_foot_id pos rot
         in rot[right_upper_arm_id := right_shoulder_rot,
                right_lower_arm_id := right_elbow_q,
                left_upper_arm_id := left_shoulder_rot,
                left_lower_arm_id := left_elbow_q,
                right_thigh_id := right_hip_rot,
                right_shin_id := right_knee_q,
                left_thigh_id := left_hip_rot,
                left_shin_id := left_knee_q,
                left_hand_id := quat_identity lib,
                right_hand_id := quat_identity lib]))"

text \<open>
  The tensors of a motion have one row per joint of its tree; an index beyond them
  raises an \<open>IndexError\<close>.
\<close>

definition project_joints :: "poselib \<Rightarrow> skeleton_motion \<Rightarrow> error + skeleton_motion" where
  "project_joints lib motion =
     (case limb_ids (skeleton_tree motion) of
        None \<Rightarrow> Inl KeyError
      | Some ids \<Rightarrow>
          (case ids of (a1, a2, a3, a4, a5, a6, a7, a8, a9, a10, a11, a12) \<Rightarrow>
             if list_ex (\<lambda>i. length (local_translation (skeleton_tree motion)) \<le> i)
                  [a1, a2, a3, a4, a5, a6, a7, a8, a9, a10, a11, a12]
             then Inl IndexError
             else
               (let global_translation =
                      map2 (global_translation lib (skeleton_tree motion))
                        (local_rotation motion) (root_translation motion);
                    new_local_rotation =
                      map2 (project_frame lib (skeleton_tree motion) ids)
                        global_translation (local_rotation motion)
                in Inr (motion\<lparr>local_rotation := new_local_rotation\<rparr>))))"

text \<open>
  The angle at the mid joint in the words of the specification, between the direction
  from the upper joint to the mid joint and the direction from the end joint to the
  mid joint; and the angle between the direction from the upper joint to the mid joint
  and the direction from the mid joint to the end joint.
\<close>

definition claimed_angle :: "vec3 \<Rightarrow> vec3 \<Rightarrow> vec3 \<Rightarrow> real" where
  "claimed_angle upper_pos mid_pos end_pos =
     arccos (clamp (vdot (vdiv (vsub mid_pos upper_pos) (vnorm (vsub mid_pos upper_pos)))
                         (vdiv (vsub mid_pos end_pos) (vnorm (vsub mid_pos end_pos)))) (- 1) 1)"

definition segment_angle :: "vec3 \<Rightarrow> vec3 \<Rightarrow> vec3 \<Rightarrow> real" where
  "segment_angle upper_pos mid_pos end_pos =
     arccos (clamp (vdot (vdiv (vsub mid_pos upper_pos) (vnorm (vsub mid_pos upper_pos)))
                         (vdiv (vsub end_pos mid_pos) (vnorm (vsub end_pos mid_pos)))) (- 1) 1)"

text \<open>
  What the projection makes of one limb in one frame: the mid joint (elbow or knee)
  turns about \<open>(0, 1, 0)\<close> by the segment angle, negated for an arm, and the upper joint
  (shoulder or hip) is its input rotation times a twist about the normalised local
  translation of the end joint (hand or foot). A limb is proper when its two segments
  and the local translation of its end joint have a length, so that the normalisations
  divide by a positive number.
\<close>

definition projected_limb ::
  "poselib \<Rightarrow> skeleton_tree \<Rightarrow> bool \<Rightarrow> nat \<Rightarrow> nat \<Rightarrow> nat \<Rightarrow> vec3 list \<Rightarrow> quat list \<Rightarrow> quat list
     \<Rightarrow> bool" where
  "projected_limb lib tree arm upper_id mid_id end_id pos rot new =
     (let dir = vdiv (local_translation tree ! end_id) (vnorm (local_translation tree ! end_id));
          theta = segment_angle (pos ! upper_id) (pos ! mid_id) (pos ! end_id)
      in new ! mid_id
           = quat_from_angle_axis lib ((if arm then - 1 else 1) * \<bar>theta\<bar>) (0, 1, 0) False
         \<and> new ! upper_id
           = quat_mul lib (rot ! upper_id)
               (quat_from_angle_axis lib (twist_theta lib arm (rot ! mid_id) (new ! mid_id) dir)
                  dir False))"

definition proper_limb :: "skeleton_tree \<Rightarrow> nat \<Rightarrow> nat \<Rightarrow> nat \<Rightarrow> vec3 list \<Rightarrow> bool" where
  "proper_limb tree upper_id mid_id end_id pos =
     (pos ! upper_id \<noteq> pos ! mid_id \<and> pos ! end_id \<noteq> pos ! mid_id
      \<and> local_translation tree ! end_id \<noteq> (0, 0, 0))"

text \<open>
  A humanoid of fourteen joints in its T-pose, arms along the \<open>y\<close> axis and legs along
  the \<open>z\<close> axis, and a motion of one frame in which all joints are at rest but the head,
  which is turned by half a turn.
\<close>

definition humanoid_tree :: skeleton_tree where
  "humanoid_tree = \<lparr>node_indices =
       [''pelvis'' \<mapsto> 0, ''right_upper_arm'' \<mapsto> 1, ''right_lower_arm'' \<mapsto> 2, ''right_hand'' \<mapsto> 3,
        ''left_upper_arm'' \<mapsto> 4, ''left_lower_arm'' \<mapsto> 5, ''left_hand'' \<mapsto> 6,
        ''right_thigh'' \<mapsto> 7, ''right_shin'' \<mapsto> 8, ''right_foot'' \<mapsto> 9,
        ''left_thigh'' \<mapsto> 10, ''left_shin'' \<mapsto> 11, ''left_foot'' \<mapsto> 12, ''head'' \<mapsto> 13],
     parent_indices = [- 1, 0, 1, 2, 0, 4, 5, 0, 7, 8, 0, 10, 11, 0],
     local_translation =
       [(0, 0, 0), (0, - 1, 2), (0, - 1, 0), (0, - 1, 0), (0, 1, 2), (0, 1, 0), (0, 1, 0),
        (0, - 1, 0), (0, 0, - 1), (0, 0, - 1), (0, 1, 0), (0, 0, - 1), (0, 0, - 1),
        (0, 0, 3)]\<rparr>"

definition humanoid_motion :: skeleton_motion where
  "humanoid_motion = \<lparr>skeleton_tree = humanoid_tree,
     local_rotation = [replicate 13 (0, 0, 0, 1) @ [(0, 0, 1, 0)]],
     root_translation = [(0, 0, 3)], fps = 60\<rparr>"

text \<open>The global joint positions of the humanoid in that frame.\<close>

definition humanoid_positions :: "vec3 list" where
  "humanoid_positions =
     global_translation sample_lib humanoid_tree (local_rotation humanoid_motion ! 0)
       (root_translation humanoid_motion ! 0)"

text \<open>
  A motion of one frame of the same humanoid with a bent right arm and a bent right leg:
  the right elbow is turned by half a turn about \<open>z\<close>, which folds the hand back onto
  the shoulder, the right knee by a quarter turn about \<open>x\<close>, which lifts the foot
  sideways, the right hand by half a turn about \<open>x\<close> and the head by half a turn
  about \<open>z\<close>.
\<close>

definition bent_motion :: skeleton_motion where
  "bent_motion = \<lparr>skeleton_tree = humanoid_tree,
     local_rotation =
       [[(0, 0, 0, 1), (0, 0, 0, 1), (0, 0, 1, 0), (1, 0, 0, 0), (0, 0, 0, 1), (0, 0, 0, 1),
         (0, 0, 0, 1), (0, 0, 0, 1), (sqrt 2 / 2, 0, 0, sqrt 2 / 2), (0, 0, 0, 1),
         (0, 0, 0, 1), (0, 0, 0, 1), (0, 0, 0, 1), (0, 0, 1, 0)]],
     root_translation = [(0, 0, 3)], fps = 60\<rparr>"

section \<open>Properties of binary32 arithmetic\<close>

lemma round_even_cases:
  "round_even y = \<lfloor>y\<rfloor> \<and> y - of_int \<lfloor>y\<rfloor> \<le> 1 / 2 \<or>
   round_even y = \<lfloor>y\<rfloor> + 1 \<and> 1 / 2 \<le> y - of_int \<lfloor>y\<rfloor>"
  by (auto simp: round_even_def Let_def)

lemma round_even_close: "\<bar>of_int (round_even y) - y\<bar> \<le> 1 / 2"
  using round_even_cases[of y] by linarith

lemma round_even_nonneg: "0 \<le> y \<Longrightarrow> 0 \<le> round_even y"
proof -
  assume "0 \<le> y"
  then have "0 \<le> \<lfloor>y\<rfloor>" by simp
  then show ?thesis using round_even_cases[of y] by linarith
qed

lemma round_even_nonpos: "y \<le> 0 \<Longrightarrow> round_even y \<le> 0"
proof -
  assume y: "y \<le> 0"
  then have f: "\<lfloor>y\<rfloor> \<le> 0" by (simp add: floor_le_zero)
  have "of_int \<lfloor>y\<rfloor> \<le> y" by simp
  show ?thesis
  proof (cases "\<lfloor>y\<rfloor> = 0")
    case True
    then have "y = 0" using y by (metis of_int_floor_le antisym of_int_0)
    then show ?thesis by (simp add: round_even_def)
  next
    case False
    then have "\<lfloor>y\<rfloor> \<le> -1" using f by linarith
    then show ?thesis using round_even_cases[of y] by linarith
  qed
qed

lemma round_even_le: "y \<le> of_int n \<Longrightarrow> round_even y \<le> n"
proof -
  assume y: "y \<le> of_int n"
  then have f: "\<lfloor>y\<rfloor> \<le> n" by (simp add: floor_le_iff) 
  show ?thesis
  proof (cases "\<lfloor>y\<rfloor> = n")
    case True
    then have "y = of_int n" using y by (metis of_int_floor_le antisym)
    then show ?thesis by (simp add: round_even_def)
  next
    case False
    then have "\<lfloor>y\<rfloor> \<le> n - 1" using f by linarith
    then show ?thesis using round_even_cases[of y] by linarith
  qed
qed

lemma round_even_double: "0 \<le> y \<Longrightarrow> of_int (round_even y) \<le> 2 * y"
proof (cases "y < 1 / 2")
  case True
  assume "0 \<le> y"
  then have "\<lfloor>y\<rfloor> = 0" using True by (simp add: floor_eq_iff)
  then have "round_even y = 0" using True by (simp add: round_even_def)
  then show ?thesis using \<open>0 \<le> y\<close> by simp
next
  case False
  then show ?thesis using round_even_close[of y] by linarith
qed

lemma round_even_half: "1 \<le> y \<Longrightarrow> y / 2 \<le> of_int (round_even y)"
  using round_even_close[of y] by linarith

lemma ulp32_pos: "0 < ulp32 x"
  by (simp add: ulp32_def)

lemma binary32_nonneg: "0 \<le> x \<Longrightarrow> 0 \<le> binary32 x"
  using round_even_nonneg[of "x / ulp32 x"] ulp32_pos[of x]
  by (simp add: binary32_def)

lemma binary32_nonpos: "x \<le> 0 \<Longrightarrow> binary32 x \<le> 0"
proof -
  assume "x \<le> 0"
  then have "x / ulp32 x \<le> 0" using ulp32_pos[of x] by (simp add: divide_le_0_iff)
  then have "round_even (x / ulp32 x) \<le> 0" by (rule round_even_nonpos)
  then have "of_int (round_even (x / ulp32 x)) * ulp32 x \<le> 0"
    using ulp32_pos[of x] by (simp add: mult_le_0_iff)
  then show ?thesis by (simp add: binary32_def)
qed

lemma binary32_double: "0 \<le> x \<Longrightarrow> binary32 x \<le> 2 * x"
proof -
  assume x: "0 \<le> x"
  have u: "0 < ulp32 x" by (rule ulp32_pos)
  have "0 \<le> x / ulp32 x" using x u by simp
  then have "of_int (round_even (x / ulp32 x)) \<le> 2 * (x / ulp32 x)" by (rule round_even_double)
  then have "of_int (round_even (x / ulp32 x)) * ulp32 x \<le> 2 * (x / ulp32 x) * ulp32 x"
    using u by (simp only: mult_le_cancel_right_pos)
  then show ?thesis using u x by (simp add: binary32_def)
qed

lemma ulp32_le: "2 powr (- 126) \<le> x \<Longrightarrow> ulp32 x \<le> x"
proof -
  assume x: "2 powr (- 126) \<le> x"
  have x0: "0 < x" using x using powr_gt_zero[of 2 "- 126"] by linarith
  have "log 2 (2 powr (- 126)) \<le> log 2 x" using x x0 by (simp del: log_powr_cancel)
  then have "- 126 \<le> log 2 x" by simp
  then have "- 126 \<le> \<lfloor>log 2 x\<rfloor>" by (simp add: le_floor_iff)
  then have "max \<lfloor>log 2 \<bar>x\<bar>\<rfloor> (- 126) = \<lfloor>log 2 x\<rfloor>" using x0 by simp
  then have "ulp32 x = 2 powr (of_int \<lfloor>log 2 x\<rfloor> - 23)" by (simp only: ulp32_def)
  also have "\<dots> \<le> 2 powr (log 2 x)" by (rule powr_mono) (use of_int_floor_le[of "log 2 x"] in linarith, simp)
  also have "\<dots> = x" using x0 by simp
  finally show ?thesis .
qed

lemma binary32_half: "2 powr (- 126) \<le> x \<Longrightarrow> x / 2 \<le> binary32 x"
proof -
  assume x: "2 powr (- 126) \<le> x"
  have x0: "0 < x" using x using powr_gt_zero[of 2 "- 126"] by linarith
  have u: "0 < ulp32 x" by (rule ulp32_pos)
  have "1 \<le> x / ulp32 x" using ulp32_le[OF x] u by simp
  then have "x / ulp32 x / 2 \<le> of_int (round_even (x / ulp32 x))" by (rule round_even_half)
  then have "x / ulp32 x / 2 * ulp32 x \<le> of_int (round_even (x / ulp32 x)) * ulp32 x"
    using u by (simp only: mult_le_cancel_right_pos)
  then show ?thesis using u x0 by (simp add: binary32_def)
qed

lemma binary32_half1: "1 \<le> x \<Longrightarrow> x / 2 \<le> binary32 x"
proof -
  assume "1 \<le> x"
  moreover have "(2::real) powr (- 126) \<le> 1" by (simp add: powr_minus)
  ultimately show ?thesis using binary32_half[of x] by linarith
qed

lemma ulp32_unit: "1 \<le> x \<Longrightarrow> x < 2 \<Longrightarrow> ulp32 x = 1 / 2 ^ 23"
proof -
  assume x: "1 \<le> x" "x < 2"
  have "0 \<le> log 2 x" using x by simp
  moreover have "log 2 x < 1" using x by (simp add: log_less_iff)
  ultimately have "\<lfloor>log 2 x\<rfloor> = 0" by (simp add: floor_eq_iff)
  then have "ulp32 x = 2 powr (- 23)" using x by (simp add: ulp32_def)
  also have "\<dots> = 1 / 2 ^ 23" by (simp add: powr_minus powr_realpow divide_simps)
  finally show ?thesis .
qed

text \<open>Just above 1 the spacing is \<open>2^-23\<close>: a sum \<open>1 + t\<close> with \<open>t\<close> up to \<open>2^-24\<close> rounds to 1.\<close>

lemma binary32_one_plus:
  assumes "0 \<le> t" "t \<le> 1 / 2 ^ 24"
  shows "binary32 (1 + t) = 1"
proof -
  have u: "ulp32 (1 + t) = 1 / 2 ^ 23" by (rule ulp32_unit) (use assms in simp_all)
  let ?y = "(1 + t) / ulp32 (1 + t)"
  have y: "?y = 2 ^ 23 + t * 2 ^ 23" by (simp add: u algebra_simps)
  have t2: "0 \<le> t * 2 ^ 23" "t * 2 ^ 23 \<le> 1 / 2" using assms by simp_all
  have fl: "\<lfloor>?y\<rfloor> = 2 ^ 23" unfolding y using t2 by (simp add: floor_eq_iff)
  have "round_even ?y = 2 ^ 23"
    unfolding round_even_def Let_def fl using t2 by (simp add: y)
  then show ?thesis using assms by (simp add: binary32_def u)
qed

lemma binary32_one: "binary32 1 = 1"
  using binary32_one_plus[of 0] by simp

text \<open>Just below 1 the spacing is \<open>2^-24\<close>: a difference \<open>1 - s\<close> with \<open>s\<close> up to \<open>2^-25\<close> rounds to 1.\<close>

lemma ulp32_below: "1 / 2 \<le> x \<Longrightarrow> x < 1 \<Longrightarrow> ulp32 x = 1 / 2 ^ 24"
proof -
  assume x: "1 / 2 \<le> x" "x < 1"
  have "- 1 \<le> log 2 x" using x by (simp add: le_log_iff powr_minus)
  moreover have "log 2 x < 0" using x by simp
  ultimately have "\<lfloor>log 2 x\<rfloor> = - 1" by (simp add: floor_eq_iff)
  then have "ulp32 x = 2 powr (- 24)" using x by (simp add: ulp32_def)
  also have "\<dots> = 1 / 2 ^ 24" by (simp add: powr_minus powr_realpow divide_simps)
  finally show ?thesis .
qed

lemma binary32_one_minus:
  assumes "0 \<le> s" "s \<le> 1 / 2 ^ 25"
  shows "binary32 (1 - s) = 1"
proof (cases "s = 0")
  case True
  then show ?thesis by (simp add: binary32_one)
next
  case False
  then have s0: "0 < s" using assms by simp
  have "s \<le> 1 / 2" using assms(2) by (rule order_trans) simp
  then have u: "ulp32 (1 - s) = 1 / 2 ^ 24" using s0 by (intro ulp32_below) simp_all
  let ?y = "(1 - s) / ulp32 (1 - s)"
  have y: "?y = 2 ^ 24 - s * 2 ^ 24" by (simp add: u algebra_simps)
  have t2: "0 < s * 2 ^ 24" "s * 2 ^ 24 \<le> 1 / 2" using assms s0 by simp_all
  have fl: "\<lfloor>?y\<rfloor> = 2 ^ 24 - 1" unfolding y using t2 by (simp add: floor_eq_iff)
  have "round_even ?y = 2 ^ 24"
    unfolding round_even_def Let_def fl using t2 by (simp add: y)
  moreover have "1 - s \<noteq> 0" using \<open>s \<le> 1 / 2\<close> by simp
  ultimately show ?thesis by (simp add: binary32_def u)
qed

lemma powr_shift: "(2::real) powr (of_int e + 1) = 2 ^ 24 * 2 powr (of_int e - 23)"
proof -
  have "of_int e + 1 = 24 + (of_int e - 23 :: real)" by simp
  then have "(2::real) powr (of_int e + 1) = 2 powr (24 + (of_int e - 23))" by (rule arg_cong)
  also have "\<dots> = 2 powr 24 * 2 powr (of_int e - 23)" by (rule powr_add)
  also have "(2::real) powr 24 = 2 ^ 24" by (simp add: powr_numeral)
  finally show ?thesis .
qed

lemma binary32_le_one: "x \<le> 1 \<Longrightarrow> binary32 x \<le> 1"
proof -
  assume x: "x \<le> 1"
  consider "x \<le> 0" | "x = 1" | "0 < x" "x < 1" using x by linarith
  then show ?thesis
  proof cases
    case 1
    then show ?thesis using binary32_nonpos[of x] by simp
  next
    case 2
    then show ?thesis by (simp add: binary32_one)
  next
    case 3
    define e where "e = max \<lfloor>log 2 \<bar>x\<bar>\<rfloor> (- 126)"
    have u: "ulp32 x = 2 powr (of_int e - 23)" by (simp add: ulp32_def e_def)
    have "log 2 x < 0" using 3 by simp
    then have "\<lfloor>log 2 x\<rfloor> \<le> - 1" by (simp add: floor_le_iff)
    then have e1: "e \<le> - 1" using 3 by (simp add: e_def)
    have "log 2 x < of_int \<lfloor>log 2 x\<rfloor> + 1" by linarith
    also have "\<dots> \<le> of_int e + 1" using 3 by (simp add: e_def)
    finally have "log 2 x < of_int e + 1" .
    then have "x < 2 powr (of_int e + 1)" using 3 by (simp add: log_less_iff)
    also have "\<dots> = 2 ^ 24 * 2 powr (of_int e - 23)"
      by (rule powr_shift)
    finally have "x / ulp32 x \<le> of_int (2 ^ 24)" using ulp32_pos[of x] by (simp add: u field_simps)
    then have "round_even (x / ulp32 x) \<le> 2 ^ 24" by (rule round_even_le)
    then have "(of_int (round_even (x / ulp32 x)) :: real) \<le> 2 ^ 24" 
      by (metis of_int_le_iff of_int_numeral of_int_power)
    then have "of_int (round_even (x / ulp32 x)) * ulp32 x \<le> 2 ^ 24 * ulp32 x"
      using ulp32_pos[of x] by (simp only: mult_le_cancel_right_pos)
    also have "\<dots> = 2 powr (of_int e + 1)"
      unfolding u by (rule powr_shift[symmetric])
    also have "\<dots> \<le> 2 powr 0" by (rule powr_mono) (use e1 in simp_all)
    finally show ?thesis using 3 by (simp add: binary32_def)
  qed
qed

lemma exp_ge_two_power: "2 ^ n \<le> exp (real n)"
proof -
  have "(2::real) \<le> exp 1" using exp_ge_add_one_self[of 1] by simp
  then have "(2::real) ^ n \<le> exp 1 ^ n" by (intro power_mono) simp_all
  then show ?thesis by (simp add: exp_of_nat_mult[symmetric])
qed

lemma round_even_ge: "of_int n \<le> y \<Longrightarrow> n \<le> round_even y"
proof -
  assume "of_int n \<le> y"
  then have "n \<le> \<lfloor>y\<rfloor>" by (simp add: le_floor_iff)
  then show ?thesis using round_even_cases[of y] by linarith
qed

lemma binary32_ge_one: "1 \<le> x \<Longrightarrow> 1 \<le> binary32 x"
proof -
  assume x: "1 \<le> x"
  define e where "e = \<lfloor>log 2 x\<rfloor>"
  have l0: "0 \<le> log 2 x" using x by simp
  then have e0: "0 \<le> e" by (simp add: e_def)
  have m: "max e (- 126) = e" using e0 by simp
  have "ulp32 x = 2 powr (of_int (max e (- 126)) - 23)" using x by (simp add: ulp32_def e_def)
  then have u: "ulp32 x = 2 powr (of_int e - 23)" by (simp only: m)
  have sh: "(2::real) powr of_int e = 2 ^ 23 * 2 powr (of_int e - 23)"
  proof -
    have "of_int e = 23 + (of_int e - 23 :: real)" by simp
    then have "(2::real) powr of_int e = 2 powr (23 + (of_int e - 23))" by (rule arg_cong)
    also have "\<dots> = 2 powr 23 * 2 powr (of_int e - 23)" by (rule powr_add)
    also have "(2::real) powr 23 = 2 ^ 23" by (simp add: powr_numeral)
    finally show ?thesis .
  qed
  have "2 powr of_int e \<le> 2 powr (log 2 x)" by (rule powr_mono) (simp_all add: e_def)
  also have "\<dots> = x" using x by simp
  finally have "2 ^ 23 * ulp32 x \<le> x" by (simp add: u sh)
  then have "of_int (2 ^ 23) \<le> x / ulp32 x" using ulp32_pos[of x] by (simp add: field_simps)
  then have "2 ^ 23 \<le> round_even (x / ulp32 x)" by (rule round_even_ge)
  then have "(2::real) ^ 23 \<le> of_int (round_even (x / ulp32 x))"
    by (metis of_int_le_iff of_int_numeral of_int_power)
  then have "2 ^ 23 * ulp32 x \<le> of_int (round_even (x / ulp32 x)) * ulp32 x"
    using ulp32_pos[of x] by (simp only: mult_le_cancel_right_pos)
  moreover have "1 \<le> 2 ^ 23 * ulp32 x"
  proof -
    have "(2::real) powr 0 \<le> 2 powr of_int e" by (rule powr_mono) (use e0 in simp_all)
    then show ?thesis by (simp add: u sh)
  qed
  ultimately have "1 \<le> of_int (round_even (x / ulp32 x)) * ulp32 x" by (rule order_trans[rotated])
  then show ?thesis using x by (simp add: binary32_def)
qed

lemma binary32_zero: "binary32 0 = 0"
  by (simp add: binary32_def)

section \<open>Properties of update_parameters\<close>

lemma map2_mix:
  "length ys = length xs \<Longrightarrow>
   map2 (+) (map (\<lambda>x. x * (1 - p)) xs) (map (\<lambda>x. p * x) ys) = polyak_mix p xs ys"
  unfolding polyak_mix_def
  by (induction xs ys rule: list_induct2') (auto simp: algebra_simps)

lemma polyak_mix_one:
  "length ys = length xs \<Longrightarrow> polyak_mix 1 xs ys = ys"
  unfolding polyak_mix_def
  by (induction xs ys rule: list_induct2') auto

lemma unravel_less: "i < prod_list ds \<Longrightarrow> list_all2 (<) (unravel ds i) ds"
proof (induction ds arbitrary: i)
  case Nil
  then show ?case by simp
next
  case (Cons d ds)
  have i: "i < d * prod_list ds" using Cons.prems by simp
  then have P: "0 < prod_list ds" by (cases "prod_list ds = 0") simp_all
  have "i div prod_list ds < d" using i by (rule less_mult_imp_div_less)
  moreover have "i mod prod_list ds < prod_list ds" using P by simp
  ultimately show ?case using Cons.IH by simp
qed

lemma ravel_unravel: "i < prod_list ds \<Longrightarrow> ravel ds (unravel ds i) = i"
proof (induction ds arbitrary: i)
  case Nil
  then show ?case by simp
next
  case (Cons d ds)
  have i: "i < d * prod_list ds" using Cons.prems by simp
  then have P: "0 < prod_list ds" by (cases "prod_list ds = 0") simp_all
  have "i mod prod_list ds < prod_list ds" using P by simp
  then have "ravel ds (unravel ds (i mod prod_list ds)) = i mod prod_list ds" by (rule Cons.IH)
  then show ?case by simp
qed

lemma mask_id:
  "list_all2 (<) cs ds \<Longrightarrow> map2 (\<lambda>s c. if s = 1 then 0 else c) ds cs = (cs :: nat list)"
  by (induction cs ds rule: list_all2_induct) auto

lemma broadcastable_refl: "broadcastable ds ds"
  by (simp add: broadcastable_def list.rel_refl)

lemma expand_same:
  assumes "well_formed t" "sizes t = ds"
  shows "expand ds t = Some (entries t)"
proof -
  have "entries t ! ravel ds (map2 (\<lambda>s c. if s = 1 then 0 else c) ds (unravel ds i)) = entries t ! i"
    if "i < prod_list ds" for i
    by (simp only: mask_id[OF unravel_less[OF that]] ravel_unravel[OF that])
  then have "map (\<lambda>i. entries t ! ravel ds (map2 (\<lambda>s c. if s = 1 then 0 else c) ds (unravel ds i)))
               [0..<prod_list ds] = map (\<lambda>i. entries t ! i) [0..<prod_list ds]"
    by (intro map_cong) simp_all
  also have "\<dots> = entries t"
    using map_nth[of "entries t"] assms by (simp add: well_formed_def)
  finally show ?thesis using assms(2) by (simp add: expand_def broadcastable_refl)
qed

lemma mixed_copy_broadcast:
  "map_sum id (\<lambda>s'. s' 0) (tensor_copy mixed_store 0 1)
     = Inr \<lparr>sizes = [2, 3], entries = [7, 8, 9, 7, 8, 9]\<rparr>"
  by (simp add: tensor_copy_def expand_def broadcastable_def mixed_store_def upt_rec)

lemma mixed_copy_mismatch:
  "map_sum id (\<lambda>s'. s' 0) (tensor_copy mixed_store 0 2) = Inl RuntimeError"
  by (simp add: tensor_copy_def expand_def broadcastable_def mixed_store_def)

lemma scalar_times_well_formed:
  "well_formed t \<Longrightarrow> well_formed (scalar_times c t) \<and> sizes (scalar_times c t) = sizes t"
  by (simp add: well_formed_def scalar_times_def)

lemma same_sizes_length:
  "well_formed a \<Longrightarrow> well_formed b \<Longrightarrow> sizes b = sizes a \<Longrightarrow>
   length (entries b) = length (entries a)"
  by (simp add: well_formed_def)

lemma soft_update_spec:
  "distinct (map fst zs) \<Longrightarrow> fst ` set zs \<inter> snd ` set zs = {} \<Longrightarrow>
   \<forall>(p, mp) \<in> set zs. sizes (s mp) = sizes (s p) \<and> well_formed (s p) \<and> well_formed (s mp) \<Longrightarrow>
   \<exists>s'. soft_update s zs q = Inr s' \<and>
        (\<forall>(p, mp) \<in> set zs.
           s' p = (s p)\<lparr>entries := polyak_mix q (entries (s p)) (entries (s mp))\<rparr>) \<and>
        (\<forall>a. a \<notin> fst ` set zs \<longrightarrow> s' a = s a)"
proof (induction s zs q rule: soft_update.induct)
  case (1 s polyak)
  then show ?case by simp
next
  case (2 s p mp rest polyak)
  let ?s1 = "tensor_mul s p (1 - polyak)"
  have neq: "mp \<noteq> p" using 2(3) by auto
  have sz: "sizes (s mp) = sizes (s p)" and wp: "well_formed (s p)" and wm: "well_formed (s mp)"
    using 2(4) by auto
  have len: "length (entries (s mp)) = length (entries (s p))"
    using wp wm sz by (rule same_sizes_length)
  define s2 where "s2 = s(p := (s p)\<lparr>entries := polyak_mix polyak (entries (s p)) (entries (s mp))\<rparr>)"
  have s1: "?s1 mp = s mp" "sizes (?s1 p) = sizes (s p)"
    "entries (?s1 p) = map (\<lambda>x. x * (1 - polyak)) (entries (s p))"
    using neq by (simp_all add: tensor_mul_def)
  have ex: "expand (sizes (s p)) (scalar_times polyak (s mp)) = Some (map (\<lambda>x. polyak * x) (entries (s mp)))"
  proof -
    have "expand (sizes (s p)) (scalar_times polyak (s mp)) = Some (entries (scalar_times polyak (s mp)))"
      using scalar_times_well_formed[OF wm, of polyak] sz by (intro expand_same) simp_all
    then show ?thesis by (simp add: scalar_times_def)
  qed
  have add: "tensor_add ?s1 p (scalar_times polyak (?s1 mp)) = Inr s2"
    unfolding tensor_add_def s1 ex
    using len by (simp add: map2_mix s2_def tensor_mul_def fun_eq_iff)
  have d: "distinct (map fst rest)" "fst ` set rest \<inter> snd ` set rest = {}"
    using 2(2,3) by auto
  have pn: "p \<notin> fst ` set rest" "p \<notin> snd ` set rest" using 2(2,3) by force+
  have unch: "s2 p' = s p' \<and> s2 mp' = s mp'" if "(p', mp') \<in> set rest" for p' mp'
  proof -
    have "p' \<noteq> p" "mp' \<noteq> p" using that pn by force+
    then show ?thesis by (simp add: s2_def)
  qed
  have l2: "\<forall>(p', mp') \<in> set rest.
      sizes (s2 mp') = sizes (s2 p') \<and> well_formed (s2 p') \<and> well_formed (s2 mp')"
    using 2(4) unch by auto
  from 2(1)[OF refl add d l2] obtain s' where
    s': "soft_update s2 rest polyak = Inr s'"
    "\<forall>(p', mp') \<in> set rest.
       s' p' = (s2 p')\<lparr>entries := polyak_mix polyak (entries (s2 p')) (entries (s2 mp'))\<rparr>"
    "\<forall>a. a \<notin> fst ` set rest \<longrightarrow> s' a = s2 a" by blast
  have "soft_update s ((p, mp) # rest) polyak = Inr s'"
    using add s'(1) by (simp add: Let_def)
  moreover have "s' p = (s p)\<lparr>entries := polyak_mix polyak (entries (s p)) (entries (s mp))\<rparr>"
    using s'(3) pn by (simp add: s2_def)
  moreover have "\<forall>(p', mp') \<in> set rest.
      s' p' = (s p')\<lparr>entries := polyak_mix polyak (entries (s p')) (entries (s mp'))\<rparr>"
    using s'(2) unch by auto
  moreover have "\<forall>a. a \<notin> fst ` set ((p, mp) # rest) \<longrightarrow> s' a = s a"
    using s'(3) by (auto simp: s2_def)
  ultimately show ?case by auto
qed

lemma hard_update_spec:
  "distinct (map fst zs) \<Longrightarrow> fst ` set zs \<inter> snd ` set zs = {} \<Longrightarrow>
   \<forall>(p, mp) \<in> set zs. sizes (s mp) = sizes (s p) \<and> well_formed (s p) \<and> well_formed (s mp) \<Longrightarrow>
   \<exists>s'. hard_update s zs = Inr s' \<and>
        (\<forall>(p, mp) \<in> set zs. s' p = (s p)\<lparr>entries := entries (s mp)\<rparr>) \<and>
        (\<forall>a. a \<notin> fst ` set zs \<longrightarrow> s' a = s a)"
proof (induction s zs rule: hard_update.induct)
  case (1 s)
  then show ?case by simp
next
  case (2 s p mp rest)
  have sz: "sizes (s mp) = sizes (s p)" and wm: "well_formed (s mp)"
    using 2(4) by auto
  define s2 where "s2 = s(p := (s p)\<lparr>entries := entries (s mp)\<rparr>)"
  have "expand (sizes (s p)) (s mp) = Some (entries (s mp))"
    using wm sz by (rule expand_same)
  then have cp: "tensor_copy s p mp = Inr s2"
    by (simp add: tensor_copy_def s2_def)
  have d: "distinct (map fst rest)" "fst ` set rest \<inter> snd ` set rest = {}"
    using 2(2,3) by auto
  have pn: "p \<notin> fst ` set rest" "p \<notin> snd ` set rest" using 2(2,3) by force+
  have unch: "s2 p' = s p' \<and> s2 mp' = s mp'" if "(p', mp') \<in> set rest" for p' mp'
  proof -
    have "p' \<noteq> p" "mp' \<noteq> p" using that pn by force+
    then show ?thesis by (simp add: s2_def)
  qed
  have l2: "\<forall>(p', mp') \<in> set rest.
      sizes (s2 mp') = sizes (s2 p') \<and> well_formed (s2 p') \<and> well_formed (s2 mp')"
    using 2(4) unch by auto
  from 2(1)[OF cp d l2] obtain s' where
    s': "hard_update s2 rest = Inr s'"
    "\<forall>(p', mp') \<in> set rest. s' p' = (s2 p')\<lparr>entries := entries (s2 mp')\<rparr>"
    "\<forall>a. a \<notin> fst ` set rest \<longrightarrow> s' a = s2 a" by blast
  have "hard_update s ((p, mp) # rest) = Inr s'"
    using cp s'(1) by simp
  moreover have "s' p = (s p)\<lparr>entries := entries (s mp)\<rparr>"
    using s'(3) pn by (simp add: s2_def)
  moreover have "\<forall>(p', mp') \<in> set rest. s' p' = (s p')\<lparr>entries := entries (s mp')\<rparr>"
    using s'(2) unch by auto
  moreover have "\<forall>a. a \<notin> fst ` set ((p, mp) # rest) \<longrightarrow> s' a = s a"
    using s'(3) by (auto simp: s2_def)
  ultimately show ?case by auto
qed

lemma zip_sets:
  "length ps = length mps \<Longrightarrow> fst ` set (zip ps mps) = set ps \<and> snd ` set (zip ps mps) = set mps"
  by (induction ps mps rule: list_induct2) auto

text \<open>
  What the update does when no tensor is shared. When the actor's parameter tensors are
  pairwise distinct, none of them is also a parameter of the given model, both modules
  have the same number of parameters and corresponding tensors have the same sizes,
  then for a polyak factor \<open>p\<close> in \<open>(0, 1]\<close> the update succeeds and sets every internal
  parameter \<open>theta\<close> to \<open>(1 - p) * theta + p * theta_net\<close>, every tensor that is not a
  parameter of the actor (so every parameter of the model) is unchanged, and the
  hard-update loop gives the same store as the soft-update loop run at \<open>p = 1\<close>.
\<close>

lemma update_parameters_separate:
  assumes "distinct ps" "set ps \<inter> set mps = {}" "length mps = length ps"
    and "\<forall>i < length ps. sizes (s (mps ! i)) = sizes (s (ps ! i)) \<and>
           well_formed (s (ps ! i)) \<and> well_formed (s (mps ! i))"
    and "0 < p" "p \<le> 1"
  shows "\<exists>s'. update_parameters s ps mps p = Inr s' \<and>
           (\<forall>i < length ps. s' (ps ! i) =
              (s (ps ! i))\<lparr>entries := polyak_mix p (entries (s (ps ! i))) (entries (s (mps ! i)))\<rparr>) \<and>
           (\<forall>a. a \<notin> set ps \<longrightarrow> s' a = s a) \<and>
           hard_update s (zip ps mps) = soft_update s (zip ps mps) 1"
proof -
  let ?zs = "zip ps mps"
  have zs: "fst ` set ?zs = set ps" "snd ` set ?zs = set mps"
    using zip_sets[of ps mps] assms(3) by auto
  have d: "distinct (map fst ?zs)" using assms(1,3) by simp
  have dj: "fst ` set ?zs \<inter> snd ` set ?zs = {}" using zs assms(2) by simp
  have ln: "\<forall>(a, b) \<in> set ?zs. sizes (s b) = sizes (s a) \<and> well_formed (s a) \<and> well_formed (s b)"
    using assms(3,4) by (auto simp: set_zip)
  have mem: "(ps ! i, mps ! i) \<in> set ?zs" if "i < length ps" for i
    using that assms(3) by (auto simp: set_zip)
  obtain sh where sh: "hard_update s ?zs = Inr sh"
    "\<forall>(a, b) \<in> set ?zs. sh a = (s a)\<lparr>entries := entries (s b)\<rparr>"
    "\<forall>a. a \<notin> fst ` set ?zs \<longrightarrow> sh a = s a"
    using hard_update_spec[OF d dj ln] by blast
  obtain ss where ss: "soft_update s ?zs p = Inr ss"
    "\<forall>(a, b) \<in> set ?zs. ss a = (s a)\<lparr>entries := polyak_mix p (entries (s a)) (entries (s b))\<rparr>"
    "\<forall>a. a \<notin> fst ` set ?zs \<longrightarrow> ss a = s a"
    using soft_update_spec[OF d dj ln] by blast
  obtain s1 where s1: "soft_update s ?zs 1 = Inr s1"
    "\<forall>(a, b) \<in> set ?zs. s1 a = (s a)\<lparr>entries := polyak_mix 1 (entries (s a)) (entries (s b))\<rparr>"
    "\<forall>a. a \<notin> fst ` set ?zs \<longrightarrow> s1 a = s a"
    using soft_update_spec[OF d dj ln] by blast
  have one: "polyak_mix 1 (entries (s a)) (entries (s b)) = entries (s b)" if "(a, b) \<in> set ?zs" for a b
  proof -
    have "length (entries (s b)) = length (entries (s a))"
      using that ln by (intro same_sizes_length) auto
    then show ?thesis by (rule polyak_mix_one)
  qed
  have "sh a = s1 a" for a
  proof (cases "a \<in> fst ` set ?zs")
    case True
    then obtain b where "(a, b) \<in> set ?zs" by force
    then show ?thesis using sh(2) s1(2) one by fastforce
  next
    case False
    then show ?thesis using sh(3) s1(3) by simp
  qed
  then have eq: "hard_update s ?zs = soft_update s ?zs 1"
    using sh(1) s1(1) by (simp add: fun_eq_iff)
  show ?thesis
  proof (cases "p = 1")
    case True
    have "\<forall>i < length ps. sh (ps ! i) =
        (s (ps ! i))\<lparr>entries := polyak_mix p (entries (s (ps ! i))) (entries (s (mps ! i)))\<rparr>"
      using mem sh(2) one True by fastforce
    then show ?thesis using True sh zs eq by (auto simp: update_parameters_def)
  next
    case False
    have "\<forall>i < length ps. ss (ps ! i) =
        (s (ps ! i))\<lparr>entries := polyak_mix p (entries (s (ps ! i))) (entries (s (mps ! i)))\<rparr>"
      using mem ss(2) by fastforce
    then show ?thesis using False ss zs eq by (auto simp: update_parameters_def)
  qed
qed

text \<open>The update at an actor with one parameter \<open>[1, 2]\<close> and a model with \<open>[3, 4]\<close>.\<close>

lemma update_parameters_separate_example:
  "map_sum id (\<lambda>s'. (entries (s' 0), entries (s' 1)))
     (update_parameters separate_store [0] [1] (1/2)) = Inr ([2, 3], [3, 4])"
  by (simp add: update_parameters_def separate_store_def tensor_mul_def tensor_add_def
      scalar_times_def expand_def broadcastable_def upt_rec)

text \<open>
  Claim C10 fails in the code when the model shares its parameter with the actor. The
  docstring gives the soft update as \<open>theta = (1 - rho) * theta + rho * theta_net\<close>, which
  for \<open>theta_net = theta = [4]\<close> is \<open>[4]\<close>. Called with the actor itself as the model and
  \<open>polyak = 1/2\<close>, the code scales the shared tensor in place to \<open>[2]\<close> before it reads
  \<open>theta_net\<close> from it, and leaves \<open>[3]\<close>: the internal parameter is not the value of the
  formula, and the parameter of the model argument has changed.
\<close>

theorem update_parameters_shared_tensor:
  "map_sum id (\<lambda>s'. entries (s' 0)) (update_parameters shared_store [0] [0] (1/2)) = Inr [3] \<and>
   polyak_mix (1/2) (entries (shared_store 0)) (entries (shared_store 0)) = [4]"
  by (simp add: update_parameters_def shared_store_def tensor_mul_def tensor_add_def
      scalar_times_def expand_def broadcastable_def polyak_mix_def)

section \<open>Properties of ActorPPO_Beta\<close>

lemma softplus_nonneg: "0 \<le> softplus x"
proof (cases "x > 20")
  case True
  then show ?thesis by (simp add: softplus_def)
next
  case False
  have "0 \<le> binary32 (exp x)" by (rule binary32_nonneg) simp
  then have "0 \<le> ln (1 + binary32 (exp x))" by simp
  then have "0 \<le> binary32 (ln (1 + binary32 (exp x)))" by (rule binary32_nonneg)
  then show ?thesis using False by (simp add: softplus_def)
qed

text \<open>What the rounded computation does give: no entry of \<open>alpha\<close> or \<open>beta\<close> is below 1.\<close>

lemma forward_at_least_one:
  "(\<forall>row \<in> set (fst (forward self state)). \<forall>a \<in> set row. 1 \<le> a) \<and>
   (\<forall>row \<in> set (snd (forward self state)). \<forall>b \<in> set row. 1 \<le> b)"
proof -
  have "1 \<le> binary32 (softplus x + 1.0)" for x
    by (rule binary32_ge_one) (use softplus_nonneg[of x] in simp)
  then show ?thesis by (auto simp: forward_def Let_def)
qed

lemma exp_minus_forty: "exp (- 40 :: real) \<le> 1 / 2 ^ 40"
proof -
  have "(2::real) ^ 40 \<le> exp (real 40)" by (rule exp_ge_two_power)
  then have "1 / exp (40::real) \<le> 1 / 2 ^ 40" by (intro divide_left_mono) simp_all
  then show ?thesis by (simp add: exp_minus inverse_eq_divide)
qed

lemma softplus_minus_forty: "0 \<le> softplus (- 40) \<and> softplus (- 40) \<le> 1 / 2 ^ 38"
proof -
  define a where "a = binary32 (exp (- 40))"
  have a0: "0 \<le> a" unfolding a_def by (rule binary32_nonneg) simp
  have "a \<le> 2 * exp (- 40)" unfolding a_def by (rule binary32_double) simp
  then have a1: "a \<le> 2 * (1 / 2 ^ 40)" using exp_minus_forty by linarith
  have l0: "0 \<le> ln (1 + a)" using a0 by simp
  have l1: "ln (1 + a) \<le> a" using a0 by (rule ln_add_one_self_le_self)
  have s0: "0 \<le> binary32 (ln (1 + a))" using l0 by (rule binary32_nonneg)
  have "binary32 (ln (1 + a)) \<le> 2 * ln (1 + a)" using l0 by (rule binary32_double)
  then have "binary32 (ln (1 + a)) \<le> 4 * (1 / 2 ^ 40)" using l1 a1 by linarith
  then have "binary32 (ln (1 + a)) \<le> 1 / 2 ^ 38" by simp
  then show ?thesis using s0 by (simp add: softplus_def a_def)
qed

text \<open>
  Claim C9 fails in the code. The comment in \<open>forward\<close> wants \<open>alpha\<close> and \<open>beta\<close> larger
  than 1, and in exact arithmetic \<open>softplus(x) + 1\<close> is; but \<open>forward\<close> computes in 32-bit
  floats, where the softplus of a layer output of \<open>-40\<close> is below \<open>2^-38\<close> and the sum
  with \<open>1.0\<close> rounds to \<open>1.0\<close>: at the actor whose alpha layer is the identity and the state
  \<open>[[-40]]\<close>, the \<open>alpha\<close> that \<open>forward\<close> returns is exactly 1, which is not greater than 1.
\<close>

theorem forward_alpha_equals_one: "fst (forward plain_actor [[- 40]]) = [[1]]"
proof -
  have "softplus (- 40) \<le> 1 / 2 ^ 24"
    using softplus_minus_forty by (rule_tac order_trans[of _ "1 / 2 ^ 38"]) simp_all
  then have "binary32 (1 + softplus (- 40)) = 1"
    using softplus_minus_forty by (intro binary32_one_plus) simp_all
  then show ?thesis by (simp add: forward_def plain_actor_def add.commute)
qed

section \<open>Properties of the style reward\<close>

lemma style_reward_least_squares_lower:
  assumes "0 < scale"
  shows "0.0001 * scale \<le> style_reward True scale logit"
proof -
  have m: "(0.0001::real) \<le> max (1 - 0.25 * (1 - logit)\<^sup>2) 0.0001"
    by (rule max.cobounded2)
  have "0.0001 * scale \<le> max (1 - 0.25 * (1 - logit)\<^sup>2) 0.0001 * scale"
    by (rule mult_right_mono[OF m]) (use assms in simp)
  then show ?thesis by (simp only: style_reward_def if_True)
qed

lemma style_reward_log_positive:
  assumes "0 < scale"
  shows "0 < style_reward False scale logit"
proof -
  let ?m = "max (1 - sigmoid logit) 0.0001"
  have "0 < sigmoid logit"
    by (simp add: sigmoid_def add_pos_pos)
  then have "?m < 1" by simp
  moreover have "0 < ?m" by simp
  ultimately have "ln ?m < 0" by simp
  then have "0 < - ln ?m" by simp
  then have "0 < - ln ?m * scale" using assms by (rule mult_pos_pos)
  then show ?thesis by (simp only: style_reward_def if_False)
qed

lemma style_reward_positive:
  "0 < scale \<Longrightarrow> 0 < style_reward least_squares scale logit"
proof (cases least_squares)
  case True
  assume s: "0 < scale"
  have "0 < 0.0001 * scale" using s by simp
  also have "\<dots> \<le> style_reward True scale logit"
    using s by (rule style_reward_least_squares_lower)
  finally show ?thesis using True by simp
next
  case False
  assume "0 < scale"
  then show ?thesis using False style_reward_log_positive by simp
qed

lemma get_llc_disc_reward_eq:
  "get_llc_disc_reward self amp_states =
     map (\<lambda>a. style_reward (least_square_discriminator (llc_agent self))
                (discriminator_reward_scale (llc_agent self))
                (discriminator (llc_agent self) (amp_state_preprocessor (llc_agent self) a)))
         amp_states"
  by (simp add: get_llc_disc_reward_def style_reward_def sigmoid_def Let_def)

lemma demo_style_rewards_eq:
  "demo_style_rewards self amp_states =
     map (map (\<lambda>a. style_reward (least_square_discriminator self)
                (discriminator_reward_scale self)
                (discriminator self (amp_state_preprocessor self a))))
         amp_states"
  by (simp add: demo_style_rewards_def style_reward_def sigmoid_def Let_def)

lemma floor_const_pos: "0 < binary32 0.0001"
proof -
  have "(2::real) powr (- 126) \<le> 0.0001"
  proof -
    have "(10::real) ^ 4 \<le> 2 ^ 126" by simp
    then have "1 / (2::real) ^ 126 \<le> 1 / 10 ^ 4" by (intro divide_left_mono) simp_all
    moreover have "(2::real) powr (- 126) = 1 / 2 ^ 126"
      by (simp add: powr_minus powr_numeral inverse_eq_divide)
    ultimately show ?thesis by simp
  qed
  then have "0.0001 / 2 \<le> binary32 0.0001" by (rule binary32_half)
  then show ?thesis by simp
qed

lemma floor_const_le_one: "binary32 0.0001 \<le> 1"
  by (rule binary32_le_one) simp

text \<open>The rounded reward of one logit, before the scale, is not negative.\<close>

lemma least_squares_reward32_nonneg:
  "0 \<le> max (binary32 (1 - binary32 (0.25 * binary32 ((binary32 (1 - l))\<^sup>2)))) (binary32 0.0001)"
  using floor_const_pos by (simp add: le_max_iff_disj)

lemma log_reward32_nonneg:
  "0 \<le> - binary32 (ln (max (binary32 (1 - binary32 (1 / binary32 (1 + binary32 (exp (- l))))))
                        (binary32 0.0001)))"
proof -
  define a where "a = binary32 (exp (- l))"
  define b where "b = binary32 (1 + a)"
  define c where "c = binary32 (1 / b)"
  define d where "d = binary32 (1 - c)"
  have "0 \<le> a" unfolding a_def by (rule binary32_nonneg) simp
  then have "0 \<le> b" unfolding b_def by (intro binary32_nonneg) simp
  then have "0 \<le> c" unfolding c_def by (intro binary32_nonneg) simp
  then have "d \<le> 1" unfolding d_def by (intro binary32_le_one) simp
  then have m1: "max d (binary32 0.0001) \<le> 1" using floor_const_le_one by simp
  have m0: "0 < max d (binary32 0.0001)" using floor_const_pos by (simp add: less_max_iff_disj)
  have "ln (max d (binary32 0.0001)) \<le> 0" using m0 m1 by simp
  then have "binary32 (ln (max d (binary32 0.0001))) \<le> 0" by (rule binary32_nonpos)
  then show ?thesis by (simp add: a_def b_def c_def d_def)
qed

lemma scaled32_nonneg: "0 \<le> r \<Longrightarrow> 0 \<le> scale \<Longrightarrow> 0 \<le> binary32 (r * binary32 scale)"
  by (intro binary32_nonneg mult_nonneg_nonneg)

lemma least_squares_scaled32_nonneg:
  "0 \<le> scale \<Longrightarrow>
   0 \<le> binary32 (max (binary32 (1 - binary32 (0.25 * binary32 ((binary32 (1 - l))\<^sup>2))))
                       (binary32 0.0001) * binary32 scale)"
  using least_squares_reward32_nonneg by (rule scaled32_nonneg)

lemma log_scaled32_nonneg:
  "0 \<le> scale \<Longrightarrow>
   0 \<le> binary32 (- binary32 (ln (max
                 (binary32 (1 - binary32 (1 / binary32 (1 + binary32 (exp (- l))))))
                 (binary32 0.0001))) * binary32 scale)"
  using log_reward32_nonneg by (rule scaled32_nonneg)

lemma get_llc_disc_reward32_nonneg:
  assumes "0 \<le> discriminator_reward_scale (llc_agent self)"
  shows "list_all (\<lambda>r. 0 \<le> r) (get_llc_disc_reward32 self amp_states)"
  unfolding get_llc_disc_reward32_def Let_def list_all_iff
  using least_squares_scaled32_nonneg[OF assms] log_scaled32_nonneg[OF assms]
  by auto

lemma demo_style_rewards32_nonneg:
  assumes "0 \<le> discriminator_reward_scale self"
  shows "list_all (list_all (\<lambda>r. 0 \<le> r)) (demo_style_rewards32 self amp_states)"
  unfolding demo_style_rewards32_def Let_def list_all_iff
  using least_squares_scaled32_nonneg[OF assms] log_scaled32_nonneg[OF assms]
  by auto

text \<open>At the logit \<open>-40\<close> the rounded difference \<open>1 - sigmoid\<close> is exactly 1.\<close>

lemma one_minus_sigmoid32:
  "binary32 (1 - binary32 (1 / binary32 (1 + binary32 (exp 40)))) = 1"
proof -
  define a where "a = binary32 (exp 40)"
  define b where "b = binary32 (1 + a)"
  define c where "c = binary32 (1 / b)"
  have e: "(2::real) ^ 40 \<le> exp 40" using exp_ge_two_power[of 40] by simp
  then have "(1::real) \<le> exp 40" by (rule order_trans[rotated]) simp
  then have "exp 40 / 2 \<le> a" unfolding a_def by (rule binary32_half1)
  then have a: "2 ^ 39 \<le> a" using e by simp
  then have "1 \<le> 1 + a" by simp
  then have "(1 + a) / 2 \<le> b" unfolding b_def by (rule binary32_half1)
  then have b: "2 ^ 38 \<le> b" using a by simp
  then have b0: "0 < b" by (rule less_le_trans[rotated]) simp
  have "1 / b \<le> 1 / 2 ^ 38" using b by (intro divide_left_mono) simp_all
  moreover have "0 \<le> 1 / b" using b0 by simp
  moreover from this have "c \<le> 2 * (1 / b)" unfolding c_def by (rule binary32_double)
  ultimately have "c \<le> 2 * (1 / 2 ^ 38)" by linarith
  then have "c \<le> 1 / 2 ^ 25" by simp
  moreover have "0 \<le> c" unfolding c_def using b0 by (intro binary32_nonneg) simp
  ultimately have "binary32 (1 - c) = 1" by (intro binary32_one_minus)
  then show ?thesis by (simp add: a_def b_def c_def)
qed

lemma binary32_two: "binary32 2 = 2"
proof -
  have "\<lfloor>log 2 (2::real)\<rfloor> = 1" by simp
  then have "ulp32 2 = 2 powr (- 22)" by (simp add: ulp32_def)
  also have "\<dots> = 1 / 2 ^ 22" by (simp add: powr_minus powr_numeral inverse_eq_divide)
  finally have u: "ulp32 2 = 1 / 2 ^ 22" .
  have "\<lfloor>(2::real) ^ 23\<rfloor> = 2 ^ 23" by (simp add: floor_eq_iff)
  then have "round_even (2 ^ 23) = 2 ^ 23" by (simp add: round_even_def)
  then show ?thesis by (simp add: binary32_def u)
qed

lemma sample_reward32:
  "get_llc_disc_reward32 sample_agent [[1]] = [2] \<and>
   demo_style_rewards32 sample_agent [[[1]]] = [[2]]"
proof -
  have "max (1::real) (binary32 0.0001) = 1" using floor_const_le_one by simp
  then show ?thesis
    by (simp add: get_llc_disc_reward32_def demo_style_rewards32_def sample_agent_def
        sample_llc_def binary32_zero binary32_one binary32_two)
qed

text \<open>
  Claim C4, as amended. For every discriminator logit, the style reward of
  \<open>_get_llc_disc_reward\<close> (from the low-level controller's discriminator) and the
  \<open>demo_style_rewards\<close> of \<open>update_net\<close> (from the agent's own) are, in exact arithmetic,
  \<open>max(1 - 0.25 * (1 - logit)^2, 0.0001)\<close> with the least-squares flag and
  \<open>-log(max(1 - sigmoid(logit), 0.0001))\<close> without it, times the discriminator reward
  scale; for a positive scale that exact value is strictly positive, and at least
  \<open>0.0001\<close> times the scale in the least-squares case. The 32-bit floats that the two
  computations return are, for a scale that is not negative, never negative.
\<close>

theorem style_reward_formula_positive:
  "get_llc_disc_reward self amp_states =
     map (\<lambda>a. style_reward (least_square_discriminator (llc_agent self))
                (discriminator_reward_scale (llc_agent self))
                (discriminator (llc_agent self) (amp_state_preprocessor (llc_agent self) a)))
         amp_states \<and>
   demo_style_rewards self mem_amp =
     map (map (\<lambda>a. style_reward (least_square_discriminator self)
                (discriminator_reward_scale self)
                (discriminator self (amp_state_preprocessor self a))))
         mem_amp \<and>
   (0 < scale \<longrightarrow> 0 < style_reward least_squares scale logit) \<and>
   (0 < scale \<longrightarrow> 0.0001 * scale \<le> style_reward True scale logit) \<and>
   (0 \<le> discriminator_reward_scale (llc_agent self) \<longrightarrow>
      list_all (\<lambda>r. 0 \<le> r) (get_llc_disc_reward32 self amp_states)) \<and>
   (0 \<le> discriminator_reward_scale self \<longrightarrow>
      list_all (list_all (\<lambda>r. 0 \<le> r)) (demo_style_rewards32 self mem_amp))"
  using get_llc_disc_reward_eq demo_style_rewards_eq style_reward_positive
    style_reward_least_squares_lower get_llc_disc_reward32_nonneg demo_style_rewards32_nonneg
  by blast

text \<open>
  The theorem at the sample agent, one observation with logit 1 and scale 2, where the
  least-squares reward is 2, in exact arithmetic and in 32-bit floats.
\<close>

theorem style_reward_formula_positive_witness:
  "(0::real) < 2 \<and> get_llc_disc_reward sample_agent [[1]] = [style_reward True 2 1] \<and>
   demo_style_rewards sample_agent [[[1]]] = [[style_reward True 2 1]] \<and>
   style_reward True 2 1 = 2 \<and> 0 < style_reward True 2 1 \<and>
   0.0001 * 2 \<le> style_reward True 2 1 \<and>
   get_llc_disc_reward32 sample_agent [[1]] = [2] \<and>
   demo_style_rewards32 sample_agent [[[1]]] = [[2]] \<and>
   list_all (\<lambda>r. 0 \<le> r) (get_llc_disc_reward32 sample_agent [[1]]) \<and>
   list_all (list_all (\<lambda>r. 0 \<le> r)) (demo_style_rewards32 sample_agent [[[1]]])"
proof -
  have sc: "discriminator_reward_scale (llc_agent sample_agent) = 2"
    "discriminator_reward_scale sample_agent = 2"
    "least_square_discriminator (llc_agent sample_agent)"
    "least_square_discriminator sample_agent"
    "discriminator (llc_agent sample_agent) (amp_state_preprocessor (llc_agent sample_agent) [1]) = 1"
    "discriminator sample_agent (amp_state_preprocessor sample_agent [1]) = 1"
    by (simp_all add: sample_agent_def sample_llc_def)
  have v: "style_reward True 2 1 = 2" by (simp add: style_reward_def)
  show ?thesis
    using style_reward_formula_positive [of sample_agent "[[1]]" "[[[1]]]" 2 True 1]
    by (simp add: sc v sample_reward32)
qed

text \<open>
  Claim C4 as stated fails for the floats of the code: without the least-squares flag
  and at the logit \<open>-40\<close>, \<open>1 / (1 + exp(40))\<close> is below \<open>2^-37\<close>, the difference from 1
  rounds to \<open>1.0\<close>, its logarithm is 0 and the style reward is 0, which is not strictly
  positive, although the scale is 2.
\<close>

theorem style_reward32_zero_counterexample:
  "get_llc_disc_reward32 log_agent [[- 40]] = [0] \<and>
   demo_style_rewards32 log_agent [[[- 40]]] = [[0]] \<and>
   0 < discriminator_reward_scale (llc_agent log_agent) \<and>
   0 < discriminator_reward_scale log_agent"
proof -
  have "max (1::real) (binary32 0.0001) = 1" using floor_const_le_one by simp
  then show ?thesis
    by (simp add: get_llc_disc_reward32_def demo_style_rewards32_def log_agent_def
        sample_agent_def sample_llc_def one_minus_sigmoid32 binary32_zero)
qed

section \<open>Properties of the combined rewards\<close>

lemma has_shape_nth:
  "has_shape n k t \<Longrightarrow> i < n \<Longrightarrow> length (t ! i) = k"
  by (simp add: has_shape_def list_all_length)

lemma has_shape_length: "has_shape n k t \<Longrightarrow> length t = n"
  by (simp add: has_shape_def)

lemma has_shape_map_map: "has_shape n k (map (map f) t) = has_shape n k t"
  by (simp add: has_shape_def list_all_length)

lemma has_shape_map2:
  "has_shape n k s \<Longrightarrow> has_shape n k t \<Longrightarrow> has_shape n k (map2 (map2 f) s t)"
  by (simp add: has_shape_def list_all_length)

lemma map2_map2_nth:
  "has_shape n k s \<Longrightarrow> has_shape n k t \<Longrightarrow> i < n \<Longrightarrow> j < k \<Longrightarrow>
   map2 (map2 f) s t ! i ! j = f (s ! i ! j) (t ! i ! j)"
  by (simp add: has_shape_def list_all_length)

lemma map_map_nth:
  "has_shape n k t \<Longrightarrow> i < n \<Longrightarrow> j < k \<Longrightarrow> map (map f) t ! i ! j = f (t ! i ! j)"
  by (simp add: has_shape_def list_all_length)

lemma combined_rewards_shape:
  assumes "has_shape n k (mem_rewards m)" "has_shape n k (mem_disc_rewards m)"
    "has_shape n k (mem_amp_states m)"
  shows "has_shape n k (combined_rewards self m)"
  using assms
  by (simp add: combined_rewards_def demo_style_rewards_def Let_def has_shape_map2
      has_shape_map_map)

lemma combined_rewards_nth:
  assumes r: "has_shape n k (mem_rewards m)" and d: "has_shape n k (mem_disc_rewards m)"
    and a: "has_shape n k (mem_amp_states m)" and i: "i < n" and j: "j < k"
  shows "combined_rewards self m ! i ! j =
           task_reward_weight self * (mem_rewards m ! i ! j)
         + style_reward_weight self * (mem_disc_rewards m ! i ! j)
         + demo_style_reward_weight self * (demo_style_rewards self (mem_amp_states m) ! i ! j)"
proof -
  let ?R = "map (map (\<lambda>r. task_reward_weight self * r)) (mem_rewards m)"
  let ?D = "map (map (\<lambda>r. style_reward_weight self * r)) (mem_disc_rewards m)"
  let ?Q = "map (map (\<lambda>r. demo_style_reward_weight self * r))
              (demo_style_rewards self (mem_amp_states m))"
  have sq0: "has_shape n k (demo_style_rewards self (mem_amp_states m))"
    using a by (simp add: demo_style_rewards_def Let_def has_shape_map_map)
  have sR: "has_shape n k ?R" and sD: "has_shape n k ?D" and sQ: "has_shape n k ?Q"
    using r d sq0 by (simp_all add: has_shape_map_map)
  have sRD: "has_shape n k (map2 (map2 (+)) ?R ?D)"
    using sR sD by (rule has_shape_map2)
  have "combined_rewards self m ! i ! j = map2 (map2 (+)) (map2 (map2 (+)) ?R ?D) ?Q ! i ! j"
    by (simp add: combined_rewards_def Let_def)
  also have "\<dots> = map2 (map2 (+)) ?R ?D ! i ! j + ?Q ! i ! j"
    using sRD sQ i j by (rule map2_map2_nth)
  also have "map2 (map2 (+)) ?R ?D ! i ! j = ?R ! i ! j + ?D ! i ! j"
    using sR sD i j by (rule map2_map2_nth)
  also have "?R ! i ! j = task_reward_weight self * (mem_rewards m ! i ! j)"
    using r i j by (rule map_map_nth)
  also have "?D ! i ! j = style_reward_weight self * (mem_disc_rewards m ! i ! j)"
    using d i j by (rule map_map_nth)
  also have "?Q ! i ! j =
      demo_style_reward_weight self * (demo_style_rewards self (mem_amp_states m) ! i ! j)"
    using sq0 i j by (rule map_map_nth)
  finally show ?thesis .
qed

lemma demo_style_rewards_nth:
  assumes "has_shape n k amp" "i < n" "j < k"
  shows "demo_style_rewards self amp ! i ! j =
           style_reward (least_square_discriminator self) (discriminator_reward_scale self)
             (discriminator self (amp_state_preprocessor self (amp ! i ! j)))"
proof -
  have "demo_style_rewards self amp =
     map (map (\<lambda>a. style_reward (least_square_discriminator self)
                (discriminator_reward_scale self)
                (discriminator self (amp_state_preprocessor self a)))) amp"
    by (simp add: demo_style_rewards_def style_reward_def sigmoid_def Let_def)
  then show ?thesis using assms by (simp add: map_map_nth)
qed

lemma update_net_frame:
  "mem_rewards (fst (update_net self m)) = mem_rewards m \<and>
   mem_disc_rewards (fst (update_net self m)) = mem_disc_rewards m \<and>
   mem_amp_states (fst (update_net self m)) = mem_amp_states m"
  by (simp add: update_net_def Let_def split_beta)

lemma has_shape_update:
  "has_shape n k t \<Longrightarrow> length row = k \<Longrightarrow> has_shape n k (t[i := row])"
  unfolding has_shape_def list_all_iff
  using set_update_subset_insert[of t i row] by fastforce

lemma get_llc_disc_reward_length:
  "length (get_llc_disc_reward self amp_states) = length amp_states"
  by (simp add: get_llc_disc_reward_def Let_def)

lemma store_transition_tensors:
  "rewards_shaper self = None \<Longrightarrow>
   mem_rewards (store_transition self m t states actions next_states rewards terminated
       truncated amp_obs) = (mem_rewards m)[t := rewards] \<and>
   mem_amp_states (store_transition self m t states actions next_states rewards terminated
       truncated amp_obs) = (mem_amp_states m)[t := amp_obs] \<and>
   mem_disc_rewards (store_transition self m t states actions next_states rewards terminated
       truncated amp_obs) = (mem_disc_rewards m)[t := get_llc_disc_reward self amp_obs]"
  by (simp add: store_transition_def add_samples_def base_store_transition_def Let_def)

lemma update_net_returns:
  "mem_returns (fst (update_net self m)) =
     fst (value_preprocessor self
            (snd (value_preprocessor self (value_scaler self) (mem_values m)))
            (map2 (map2 (+))
               (gae_advantages self (combined_rewards self m) (mem_values m) (mem_next_values m)
                  (map (map Not) (mem_terminated m)))
               (mem_values m)))"
  by (simp add: update_net_def Let_def split_beta)

lemma update_net_advantages:
  "mem_advantages (fst (update_net self m)) =
     (let A = gae_advantages self (combined_rewards self m) (mem_values m) (mem_next_values m)
                (map (map Not) (mem_terminated m))
      in map (map (\<lambda>a. (a - tensor_mean A) / (tensor_std A + 1 / 10 ^ 8))) A)"
  by (simp add: update_net_def Let_def split_beta)

text \<open>
  Claim C3. A transition is stored by \<open>store_transition\<close> at row \<open>t\<close> of a memory of \<open>n\<close>
  steps and \<open>k\<close> environments (with the reward shaper that \<open>__init__\<close> sets, none), and
  \<open>update_net\<close> runs on the memory \<open>m'\<close> that results. Then row \<open>t\<close> of the memory's
  \<open>rewards\<close>, \<open>disc_rewards\<close> and \<open>amp_states\<close> holds the rewards that were passed in, the
  low-level controller's discriminator reward and the observations; the combined reward
  is, entry by entry, \<open>task_reward_weight * rewards + style_reward_weight * disc_rewards +
  demo_style_reward_weight * demo_style_rewards\<close> and nothing else, with \<open>rewards\<close> and
  \<open>disc_rewards\<close> the memory tensors and \<open>demo_style_rewards\<close> the style reward of the
  agent's own discriminator on the stored \<open>amp_states\<close>, so at row \<open>t\<close> it is that
  combination of the values just stored; the advantages and the returns that
  \<open>update_net\<close> writes are computed by the advantage estimation from this combined
  reward; and \<open>update_net\<close> leaves the three reward tensors as they are.
\<close>

theorem combined_rewards_affine:
  assumes "has_shape n k (mem_rewards m)" "has_shape n k (mem_disc_rewards m)"
    "has_shape n k (mem_amp_states m)" "t < n" "i < n" "j < k" "rewards_shaper self = None"
    "length rewards = k" "length amp_obs = k"
    and "m' = store_transition self m t states actions next_states rewards terminated
               truncated amp_obs"
  shows "mem_rewards m' ! t = rewards
     \<and> mem_disc_rewards m' ! t = get_llc_disc_reward self amp_obs
     \<and> mem_amp_states m' ! t = amp_obs
     \<and> combined_rewards self m' ! i ! j =
           task_reward_weight self * (mem_rewards m' ! i ! j)
         + style_reward_weight self * (mem_disc_rewards m' ! i ! j)
         + demo_style_reward_weight self *
             style_reward (least_square_discriminator self) (discriminator_reward_scale self)
               (discriminator self (amp_state_preprocessor self (mem_amp_states m' ! i ! j)))
     \<and> combined_rewards self m' ! t ! j =
           task_reward_weight self * (rewards ! j)
         + style_reward_weight self * (get_llc_disc_reward self amp_obs ! j)
         + demo_style_reward_weight self *
             style_reward (least_square_discriminator self) (discriminator_reward_scale self)
               (discriminator self (amp_state_preprocessor self (amp_obs ! j)))
     \<and> mem_advantages (fst (update_net self m')) =
          (let A = gae_advantages self (combined_rewards self m') (mem_values m')
                     (mem_next_values m') (map (map Not) (mem_terminated m'))
           in map (map (\<lambda>a. (a - tensor_mean A) / (tensor_std A + 1 / 10 ^ 8))) A)
     \<and> mem_returns (fst (update_net self m')) =
          fst (value_preprocessor self
                 (snd (value_preprocessor self (value_scaler self) (mem_values m')))
                 (map2 (map2 (+))
                    (gae_advantages self (combined_rewards self m') (mem_values m')
                       (mem_next_values m') (map (map Not) (mem_terminated m')))
                    (mem_values m')))
     \<and> mem_rewards (fst (update_net self m')) = mem_rewards m'
     \<and> mem_disc_rewards (fst (update_net self m')) = mem_disc_rewards m'
     \<and> mem_amp_states (fst (update_net self m')) = mem_amp_states m'"
proof -
  have st: "mem_rewards m' = (mem_rewards m)[t := rewards]"
    "mem_amp_states m' = (mem_amp_states m)[t := amp_obs]"
    "mem_disc_rewards m' = (mem_disc_rewards m)[t := get_llc_disc_reward self amp_obs]"
    unfolding assms(10) using store_transition_tensors[OF assms(7)] by simp_all
  have len: "length (mem_rewards m) = n" "length (mem_disc_rewards m) = n"
    "length (mem_amp_states m) = n"
    using assms(1,2,3) by (simp_all add: has_shape_def)
  have row: "mem_rewards m' ! t = rewards" "mem_amp_states m' ! t = amp_obs"
    "mem_disc_rewards m' ! t = get_llc_disc_reward self amp_obs"
    using len assms(4) by (simp_all add: st)
  have sh: "has_shape n k (mem_rewards m')" "has_shape n k (mem_disc_rewards m')"
    "has_shape n k (mem_amp_states m')"
    unfolding st
    using assms(1,2,3,8,9) by (simp_all add: has_shape_update get_llc_disc_reward_length)
  have entry: "combined_rewards self m' ! a ! j =
           task_reward_weight self * (mem_rewards m' ! a ! j)
         + style_reward_weight self * (mem_disc_rewards m' ! a ! j)
         + demo_style_reward_weight self *
             style_reward (least_square_discriminator self) (discriminator_reward_scale self)
               (discriminator self (amp_state_preprocessor self (mem_amp_states m' ! a ! j)))"
    if "a < n" for a
    using combined_rewards_nth [OF sh that assms(6), of self]
      demo_style_rewards_nth [OF sh(3) that assms(6), of self] by simp
  have at_t: "combined_rewards self m' ! t ! j =
           task_reward_weight self * (rewards ! j)
         + style_reward_weight self * (get_llc_disc_reward self amp_obs ! j)
         + demo_style_reward_weight self *
             style_reward (least_square_discriminator self) (discriminator_reward_scale self)
               (discriminator self (amp_state_preprocessor self (amp_obs ! j)))"
    using entry[OF assms(4)] by (simp only: row)
  show ?thesis
    using row entry[OF assms(5)] at_t update_net_advantages[of self m']
      update_net_returns[of self m'] update_net_frame[of self m']
    by blast
qed

lemma sample_shapes:
  "has_shape 2 1 (mem_rewards sample_memory)" "has_shape 2 1 (mem_disc_rewards sample_memory)"
  "has_shape 2 1 (mem_amp_states sample_memory)" "has_shape 2 1 (mem_values sample_memory)"
  "has_shape 2 1 (mem_next_values sample_memory)" "has_shape 2 1 (mem_terminated sample_memory)"
  by (simp_all add: has_shape_def sample_memory_def)

text \<open>
  The sample memory after the storing, at row 0, of a transition with reward 7 between
  two states of value 3.
\<close>

lemma sample_stored:
  "store_transition sample_agent sample_memory 0 [[1, 2]] [[0]] [[1, 2]] [7] [False] [False] [[1]]
     = \<lparr>mem_rewards = [[7], [2]], mem_amp_states = [[[1]], [[1]]],
        mem_disc_rewards = [[2], [4]], mem_values = [[3], [1]], mem_next_values = [[3], [0]],
        mem_terminated = [[False], [True]], mem_returns = [[0], [0]],
        mem_advantages = [[0], [0]]\<rparr>"
  by (simp add: store_transition_def add_samples_def base_store_transition_def
      get_llc_disc_reward_def sample_agent_def sample_llc_def sample_memory_def Let_def)

lemma sample_stored_advantages:
  "gae_advantages sample_agent [[17 / 2], [9 / 2]] [[3], [1]] [[3], [0]] [[True], [False]]
     = [[63 / 8], [7 / 2]]"
  by (simp add: gae_advantages_def gae_step_def advantage_row_def sample_agent_def
      numeral_2_eq_2 Let_def)

text \<open>
  The theorem at that memory: the combined reward of row 0 is \<open>1 * 7 + 1/2 * 2 + 1/4 * 2\<close>,
  and the returns of \<open>update_net\<close> are the advantages of this reward plus the values.
\<close>

theorem combined_rewards_affine_witness:
  "mem_rewards (store_transition sample_agent sample_memory 0 [[1, 2]] [[0]] [[1, 2]] [7]
      [False] [False] [[1]]) ! 0 = [7] \<and>
   mem_disc_rewards (store_transition sample_agent sample_memory 0 [[1, 2]] [[0]] [[1, 2]] [7]
      [False] [False] [[1]]) ! 0 = [2] \<and>
   combined_rewards sample_agent (store_transition sample_agent sample_memory 0 [[1, 2]] [[0]]
      [[1, 2]] [7] [False] [False] [[1]]) ! 0 ! 0 = 17 / 2 \<and>
   mem_returns (fst (update_net sample_agent (store_transition sample_agent sample_memory 0
      [[1, 2]] [[0]] [[1, 2]] [7] [False] [False] [[1]]))) = [[87 / 8], [9 / 2]]"
proof -
  define m' where "m' = store_transition sample_agent sample_memory 0 [[1, 2]] [[0]] [[1, 2]] [7]
      [False] [False] [[1]]"
  have sh: "rewards_shaper sample_agent = None" by (simp add: sample_agent_def)
  have d: "get_llc_disc_reward sample_agent [[1]] = [2]"
    by (simp add: get_llc_disc_reward_def sample_agent_def sample_llc_def)
  have c: "combined_rewards sample_agent m' = [[17 / 2], [9 / 2]]"
    unfolding m'_def sample_stored
    by (simp add: combined_rewards_def demo_style_rewards_def sample_agent_def)
  have A: "gae_advantages sample_agent (combined_rewards sample_agent m') (mem_values m')
             (mem_next_values m') (map (map Not) (mem_terminated m')) = [[63 / 8], [7 / 2]]"
    unfolding c using sample_stored_advantages by (simp add: m'_def sample_stored)
  have vp: "value_preprocessor sample_agent st x = (x, st)" for st x
    by (simp add: sample_agent_def)
  from combined_rewards_affine [OF sample_shapes(1,2,3) _ _ _ sh _ _ m'_def, where i = 0 and j = 0]
  have "mem_rewards m' ! 0 = [7]" and "mem_disc_rewards m' ! 0 = get_llc_disc_reward sample_agent [[1]]"
    and "mem_returns (fst (update_net sample_agent m')) =
          fst (value_preprocessor sample_agent
                 (snd (value_preprocessor sample_agent (value_scaler sample_agent) (mem_values m')))
                 (map2 (map2 (+))
                    (gae_advantages sample_agent (combined_rewards sample_agent m') (mem_values m')
                       (mem_next_values m') (map (map Not) (mem_terminated m')))
                    (mem_values m')))"
    by simp_all
  then have "mem_rewards m' ! 0 = [7]" "mem_disc_rewards m' ! 0 = [2]"
    "mem_returns (fst (update_net sample_agent m')) = [[87 / 8], [9 / 2]]"
    unfolding A vp d by (simp_all add: m'_def sample_stored)
  moreover have "combined_rewards sample_agent m' ! 0 ! 0 = 17 / 2" by (simp add: c)
  ultimately show ?thesis unfolding m'_def by simp
qed

section \<open>Properties of the advantage estimation\<close>

lemma gae_fold:
  assumes "k \<le> length A"
  shows "\<exists>adv' A'. fold (gae_step self c v nv nd) (rev [0..<k]) (adv, A) = (adv', A') \<and>
           length A' = length A \<and>
           (\<forall>i. k \<le> i \<longrightarrow> A' ! i = A ! i) \<and>
           (\<forall>i < k. A' ! i =
              advantage_row self c v nv nd i (if Suc i < k then Some (A' ! Suc i) else adv))"
  using assms
proof (induction k arbitrary: adv A)
  case 0
  then show ?case by simp
next
  case (Suc k)
  define r where "r = advantage_row self c v nv nd k adv"
  have step: "gae_step self c v nv nd k (adv, A) = (Some r, A[k := r])"
    by (simp add: gae_step_def r_def Let_def)
  have "k \<le> length (A[k := r])" using Suc.prems by simp
  from Suc.IH[OF this, of "Some r"] obtain adv' A' where
    f: "fold (gae_step self c v nv nd) (rev [0..<k]) (Some r, A[k := r]) = (adv', A')"
    and l: "length A' = length (A[k := r])"
    and keep: "\<forall>i. k \<le> i \<longrightarrow> A' ! i = A[k := r] ! i"
    and rec: "\<forall>i < k. A' ! i =
       advantage_row self c v nv nd i (if Suc i < k then Some (A' ! Suc i) else Some r)"
    by blast
  have Ak: "A' ! k = r" using keep Suc.prems by simp
  have "fold (gae_step self c v nv nd) (rev [0..<Suc k]) (adv, A) = (adv', A')"
    using f step by simp
  moreover have "length A' = length A" using l by simp
  moreover have "\<forall>i. Suc k \<le> i \<longrightarrow> A' ! i = A ! i" using keep by simp
  moreover have "\<forall>i < Suc k. A' ! i =
       advantage_row self c v nv nd i (if Suc i < Suc k then Some (A' ! Suc i) else adv)"
  proof (intro allI impI)
    fix i assume "i < Suc k"
    then consider "i = k" | "Suc i = k" | "Suc i < k" by linarith
    then show "A' ! i =
       advantage_row self c v nv nd i (if Suc i < Suc k then Some (A' ! Suc i) else adv)"
    proof cases
      case 1
      then show ?thesis using Ak by (simp add: r_def)
    next
      case 2
      then have "i < k" by simp
      then show ?thesis using rec 2 Ak by simp
    next
      case 3
      then have "i < k" by simp
      then show ?thesis using rec 3 by simp
    qed
  qed
  ultimately show ?case by blast
qed

lemma gae_advantages_rows:
  "length (gae_advantages self c v nv nd) = length c \<and>
   (\<forall>i < length c. gae_advantages self c v nv nd ! i =
      advantage_row self c v nv nd i
        (if Suc i < length c then Some (gae_advantages self c v nv nd ! Suc i) else None))"
proof -
  let ?Z = "map (map (\<lambda>_. 0::real)) c"
  have "length c \<le> length ?Z" by simp
  from gae_fold[OF this, of self c v nv nd None] obtain adv' A' where
    f: "fold (gae_step self c v nv nd) (rev [0..<length c]) (None, ?Z) = (adv', A')"
    and l: "length A' = length ?Z"
    and rec: "\<forall>i < length c. A' ! i =
       advantage_row self c v nv nd i (if Suc i < length c then Some (A' ! Suc i) else None)"
    by blast
  have "gae_advantages self c v nv nd = A'"
    using f by (simp add: gae_advantages_def Let_def)
  then show ?thesis using l rec by simp
qed

lemma advantage_row_nth:
  assumes "length (c ! i) = k" "length (v ! i) = k" "length (nv ! i) = k" "length (nd ! i) = k"
    and "case adv of None \<Rightarrow> True | Some a \<Rightarrow> length a = k" and "j < k"
  shows "advantage_row self c v nv nd i adv ! j =
           c ! i ! j - v ! i ! j
           + discount self * (nv ! i ! j
               + td_lambda self * (if nd ! i ! j then 1 else 0)
                   * (case adv of None \<Rightarrow> 0 | Some a \<Rightarrow> a ! j))"
  using assms by (cases adv) (simp_all add: advantage_row_def)

lemma advantage_row_length:
  assumes "length (c ! i) = k" "length (v ! i) = k" "length (nv ! i) = k" "length (nd ! i) = k"
    and "case adv of None \<Rightarrow> True | Some a \<Rightarrow> length a = k"
  shows "length (advantage_row self c v nv nd i adv) = k"
  using assms by (cases adv) (simp_all add: advantage_row_def)

lemma gae_advantages_shape:
  assumes c: "has_shape n k c" and v: "has_shape n k v" and nv: "has_shape n k nv"
    and nd: "has_shape n k nd"
  shows "i \<le> n \<Longrightarrow> \<forall>t. n - i \<le> t \<and> t < n \<longrightarrow> length (gae_advantages self c v nv nd ! t) = k"
proof (induction i)
  case 0
  then show ?case by simp
next
  case (Suc i)
  let ?A = "gae_advantages self c v nv nd"
  have n: "length c = n" using c by (simp add: has_shape_def)
  show ?case
  proof (intro allI impI)
    fix t assume t: "n - Suc i \<le> t \<and> t < n"
    have rows: "length (c ! t) = k" "length (v ! t) = k" "length (nv ! t) = k" "length (nd ! t) = k"
      using c v nv nd t by (simp_all add: has_shape_def list_all_length)
    have eq: "?A ! t = advantage_row self c v nv nd t (if Suc t < n then Some (?A ! Suc t) else None)"
      using gae_advantages_rows[of self c v nv nd] t n by simp
    have prev: "case (if Suc t < n then Some (?A ! Suc t) else None) of None \<Rightarrow> True
                | Some a \<Rightarrow> length a = k"
    proof (cases "Suc t < n")
      case True
      then have "n - i \<le> Suc t \<and> Suc t < n" using t by linarith
      then have "length (?A ! Suc t) = k" using Suc by simp
      then show ?thesis using True by simp
    next
      case False
      then show ?thesis by simp
    qed
    show "length (?A ! t) = k"
      unfolding eq using rows prev by (rule advantage_row_length)
  qed
qed

lemma gae_advantages_has_shape:
  assumes "has_shape n k c" "has_shape n k v" "has_shape n k nv" "has_shape n k nd"
  shows "has_shape n k (gae_advantages self c v nv nd)"
proof -
  have "length (gae_advantages self c v nv nd) = n"
    using gae_advantages_rows[of self c v nv nd] assms(1) by (simp add: has_shape_def)
  moreover have "\<forall>t < n. length (gae_advantages self c v nv nd ! t) = k"
    using gae_advantages_shape[OF assms, of n self] by simp
  ultimately show ?thesis by (simp add: has_shape_def list_all_length)
qed

lemma gae_advantages_nth:
  assumes c: "has_shape n k c" and v: "has_shape n k v" and nv: "has_shape n k nv"
    and nd: "has_shape n k nd" and i: "i < n" and j: "j < k"
  shows "gae_advantages self c v nv nd ! i ! j =
           c ! i ! j - v ! i ! j
           + discount self * (nv ! i ! j
               + td_lambda self * (if nd ! i ! j then 1 else 0)
                   * (if Suc i < n then gae_advantages self c v nv nd ! Suc i ! j else 0))"
proof -
  let ?A = "gae_advantages self c v nv nd"
  have n: "length c = n" using c by (simp add: has_shape_def)
  have rows: "length (c ! i) = k" "length (v ! i) = k" "length (nv ! i) = k" "length (nd ! i) = k"
    using c v nv nd i by (simp_all add: has_shape_def list_all_length)
  have eq: "?A ! i = advantage_row self c v nv nd i (if Suc i < n then Some (?A ! Suc i) else None)"
    using gae_advantages_rows[of self c v nv nd] i n by simp
  have sh: "has_shape n k ?A" using c v nv nd by (rule gae_advantages_has_shape)
  have prev: "case (if Suc i < n then Some (?A ! Suc i) else None) of None \<Rightarrow> True
                | Some a \<Rightarrow> length a = k"
    using sh by (simp add: has_shape_def list_all_length)
  show ?thesis
    unfolding eq [THEN arg_cong, of "\<lambda>r. r ! j"]
    using advantage_row_nth[OF rows prev j, of self] by simp
qed


text \<open>
  Claim C2, as amended. On a memory of \<open>n\<close> steps and \<open>k\<close> environments with at least two
  entries, the advantages of \<open>update_net\<close> satisfy the backward recursion
  \<open>advantage_i = combined_reward_i - value_i + discount * (next_value_i + td_lambda *
  not_terminated_i * advantage_{i+1})\<close>, with \<open>0\<close> after the last row; the returns written to
  the memory are the value preprocessor, in training mode, applied to advantages plus
  values computed before normalization; and the advantages written to the memory are
  the recursion's result minus its mean, divided by its standard deviation plus \<open>1e-8\<close>.
\<close>

theorem update_net_gae:
  assumes "has_shape n k (mem_rewards m)" "has_shape n k (mem_disc_rewards m)"
    "has_shape n k (mem_amp_states m)" "has_shape n k (mem_values m)"
    "has_shape n k (mem_next_values m)" "has_shape n k (mem_terminated m)"
    and "i < n" "j < k" "2 \<le> n * k"
    and "A = gae_advantages self (combined_rewards self m) (mem_values m) (mem_next_values m)
               (map (map Not) (mem_terminated m))"
  shows "A ! i ! j =
           combined_rewards self m ! i ! j - mem_values m ! i ! j
           + discount self * (mem_next_values m ! i ! j
               + td_lambda self * (if \<not> mem_terminated m ! i ! j then 1 else 0)
                   * (if Suc i < n then A ! Suc i ! j else 0))
     \<and> mem_returns (fst (update_net self m)) =
         fst (value_preprocessor self
                (snd (value_preprocessor self (value_scaler self) (mem_values m)))
                (map2 (map2 (+)) A (mem_values m)))
     \<and> map2 (map2 (+)) A (mem_values m) ! i ! j = A ! i ! j + mem_values m ! i ! j
     \<and> mem_advantages (fst (update_net self m)) ! i ! j =
         (A ! i ! j - tensor_mean A) / (tensor_std A + 1 / 10 ^ 8)"
proof -
  let ?c = "combined_rewards self m" and ?nd = "map (map Not) (mem_terminated m)"
  have c: "has_shape n k ?c" using assms(1,2,3) by (rule combined_rewards_shape)
  have nd: "has_shape n k ?nd" using assms(6) by (simp add: has_shape_map_map)
  have sA: "has_shape n k A"
    unfolding assms(10) using c assms(4,5) nd by (rule gae_advantages_has_shape)
  have ndij: "?nd ! i ! j = (\<not> mem_terminated m ! i ! j)"
    using assms(6,7,8) by (rule map_map_nth)
  have "A ! i ! j =
           ?c ! i ! j - mem_values m ! i ! j
           + discount self * (mem_next_values m ! i ! j
               + td_lambda self * (if ?nd ! i ! j then 1 else 0)
                   * (if Suc i < n then A ! Suc i ! j else 0))"
    unfolding assms(10) using c assms(4,5) nd assms(7,8) by (rule gae_advantages_nth)
  then have rec: "A ! i ! j =
           ?c ! i ! j - mem_values m ! i ! j
           + discount self * (mem_next_values m ! i ! j
               + td_lambda self * (if \<not> mem_terminated m ! i ! j then 1 else 0)
                   * (if Suc i < n then A ! Suc i ! j else 0))"
    by (simp only: ndij)
  have ret: "mem_returns (fst (update_net self m)) =
         fst (value_preprocessor self
                (snd (value_preprocessor self (value_scaler self) (mem_values m)))
                (map2 (map2 (+)) A (mem_values m)))"
    unfolding assms(10) by (rule update_net_returns)
  have tgt: "map2 (map2 (+)) A (mem_values m) ! i ! j = A ! i ! j + mem_values m ! i ! j"
    using sA assms(4,7,8) by (rule map2_map2_nth)
  have "mem_advantages (fst (update_net self m)) =
          map (map (\<lambda>a. (a - tensor_mean A) / (tensor_std A + 1 / 10 ^ 8))) A"
    unfolding assms(10) using update_net_advantages[of self m] by (simp add: Let_def)
  then have adv: "mem_advantages (fst (update_net self m)) ! i ! j =
         (A ! i ! j - tensor_mean A) / (tensor_std A + 1 / 10 ^ 8)"
    using sA assms(7,8) by (simp add: map_map_nth)
  show ?thesis using rec ret tgt adv by blast
qed

lemma sample_combined: "combined_rewards sample_agent sample_memory = [[5 / 2], [9 / 2]]"
  by (simp add: combined_rewards_def demo_style_rewards_def sample_agent_def sample_memory_def)

lemma sample_advantages:
  "gae_advantages sample_agent [[5 / 2], [9 / 2]] [[1], [1]] [[1], [0]] [[True], [False]]
     = [[23 / 8], [7 / 2]]"
  by (simp add: gae_advantages_def gae_step_def advantage_row_def sample_agent_def
      numeral_2_eq_2 Let_def)

text \<open>
  The theorem at the first entry of the sample memory, where the recursion gives
  \<open>5/2 - 1 + 1/2 * (1 + 1/2 * 7/2) = 23/8\<close>.
\<close>

theorem update_net_gae_witness:
  "gae_advantages sample_agent (combined_rewards sample_agent sample_memory)
     (mem_values sample_memory) (mem_next_values sample_memory)
     (map (map Not) (mem_terminated sample_memory)) = [[23 / 8], [7 / 2]] \<and>
   mem_returns (fst (update_net sample_agent sample_memory)) = [[31 / 8], [9 / 2]]"
proof -
  define A where "A = gae_advantages sample_agent (combined_rewards sample_agent sample_memory)
     (mem_values sample_memory) (mem_next_values sample_memory)
     (map (map Not) (mem_terminated sample_memory))"
  have A: "A = [[23 / 8], [7 / 2]]"
    unfolding A_def sample_combined using sample_advantages by (simp add: sample_memory_def)
  have "(2::nat) \<le> 2 * 1" by simp
  from update_net_gae [OF sample_shapes _ _ this A_def, of 0 0]
  have "mem_returns (fst (update_net sample_agent sample_memory)) =
         fst (value_preprocessor sample_agent
                (snd (value_preprocessor sample_agent (value_scaler sample_agent)
                        (mem_values sample_memory)))
                (map2 (map2 (+)) A (mem_values sample_memory)))"
    by simp
  then have "mem_returns (fst (update_net sample_agent sample_memory)) = [[31 / 8], [9 / 2]]"
    by (simp add: A sample_agent_def sample_memory_def)
  then show ?thesis using A by (simp add: A_def)
qed

text \<open>
  Claim C2 as stated fails where the value preprocessor is not the identity: with the
  preprocessor that halves its input, the returns written to the memory are
  \<open>[[31/16], [9/4]]\<close>, while advantages plus values are \<open>[[31/8], [9/2]]\<close>.
\<close>

theorem update_net_returns_counterexample:
  "mem_returns (fst (update_net halving_agent sample_memory)) = [[31 / 16], [9 / 4]] \<and>
   map2 (map2 (+))
     (gae_advantages halving_agent (combined_rewards halving_agent sample_memory)
        (mem_values sample_memory) (mem_next_values sample_memory)
        (map (map Not) (mem_terminated sample_memory)))
     (mem_values sample_memory) = [[31 / 8], [9 / 2]] \<and>
   mem_returns (fst (update_net halving_agent sample_memory)) \<noteq>
   map2 (map2 (+))
     (gae_advantages halving_agent (combined_rewards halving_agent sample_memory)
        (mem_values sample_memory) (mem_next_values sample_memory)
        (map (map Not) (mem_terminated sample_memory)))
     (mem_values sample_memory)"
proof -
  have c: "combined_rewards halving_agent sample_memory = [[5 / 2], [9 / 2]]"
    by (simp add: combined_rewards_def demo_style_rewards_def halving_agent_def
        sample_agent_def sample_memory_def)
  have A: "gae_advantages halving_agent [[5 / 2], [9 / 2]] [[1], [1]] [[1], [0]]
             [[True], [False]] = [[23 / 8], [7 / 2]]"
    by (simp add: gae_advantages_def gae_step_def advantage_row_def halving_agent_def
        sample_agent_def numeral_2_eq_2 Let_def)
  have A': "gae_advantages halving_agent (combined_rewards halving_agent sample_memory)
        (mem_values sample_memory) (mem_next_values sample_memory)
        (map (map Not) (mem_terminated sample_memory)) = [[23 / 8], [7 / 2]]"
    unfolding c using A by (simp add: sample_memory_def)
  have "mem_returns (fst (update_net halving_agent sample_memory)) = [[31 / 16], [9 / 4]]"
    unfolding update_net_returns A' by (simp add: halving_agent_def sample_agent_def sample_memory_def)
  moreover have "map2 (map2 (+)) [[23 / 8], [7 / 2]] (mem_values sample_memory) = [[31 / 8], [9 / 2]]"
    by (simp add: sample_memory_def)
  ultimately show ?thesis unfolding A' by simp
qed

section \<open>Properties of act\<close>

lemma sum_list_squares_nonneg: "0 \<le> sum_list (map (\<lambda>x. x\<^sup>2) (v :: vec))"
  by (induction v) simp_all

lemma norm2_nonneg: "0 \<le> norm2 v"
  by (simp add: norm2_def sum_list_squares_nonneg)

lemma norm2_scale:
  assumes "0 < d"
  shows "norm2 (map (\<lambda>x. x / d) v) = norm2 v / d"
proof -
  have "sum_list (map (\<lambda>x. (x / d)\<^sup>2) v) = sum_list (map (\<lambda>x. x\<^sup>2 * (1 / d\<^sup>2)) v)"
    by (simp add: power_divide)
  also have "\<dots> = sum_list (map (\<lambda>x. x\<^sup>2) v) * (1 / d\<^sup>2)"
    by (rule sum_list_mult_const)
  finally have "sum_list (map (\<lambda>x. (x / d)\<^sup>2) v) = sum_list (map (\<lambda>x. x\<^sup>2) v) / d\<^sup>2"
    by simp
  then have "norm2 (map (\<lambda>x. x / d) v) = sqrt (sum_list (map (\<lambda>x. x\<^sup>2) v) / d\<^sup>2)"
    by (simp add: norm2_def comp_def)
  also have "\<dots> = sqrt (sum_list (map (\<lambda>x. x\<^sup>2) v)) / sqrt (d\<^sup>2)"
    by (rule real_sqrt_divide)
  also have "sqrt (d\<^sup>2) = d" using assms by simp
  finally show ?thesis by (simp add: norm2_def)
qed

lemma F_normalize_unit:
  assumes "1 / 10 ^ 12 \<le> norm2 v"
  shows "norm2 (F_normalize v) = 1"
proof -
  have d: "max (norm2 v) (1 / 10 ^ 12) = norm2 v" using assms by simp
  have pos: "0 < norm2 v"
  proof -
    have "(0::real) < 1 / 10 ^ 12" by simp
    then show ?thesis using assms by linarith
  qed
  have "norm2 (F_normalize v) = norm2 (map (\<lambda>x. x / norm2 v) v)"
    by (simp only: F_normalize_def Let_def d)
  also have "\<dots> = norm2 v / norm2 v" using pos by (rule norm2_scale)
  also have "\<dots> = 1" using pos by simp
  finally show ?thesis .
qed

lemma py_slice_to_drop_last:
  assumes "0 \<le> k" "nat k \<le> length row"
  shows "py_slice_to row (int (length row) - k) = take (length row - nat k) row"
proof -
  have "\<not> int (length row) - k < 0" using assms by linarith
  moreover have "min (int (length row) - k) (int (length row)) = int (length row) - k"
    using assms by simp
  moreover have "nat (int (length row) - k) = length row - nat k"
    using assms by linarith
  ultimately show ?thesis by (simp add: py_slice_to_def Let_def)
qed

lemma act_result:
  assumes "s = (case current_states self of Some c \<Rightarrow> c | None \<Rightarrow> states)"
    and "policy self (state_preprocessor self s) deterministic = (omega, lp)"
  shows "fst (act self states deterministic) =
           (fst (llc_act (llc_agent self)
                   (map (\<lambda>row. py_slice_to row (int (length row) - task_related_state_size self)) s)
                   False (map F_normalize omega)), lp)
       \<and> current_log_prob (snd (act self states deterministic)) = Some lp"
  using assms by (simp add: act_def get_llc_action_def Let_def split_beta)

text \<open>
  Claim C1, as amended. \<open>act\<close> works on the agent's stored \<open>_current_states\<close> when they are
  set and on its input states otherwise. It draws a latent and its log-probability from
  the high-level policy applied to the preprocessed states, and returns the actions of
  the low-level controller (called with \<open>deterministic=False\<close>) on the states without
  their last \<open>task_related_state_size\<close> entries and the latent normalised along its last
  dimension, together with the policy's log-probability. A latent whose Euclidean norm
  is at least \<open>1e-12\<close> reaches the controller with unit norm. The task-related size is
  between 0 and the length of a state.
\<close>

theorem act_llc_composition:
  assumes "s = (case current_states self of Some c \<Rightarrow> c | None \<Rightarrow> states)"
    and "0 \<le> task_related_state_size self"
    and "\<forall>row \<in> set s. nat (task_related_state_size self) \<le> length row"
    and "policy self (state_preprocessor self s) deterministic = (omega, lp)"
  shows "fst (act self states deterministic) =
           (fst (llc_act (llc_agent self)
                   (map (\<lambda>row. take (length row - nat (task_related_state_size self)) row) s)
                   False (map F_normalize omega)), lp)
       \<and> current_log_prob (snd (act self states deterministic)) = Some lp
       \<and> (\<forall>row \<in> set omega. 1 / 10 ^ 12 \<le> norm2 row \<longrightarrow> norm2 (F_normalize row) = 1)"
proof -
  have eq: "map (\<lambda>row. py_slice_to row (int (length row) - task_related_state_size self)) s =
        map (\<lambda>row. take (length row - nat (task_related_state_size self)) row) s"
    by (rule map_cong [OF refl]) (use assms(2,3) in \<open>simp add: py_slice_to_drop_last\<close>)
  have r: "fst (act self states deterministic) =
           (fst (llc_act (llc_agent self)
                   (map (\<lambda>row. take (length row - nat (task_related_state_size self)) row) s)
                   False (map F_normalize omega)), lp)
       \<and> current_log_prob (snd (act self states deterministic)) = Some lp"
    using act_result [OF assms(1,4)] by (simp only: eq)
  have u: "\<forall>row \<in> set omega. 1 / 10 ^ 12 \<le> norm2 row \<longrightarrow> norm2 (F_normalize row) = 1"
    using F_normalize_unit by blast
  show ?thesis using r u by blast
qed

lemma norm2_3_4: "norm2 [3, 4] = 5"
proof -
  have "sqrt ((5::real)\<^sup>2) = 5" by simp
  moreover have "(3::real)\<^sup>2 + 4\<^sup>2 = 5\<^sup>2" by simp
  ultimately show ?thesis by (simp add: norm2_def)
qed

text \<open>
  The theorem at the sample agent and one state \<open>(1, 2, 3)\<close>: the controller receives the
  state \<open>(1, 2)\<close> and the latent \<open>(3/5, 4/5)\<close>, which it returns.
\<close>

theorem act_llc_composition_witness:
  "fst (act sample_agent [[1, 2, 3]] False) = ([[3 / 5, 4 / 5]], [0]) \<and>
   norm2 (F_normalize [3, 4]) = 1"
proof -
  have a: "[[1, 2, 3]] = (case current_states sample_agent of Some c \<Rightarrow> c | None \<Rightarrow> [[1, 2, 3]])"
    by (simp add: sample_agent_def)
  have b: "0 \<le> task_related_state_size sample_agent" by (simp add: sample_agent_def)
  have c: "\<forall>row \<in> set [[1, 2, 3 :: real]]. nat (task_related_state_size sample_agent) \<le> length row"
    by (simp add: sample_agent_def)
  have d: "policy sample_agent (state_preprocessor sample_agent [[1, 2, 3]]) False = ([[3, 4]], [0])"
    by (simp add: sample_agent_def)
  from act_llc_composition [OF a b c d]
  have r: "fst (act sample_agent [[1, 2, 3]] False) =
           (fst (llc_act (llc_agent sample_agent)
                   (map (\<lambda>row. take (length row - nat (task_related_state_size sample_agent)) row)
                      [[1, 2, 3]])
                   False (map F_normalize [[3, 4]])), [0])"
    and u: "\<forall>row \<in> set [[3, 4]]. 1 / 10 ^ 12 \<le> norm2 row \<longrightarrow> norm2 (F_normalize row) = 1"
    by simp_all
  have n: "F_normalize [3, 4] = [3 / 5, 4 / 5]"
    by (simp add: F_normalize_def norm2_3_4)
  from u have "norm2 (F_normalize [3, 4]) = 1" by (simp add: norm2_3_4)
  moreover from r have "fst (act sample_agent [[1, 2, 3]] False) = ([[3 / 5, 4 / 5]], [0])"
    by (simp add: sample_agent_def sample_llc_def n)
  ultimately show ?thesis by simp
qed

text \<open>
  Claim C1 as stated fails at the zero latent: \<open>normalize\<close> divides by \<open>1e-12\<close> there, and
  the controller (which here answers with the latent it gets) receives the zero vector,
  of norm 0.
\<close>

theorem act_zero_latent_counterexample:
  "fst (fst (act zero_agent [[1, 2, 3]] False)) = [[0, 0]] \<and> norm2 [0, 0] = 0 \<and>
   norm2 (hd (fst (fst (act zero_agent [[1, 2, 3]] False)))) \<noteq> 1"
proof -
  have z: "norm2 [0, 0] = 0" by (simp add: norm2_def)
  have "F_normalize [0, 0] = [0, 0]" by (simp add: F_normalize_def z)
  then have "fst (fst (act zero_agent [[1, 2, 3]] False)) = [[0, 0]]"
    by (simp add: act_def get_llc_action_def zero_agent_def sample_agent_def sample_llc_def
        Let_def)
  then show ?thesis using z by simp
qed

section \<open>Properties of record\<close>

lemma open_cameras_world:
  "open_cameras w cams = (r, w') \<Longrightarrow>
   existing w' = existing w \<and>
   (\<exists>sns. events w' = events w @ map Open sns)"
proof (induction w cams arbitrary: r w' rule: open_cameras.induct)
  case (1 w)
  then show ?case by (auto intro: exI[of _ "[]"])
next
  case (2 w cam cams)
  let ?w = "w\<lparr>events := events w @ [Open (serial_number cam)]\<rparr>"
  show ?case
  proof (cases "params_ok cam")
    case True
    then have "open_cameras ?w cams = (r, w')" using 2(2) by (simp add: Let_def)
    from 2(1)[OF refl True this] obtain sns where
      "existing w' = existing ?w" "events w' = events ?w @ map Open sns" by blast
    then have "existing w' = existing w"
      "events w' = events w @ map Open (serial_number cam # sns)" by simp_all
    then show ?thesis by blast
  next
    case False
    then have "w' = ?w" using 2(2) by (simp add: Let_def)
    then have "existing w' = existing w" "events w' = events w @ map Open [serial_number cam]"
      by simp_all
    then show ?thesis by blast
  qed
qed

lemma start_threads_world:
  "start_threads w cams i n = (r, w') \<Longrightarrow>
   existing w' = existing w \<and>
   (\<exists>sns. events w' = events w @ map Start sns)"
proof (induction w cams i n arbitrary: r w' rule: start_threads.induct)
  case (1 w index n)
  then show ?case by (auto intro: exI[of _ "[]"])
next
  case (2 w cam cams index n)
  let ?w = "w\<lparr>events := events w @ [Start (serial_number cam)]\<rparr>"
  consider (start) "open_ok cam" "index < n + 1" | (err) "open_ok cam" "\<not> index < n + 1"
    | (skip) "\<not> open_ok cam" by blast
  then show ?case
  proof cases
    case start
    then have "start_threads ?w cams (index + 1) (n + 1) = (r, w')" using 2(3) by simp
    from 2(1)[OF start this] obtain sns where
      "existing w' = existing ?w" "events w' = events ?w @ map Start sns" by blast
    then have "existing w' = existing w"
      "events w' = events w @ map Start (serial_number cam # sns)" by simp_all
    then show ?thesis by blast
  next
    case err
    then have "w' = w" using 2(3) by simp
    then show ?thesis by (auto intro: exI[of _ "[]"])
  next
    case skip
    then have "start_threads w cams (index + 1) n = (r, w')" using 2(3) by simp
    from 2(2)[OF skip this] show ?thesis .
  qed
qed

lemma zed_record_exists:
  "root_dir @ ''/'' @ exp_name \<in> existing w \<Longrightarrow>
   zed_record w root_dir exp_name answer cameras = (Raised Exception, w)"
  by (simp add: zed_record_def Let_def)

lemma zed_record_refused:
  "root_dir @ ''/'' @ exp_name \<notin> existing w \<Longrightarrow>
   zed_record w root_dir exp_name (Some e) cameras = (Raised e, w)"
  by (simp add: zed_record_def Let_def)

lemma zed_record_fresh:
  assumes "root_dir @ ''/'' @ exp_name \<notin> existing w"
  shows "existing (snd (zed_record w root_dir exp_name None cameras))
           = insert (root_dir @ ''/'' @ exp_name) (existing w) \<and>
         (\<exists>opened started.
            events (snd (zed_record w root_dir exp_name None cameras))
              = events w @ Mkdir (root_dir @ ''/'' @ exp_name) # map Open opened @ map Start started)"
proof -
  let ?p = "root_dir @ ''/'' @ exp_name"
  let ?w1 = "w\<lparr>existing := insert ?p (existing w), events := events w @ [Mkdir ?p]\<rparr>"
  obtain r2 w2 where o: "open_cameras ?w1 cameras = (r2, w2)" by fastforce
  from open_cameras_world[OF o] obtain opened where
    w2: "existing w2 = existing ?w1" "events w2 = events ?w1 @ map Open opened" by blast
  obtain r3 w3 where s: "start_threads w2 cameras 0 0 = (r3, w3)" by fastforce
  from start_threads_world[OF s] obtain started where
    w3: "existing w3 = existing w2" "events w3 = events w2 @ map Start started" by blast
  have "snd (zed_record w root_dir exp_name None cameras) = w2 \<or>
        snd (zed_record w root_dir exp_name None cameras) = w3"
    using assms o s by (auto simp: zed_record_def Let_def split: option.splits)
  then show ?thesis
  proof
    assume e: "snd (zed_record w root_dir exp_name None cameras) = w2"
    have "events w2 = events w @ Mkdir ?p # map Open opened @ map Start []"
      using w2 by simp
    then have "\<exists>opened started. events w2 =
        events w @ Mkdir ?p # map Open opened @ map Start started" by blast
    then show ?thesis unfolding e using w2(1) by simp
  next
    assume e: "snd (zed_record w root_dir exp_name None cameras) = w3"
    have "events w3 = events w @ Mkdir ?p # map Open opened @ map Start started"
      using w2 w3 by simp
    then have "\<exists>opened started. events w3 =
        events w @ Mkdir ?p # map Open opened @ map Start started" by blast
    then show ?thesis unfolding e using w2(1) w3(1) by simp
  qed
qed

lemma zed_record_returned_exists:
  assumes "fst (zed_record w root_dir exp_name answer cameras) = Returned"
  shows "root_dir @ ''/'' @ exp_name \<in> existing (snd (zed_record w root_dir exp_name answer cameras))"
proof (cases "root_dir @ ''/'' @ exp_name \<in> existing w")
  case True
  then show ?thesis using assms by (simp add: zed_record_exists)
next
  case False
  show ?thesis
  proof (cases answer)
    case None
    then show ?thesis using zed_record_fresh[OF False, of cameras] by simp
  next
    case (Some e)
    then show ?thesis using assms False by (simp add: zed_record_refused)
  qed
qed

text \<open>
  Claim C8, as amended. When \<open>root_dir/exp_name\<close> exists, \<open>record\<close> raises and changes
  nothing: no directory is created and no camera is opened. Otherwise it calls
  \<open>os.mkdir\<close> for that path before any camera is opened: if \<open>os.mkdir\<close> raises, so does
  \<open>record\<close>, and nothing has changed; if it creates the directory, the events of the
  call are the \<open>mkdir\<close> followed by camera events only. Hence after a call that returns
  the directory exists, and a second call with the same \<open>root_dir\<close> and \<open>exp_name\<close> raises,
  whatever the cameras and the file system answer.
\<close>

theorem zed_record_directory:
  "(root_dir @ ''/'' @ exp_name \<in> existing w \<longrightarrow>
      zed_record w root_dir exp_name answer cameras = (Raised Exception, w)) \<and>
   (root_dir @ ''/'' @ exp_name \<notin> existing w \<longrightarrow>
      zed_record w root_dir exp_name (Some e) cameras = (Raised e, w) \<and>
      existing (snd (zed_record w root_dir exp_name None cameras))
        = insert (root_dir @ ''/'' @ exp_name) (existing w) \<and>
      (\<exists>opened started.
         events (snd (zed_record w root_dir exp_name None cameras))
           = events w @ Mkdir (root_dir @ ''/'' @ exp_name) # map Open opened @ map Start started)) \<and>
   (fst (zed_record w root_dir exp_name answer cameras) = Returned \<longrightarrow>
      root_dir @ ''/'' @ exp_name \<in> existing (snd (zed_record w root_dir exp_name answer cameras)) \<and>
      fst (zed_record (snd (zed_record w root_dir exp_name answer cameras)) root_dir exp_name
             answer' cameras')
        = Raised Exception)"
proof (intro conjI impI)
  assume "root_dir @ ''/'' @ exp_name \<in> existing w"
  then show "zed_record w root_dir exp_name answer cameras = (Raised Exception, w)"
    by (rule zed_record_exists)
next
  assume f: "root_dir @ ''/'' @ exp_name \<notin> existing w"
  show "zed_record w root_dir exp_name (Some e) cameras = (Raised e, w)"
    using f by (rule zed_record_refused)
  show "existing (snd (zed_record w root_dir exp_name None cameras))
        = insert (root_dir @ ''/'' @ exp_name) (existing w)"
    using zed_record_fresh[OF f] by blast
  show "\<exists>opened started.
         events (snd (zed_record w root_dir exp_name None cameras))
           = events w @ Mkdir (root_dir @ ''/'' @ exp_name) # map Open opened @ map Start started"
    using zed_record_fresh[OF f] by blast
next
  assume r: "fst (zed_record w root_dir exp_name answer cameras) = Returned"
  then show x: "root_dir @ ''/'' @ exp_name
      \<in> existing (snd (zed_record w root_dir exp_name answer cameras))"
    by (rule zed_record_returned_exists)
  show "fst (zed_record (snd (zed_record w root_dir exp_name answer cameras)) root_dir exp_name
             answer' cameras') = Raised Exception"
    using zed_record_exists[OF x] by simp
qed

lemma first_call:
  "zed_record empty_world ''data'' ''e1'' None [idle_camera] =
     (Returned, \<lparr>existing = {''data/e1''}, events = [Mkdir ''data/e1'', Open 7, Start 7]\<rparr>)"
  by (simp add: zed_record_def empty_world_def idle_camera_def Let_def)

text \<open>
  The theorem at an empty world and one camera that opens but cannot record: the first
  call creates \<open>data/e1\<close> and returns, the second raises.
\<close>

theorem zed_record_directory_witness:
  "zed_record empty_world ''data'' ''e1'' None [idle_camera] =
     (Returned, \<lparr>existing = {''data/e1''}, events = [Mkdir ''data/e1'', Open 7, Start 7]\<rparr>) \<and>
   ''data/e1'' \<in> existing (snd (zed_record empty_world ''data'' ''e1'' None [idle_camera])) \<and>
   fst (zed_record (snd (zed_record empty_world ''data'' ''e1'' None [idle_camera]))
          ''data'' ''e1'' None [idle_camera]) = Raised Exception"
proof -
  have r: "fst (zed_record empty_world ''data'' ''e1'' None [idle_camera]) = Returned"
    by (simp add: first_call)
  from zed_record_directory [of "''data''" "''e1''" empty_world None "[idle_camera]" _ None
      "[idle_camera]"] r
  have "''data'' @ ''/'' @ ''e1'' \<in> existing (snd (zed_record empty_world ''data'' ''e1'' None [idle_camera]))"
    and "fst (zed_record (snd (zed_record empty_world ''data'' ''e1'' None [idle_camera]))
          ''data'' ''e1'' None [idle_camera]) = Raised Exception"
    by blast+
  then show ?thesis using first_call by simp
qed

text \<open>
  Claim C8 as stated fails where \<open>os.mkdir\<close> raises: with no \<open>data\<close> directory, the
  path \<open>data/e1\<close> does not exist, \<open>record\<close> raises the \<open>FileNotFoundError\<close> and the
  directory is not created.
\<close>

theorem zed_record_mkdir_counterexample:
  "''data/e1'' \<notin> existing empty_world \<and>
   zed_record empty_world ''data'' ''e1'' (Some FileNotFoundError) [idle_camera]
     = (Raised FileNotFoundError, empty_world) \<and>
   ''data/e1'' \<notin> existing (snd (zed_record empty_world ''data'' ''e1''
                                   (Some FileNotFoundError) [idle_camera]))"
  by (simp add: zed_record_def empty_world_def)

section \<open>Properties of get_tpose\<close>

text \<open>
  Claim C7. \<open>get_tpose\<close> takes the zero pose of the skeleton tree parsed from the MJCF
  file, replaces the local rotations of the joints \<open>left_limb_l2\<close> and \<open>right_limb_l2\<close> by
  the product of the rotation by -90 degrees about \<open>(0, 1, 0)\<close> with their zero-pose
  rotation, leaves every other local rotation, the root translation and the tree as
  they are, and saves the result at \<open>save_path\<close>. The two names are joints of the tree,
  with different indices, as in every tree built from distinct joint names.
\<close>

theorem get_tpose_rotations:
  assumes "from_mjcf lib xml_path = Inr skeleton"
    and "node_indices skeleton ''left_limb_l2'' = Some l"
    and "node_indices skeleton ''right_limb_l2'' = Some r"
    and "l \<noteq> r"
    and "zero_pose = zero_pose_wo_qbhand lib skeleton"
    and "l < length (sk_local_rotation zero_pose)" "r < length (sk_local_rotation zero_pose)"
    and "q = quat_from_angle_axis lib (- 90) (0, 1, 0) True"
  shows "\<exists>saved. get_tpose lib files xml_path save_path verbose = Inr (files(save_path \<mapsto> saved))
           \<and> sk_local_rotation saved ! l = quat_mul lib q (sk_local_rotation zero_pose ! l)
           \<and> sk_local_rotation saved ! r = quat_mul lib q (sk_local_rotation zero_pose ! r)
           \<and> (\<forall>j. j \<noteq> l \<and> j \<noteq> r \<longrightarrow> sk_local_rotation saved ! j = sk_local_rotation zero_pose ! j)
           \<and> length (sk_local_rotation saved) = length (sk_local_rotation zero_pose)
           \<and> sk_root_translation saved = sk_root_translation zero_pose
           \<and> sk_tree saved = sk_tree zero_pose"
proof -
  let ?R = "sk_local_rotation zero_pose"
  define saved where "saved = zero_pose\<lparr>sk_local_rotation :=
     ?R[l := quat_mul lib q (?R ! l), r := quat_mul lib q (?R ! r)]\<rparr>"
  have "get_tpose lib files xml_path save_path verbose = Inr (files(save_path \<mapsto> saved))"
    using assms by (simp add: get_tpose_def index_def Let_def saved_def)
  moreover have "sk_local_rotation saved ! l = quat_mul lib q (?R ! l)"
    using assms(4,6) by (simp add: saved_def)
  moreover have "sk_local_rotation saved ! r = quat_mul lib q (?R ! r)"
    using assms(7) by (simp add: saved_def)
  moreover have "\<forall>j. j \<noteq> l \<and> j \<noteq> r \<longrightarrow> sk_local_rotation saved ! j = ?R ! j"
    by (simp add: saved_def)
  moreover have "length (sk_local_rotation saved) = length ?R"
    "sk_root_translation saved = sk_root_translation zero_pose"
    "sk_tree saved = sk_tree zero_pose"
    by (simp_all add: saved_def)
  ultimately show ?thesis by blast
qed

lemma quarter_turn: "angle_axis (- 90) (0, 1, 0) True = (0, - (sqrt 2 / 2), 0, sqrt 2 / 2)"
proof -
  have "(- 90 :: real) / 180 * pi / 2 = - (pi / 4)" by simp
  then show ?thesis
    by (simp add: angle_axis_def Let_def sin_45 cos_45)
qed

text \<open>
  The theorem at the walker of three joints: the pose saved at \<open>out\<close> has the quarter
  turn at joints 1 and 2 and the identity at the base.
\<close>

theorem get_tpose_rotations_witness:
  "map_sum id (\<lambda>fs. map_option sk_local_rotation (fs ''out''))
     (get_tpose sample_lib Map.empty ''walker.xml'' ''out'' False)
   = Inr (Some [(0, 0, 0, 1), (0, - (sqrt 2 / 2), 0, sqrt 2 / 2),
                (0, - (sqrt 2 / 2), 0, sqrt 2 / 2)])"
proof -
  define zero where "zero = zero_pose_wo_qbhand sample_lib walker_tree"
  have z: "sk_local_rotation zero = [(0, 0, 0, 1), (0, 0, 0, 1), (0, 0, 0, 1)]"
    by (simp add: zero_def sample_lib_def walker_tree_def)
  have q: "quat_from_angle_axis sample_lib (- 90) (0, 1, 0) True
             = (0, - (sqrt 2 / 2), 0, sqrt 2 / 2)"
    using quarter_turn by (simp add: sample_lib_def)
  have m: "quat_mul sample_lib (0, - (sqrt 2 / 2), 0, sqrt 2 / 2) (0, 0, 0, 1)
             = (0, - (sqrt 2 / 2), 0, sqrt 2 / 2)"
    by (simp add: sample_lib_def hamilton_def)
  from get_tpose_rotations [of sample_lib "''walker.xml''" walker_tree 1 2 zero _ Map.empty
      "''out''" False, OF _ _ _ _ zero_def _ _ refl]
  obtain saved where s:
    "get_tpose sample_lib Map.empty ''walker.xml'' ''out'' False = Inr [''out'' \<mapsto> saved]"
    "sk_local_rotation saved ! 1 =
       quat_mul sample_lib (quat_from_angle_axis sample_lib (- 90) (0, 1, 0) True)
         (sk_local_rotation zero ! 1)"
    "sk_local_rotation saved ! 2 =
       quat_mul sample_lib (quat_from_angle_axis sample_lib (- 90) (0, 1, 0) True)
         (sk_local_rotation zero ! 2)"
    "\<forall>j. j \<noteq> 1 \<and> j \<noteq> 2 \<longrightarrow> sk_local_rotation saved ! j = sk_local_rotation zero ! j"
    "length (sk_local_rotation saved) = length (sk_local_rotation zero)"
    by (auto simp: sample_lib_def walker_tree_def z)
  have l: "length (sk_local_rotation saved) = 3" using s(5) z by simp
  have "sk_local_rotation saved ! 0 = (0, 0, 0, 1)" using s(4) z by simp
  moreover have "sk_local_rotation saved ! 1 = (0, - (sqrt 2 / 2), 0, sqrt 2 / 2)"
    using s(2) q m z by simp
  moreover have "sk_local_rotation saved ! 2 = (0, - (sqrt 2 / 2), 0, sqrt 2 / 2)"
    using s(3) q m z by simp
  ultimately have "sk_local_rotation saved = [(0, 0, 0, 1), (0, - (sqrt 2 / 2), 0, sqrt 2 / 2),
                (0, - (sqrt 2 / 2), 0, sqrt 2 / 2)]"
    using l by (auto simp: list_eq_iff_nth_eq less_Suc_eq numeral_3_eq_3 numeral_2_eq_2)
  then show ?thesis using s(1) by simp
qed

section \<open>Properties of motion_retargeting\<close>

lemma py_slice_range:
  assumes "0 \<le> b" "0 \<le> e"
  shows "py_slice xs b e = drop (nat b) (take (nat e) xs)"
proof -
  have "drop (nat (min b (int (length xs)))) (take (nat (min e (int (length xs)))) xs)
        = drop (nat b) (take (nat e) xs)"
  proof (cases "e \<le> int (length xs)")
    case True
    then have e: "min e (int (length xs)) = e" by simp
    show ?thesis
    proof (cases "b \<le> int (length xs)")
      case True
      then show ?thesis using e by simp
    next
      case False
      then have "length (take (nat e) xs) \<le> nat b" "length (take (nat e) xs) \<le> length xs"
        using assms by simp_all
      then show ?thesis using e False by simp
    qed
  next
    case False
    then have e: "take (nat (min e (int (length xs)))) xs = xs" "take (nat e) xs = xs"
      by simp_all
    show ?thesis
    proof (cases "b \<le> int (length xs)")
      case True
      then show ?thesis using e by simp
    next
      case False
      then show ?thesis using e by simp
    qed
  qed
  then show ?thesis using assms by (simp add: py_slice_def Let_def)
qed

lemma min_list_shift:
  "hs \<noteq> [] \<Longrightarrow> min_list (map (\<lambda>z. z + d) hs) = min_list hs + (d :: real)"
proof (induction hs rule: list_nonempty_induct)
  case (single x)
  then show ?case by simp
next
  case (cons x xs)
  then show ?case by (cases xs) (simp_all add: min_add_distrib_left)
qed


lemma map2_shift:
  assumes "\<And>r t. f r (g t) = h (f r t)"
  shows "map2 f R (map g T) = map h (map2 f R T)"
  by (induction R T rule: list_induct2') (simp_all add: assms)

lemma heights_shift:
  assumes eq: "\<forall>rots x y z h. global_translation lib (skeleton_tree motion) rots (x, y, z + h)
                 = map (\<lambda>(px, py, pz). (px, py, pz + h))
                     (global_translation lib (skeleton_tree motion) rots (x, y, z))"
  shows "heights lib (motion\<lparr>root_translation :=
            map (\<lambda>(x, y, z). (x, y, z + d)) (root_translation motion)\<rparr>)
         = map (\<lambda>z. z + d) (heights lib motion)"
proof -
  let ?f = "\<lambda>rots root. map (\<lambda>p. snd (snd p))
                     (global_translation lib (skeleton_tree motion) rots root)"
  have one: "?f rots ((\<lambda>(x, y, z). (x, y, z + d)) root) = map (\<lambda>z. z + d) (?f rots root)"
    for rots root
  proof -
    obtain x y z where r: "root = (x, y, z)" by (cases root) auto
    have "global_translation lib (skeleton_tree motion) rots (x, y, z + d)
            = map (\<lambda>(px, py, pz). (px, py, pz + d))
                (global_translation lib (skeleton_tree motion) rots (x, y, z))"
      using eq by blast
    then show ?thesis by (simp add: r comp_def split_beta)
  qed
  have "map2 ?f (local_rotation motion) (map (\<lambda>(x, y, z). (x, y, z + d)) (root_translation motion))
        = map (map (\<lambda>z. z + d)) (map2 ?f (local_rotation motion) (root_translation motion))"
    by (rule map2_shift) (rule one)
  then show ?thesis by (simp add: heights_def map_concat)
qed

text \<open>
  What the function does on the bounds that its caller \<open>amp_npy_from_fbx\<close> passes and
  its comment describes. With trim bounds that are \<open>-1\<close> or not negative (\<open>-1\<close> read as 0
  for the begin and as the frame count for the end) and at least one frame between
  them, \<open>motion_retargeting\<close> keeps exactly the frames of the retargeted motion with
  indices from \<open>trim_frame_beg\<close> to \<open>trim_frame_end - 1\<close>, adds to the height of every
  frame's root translation the value \<open>root_height_offset\<close> minus the least global joint
  height over the kept frames, and saves a motion with the kept local rotations, the
  same skeleton tree and the same fps. Where the global joint positions of the skeleton
  move up and down with the root translation, the least global joint height of the
  saved motion is \<open>root_height_offset\<close>.
\<close>

lemma motion_retargeting_trim_height:
  assumes "tposes (cfg_source_tpose cfg) = Some source_tpose"
    and "tposes (cfg_target_tpose cfg) = Some target_tpose"
    and "tm = retarget_to_by_tpose lib source_motion (cfg_joint_mapping cfg) source_tpose
                target_tpose (cfg_rotation cfg) (cfg_scale cfg)"
    and "length (root_translation tm) = length (local_rotation tm)"
    and "b = (if cfg_trim_frame_beg cfg = - 1 then 0 else cfg_trim_frame_beg cfg)"
    and "e = (if cfg_trim_frame_end cfg = - 1 then int (length (local_rotation tm))
              else cfg_trim_frame_end cfg)"
    and "0 \<le> b" "b < e" "b < int (length (local_rotation tm))"
    and "\<forall>rots root. global_translation lib (skeleton_tree tm) rots root \<noteq> []"
    and "\<forall>rots x y z h. global_translation lib (skeleton_tree tm) rots (x, y, z + h)
                 = map (\<lambda>(px, py, pz). (px, py, pz + h))
                     (global_translation lib (skeleton_tree tm) rots (x, y, z))"
    and "kept = tm\<lparr>local_rotation := drop (nat b) (take (nat e) (local_rotation tm)),
                    root_translation := drop (nat b) (take (nat e) (root_translation tm))\<rparr>"
  shows "\<exists>out. motion_retargeting lib tposes saved cfg source_motion visualize
                 = Inr (saved(cfg_target_motion_path cfg \<mapsto> out))
           \<and> local_rotation out = drop (nat b) (take (nat e) (local_rotation tm))
           \<and> length (local_rotation out) = min (nat e) (length (local_rotation tm)) - nat b
           \<and> (\<forall>i < length (local_rotation out).
                 local_rotation out ! i = local_rotation tm ! (nat b + i))
           \<and> skeleton_tree out = skeleton_tree tm
           \<and> fps out = fps tm
           \<and> root_translation out =
               map (\<lambda>(x, y, z). (x, y, z + (cfg_root_height_offset cfg - min_list (heights lib kept))))
                 (root_translation kept)
           \<and> min_list (heights lib out) = cfg_root_height_offset cfg"
proof -
  let ?R = "local_rotation tm" and ?T = "root_translation tm"
  let ?off = "cfg_root_height_offset cfg"
  have e0: "0 \<le> e" using assms(7,8) by linarith
  have sl: "py_slice ?R b e = drop (nat b) (take (nat e) ?R)"
    "py_slice ?T b e = drop (nat b) (take (nat e) ?T)"
    using assms(7) e0 by (simp_all add: py_slice_range)
  have nb: "nat b < length ?R" "nat b < nat e" using assms(7,8,9) by linarith+
  have nm: "nat b < min (length ?R) (nat e)" using nb by (simp only: min_less_iff_conj)
  have nm': "\<not> min (length ?R) (nat e) \<le> nat b" using nm by linarith
  have ne_rot: "local_rotation kept \<noteq> []" using nm' by (simp add: assms(12))
  have ne_tr: "root_translation kept \<noteq> []" using nm' assms(4) by (simp add: assms(12))
  have tree: "skeleton_tree kept = skeleton_tree tm" by (simp add: assms(12))
  have hne: "heights lib kept \<noteq> []"
  proof -
    obtain r rs where r: "local_rotation kept = r # rs" using ne_rot by (cases "local_rotation kept") auto
    obtain t ts where t: "root_translation kept = t # ts" using ne_tr by (cases "root_translation kept") auto
    have "global_translation lib (skeleton_tree tm) r t \<noteq> []" using assms(10) by blast
    then show ?thesis by (simp add: heights_def r t tree)
  qed
  define d where "d = - min_list (heights lib kept) + ?off"
  define out where "out = kept\<lparr>root_translation :=
      map (\<lambda>(x, y, z). (x, y, z + d)) (root_translation kept)\<rparr>"
  have two: "map (\<lambda>(x, y, z). (x, y, z + ?off))
               (map (\<lambda>(x, y, z). (x, y, z + - min_list (heights lib kept))) (root_translation kept))
             = map (\<lambda>(x, y, z). (x, y, z + d)) (root_translation kept)"
    by (simp add: d_def split_beta)
  have run: "motion_retargeting lib tposes saved cfg source_motion visualize
                 = Inr (saved(cfg_target_motion_path cfg \<mapsto> out))"
    unfolding motion_retargeting_def assms(1,2) option.case Let_def
      assms(3)[symmetric] assms(5)[symmetric] assms(6)[symmetric] sl
      assms(12)[symmetric] two
    using hne by (simp add: out_def)
  have eqv: "\<forall>rots x y z h. global_translation lib (skeleton_tree kept) rots (x, y, z + h)
                 = map (\<lambda>(px, py, pz). (px, py, pz + h))
                     (global_translation lib (skeleton_tree kept) rots (x, y, z))"
    using assms(11) tree by simp
  have "heights lib out = map (\<lambda>z. z + d) (heights lib kept)"
    unfolding out_def using eqv by (rule heights_shift)
  then have "min_list (heights lib out) = min_list (heights lib kept) + d"
    using hne by (simp add: min_list_shift)
  then have mh: "min_list (heights lib out) = ?off" by (simp add: d_def)
  have lr: "local_rotation out = drop (nat b) (take (nat e) ?R)"
    by (simp add: out_def assms(12))
  have len: "length (local_rotation out) = min (nat e) (length ?R) - nat b"
    by (simp add: lr min.commute)
  have nth: "\<forall>i < length (local_rotation out). local_rotation out ! i = ?R ! (nat b + i)"
  proof (intro allI impI)
    fix i assume "i < length (local_rotation out)"
    then have i: "nat b + i < nat e" "nat b + i < length ?R" using len by linarith+
    have "length (take (nat e) ?R) = min (length ?R) (nat e)" by simp
    then have "nat b \<le> length (take (nat e) ?R)" using nm by linarith
    then have "drop (nat b) (take (nat e) ?R) ! i = take (nat e) ?R ! (nat b + i)"
      by simp
    also have "\<dots> = ?R ! (nat b + i)" using i(1) by (rule nth_take)
    finally show "local_rotation out ! i = ?R ! (nat b + i)" by (simp only: lr)
  qed
  have rt: "root_translation out =
               map (\<lambda>(x, y, z). (x, y, z + (?off - min_list (heights lib kept))))
                 (root_translation kept)"
    by (simp add: out_def d_def)
  have "skeleton_tree out = skeleton_tree tm" "fps out = fps tm"
    by (simp_all add: out_def assms(12))
  then show ?thesis using run lr len nth rt mh by blast
qed


lemma rotate_identity: "rotate_vec (0, 0, 0, 1) v = v"
  by (cases v) (simp add: rotate_vec_def hamilton_def)

lemma walker_kinematics:
  "forward_kinematics walker_tree rots p
     = [p, vadd p (rotate_vec (rots ! 0) (0, 1, - 1)), vadd p (rotate_vec (rots ! 0) (0, - 1, - 1))]"
  by (simp add: forward_kinematics_def fk_step_def walker_tree_def upt_rec [of 0]
      upt_rec [of 1] upt_rec [of 2] Let_def)

lemma sample_global_translation:
  "global_translation sample_lib walker_tree ((0, 0, 0, 1) # rots) p
     = [p, vadd p (0, 1, - 1), vadd p (0, - 1, - 1)]"
  by (simp add: sample_lib_def walker_kinematics rotate_identity)

lemma sample_retarget:
  "retarget_to_by_tpose sample_lib motion mapping source target rotation scale = motion"
  by (simp add: sample_lib_def)

lemma sample_equivariant:
  "global_translation sample_lib walker_tree rots (x, y, z + h)
     = map (\<lambda>(px, py, pz). (px, py, pz + h)) (global_translation sample_lib walker_tree rots (x, y, z))"
  by (simp add: sample_lib_def walker_kinematics vadd_def split_beta)

lemma walker_heights: "heights sample_lib walker_motion = [2, 1, 1, 3, 2, 2, 4, 3, 3]"
  by (simp add: heights_def walker_motion_def sample_global_translation vadd_def)

text \<open>
  The walker motion with the configuration of \<open>amp_npy_from_fbx\<close>: all three frames are
  kept, the least joint height is 1, and the roots move down by \<open>1/2\<close>.
\<close>

lemma motion_retargeting_trim_height_example:
  "map_sum id (\<lambda>fs. map_option root_translation (fs ''walk_amp.npy''))
     (motion_retargeting sample_lib walker_tposes Map.empty walker_cfg walker_motion False)
   = Inr (Some [(0, 0, 3 / 2), (1, 0, 5 / 2), (2, 0, 7 / 2)])"
proof -
  define tm where "tm = retarget_to_by_tpose sample_lib walker_motion (cfg_joint_mapping walker_cfg)
     (zero_pose_wo_qbhand sample_lib walker_tree) (zero_pose_wo_qbhand sample_lib walker_tree)
     (cfg_rotation walker_cfg) (cfg_scale walker_cfg)"
  have tm: "tm = walker_motion" by (simp add: tm_def sample_retarget)
  define kept where "kept = tm\<lparr>local_rotation := drop (nat 0) (take (nat 3) (local_rotation tm)),
                    root_translation := drop (nat 0) (take (nat 3) (root_translation tm))\<rparr>"
  have kept: "kept = walker_motion" by (simp add: kept_def tm walker_motion_def)
  have a1: "walker_tposes (cfg_source_tpose walker_cfg)
              = Some (zero_pose_wo_qbhand sample_lib walker_tree)"
    and a2: "walker_tposes (cfg_target_tpose walker_cfg)
              = Some (zero_pose_wo_qbhand sample_lib walker_tree)"
    by (simp_all add: walker_tposes_def walker_cfg_def)
  have a4: "length (root_translation tm) = length (local_rotation tm)"
    by (simp add: tm walker_motion_def)
  have a5: "(0::int) = (if cfg_trim_frame_beg walker_cfg = - 1 then 0
                        else cfg_trim_frame_beg walker_cfg)"
    and a6: "(3::int) = (if cfg_trim_frame_end walker_cfg = - 1 then int (length (local_rotation tm))
              else cfg_trim_frame_end walker_cfg)"
    by (simp_all add: walker_cfg_def tm walker_motion_def)
  have a9: "(0::int) < int (length (local_rotation tm))" by (simp add: tm walker_motion_def)
  have a10: "\<forall>rots root. global_translation sample_lib (skeleton_tree tm) rots root \<noteq> []"
    by (simp add: sample_lib_def tm walker_motion_def walker_kinematics)
  have a11: "\<forall>rots x y z h. global_translation sample_lib (skeleton_tree tm) rots (x, y, z + h)
                 = map (\<lambda>(px, py, pz). (px, py, pz + h))
                     (global_translation sample_lib (skeleton_tree tm) rots (x, y, z))"
    using sample_equivariant by (simp add: tm walker_motion_def)
  from motion_retargeting_trim_height [OF a1 a2 tm_def a4 a5 a6 _ _ a9 a10 a11 kept_def,
      of Map.empty False]
  obtain out where o:
    "motion_retargeting sample_lib walker_tposes Map.empty walker_cfg walker_motion False
       = Inr [cfg_target_motion_path walker_cfg \<mapsto> out]"
    "root_translation out =
       map (\<lambda>(x, y, z). (x, y, z + (cfg_root_height_offset walker_cfg - min_list (heights sample_lib kept))))
         (root_translation kept)"
    by auto
  have "root_translation out = [(0, 0, 3 / 2), (1, 0, 5 / 2), (2, 0, 7 / 2)]"
    unfolding o(2) kept walker_heights by (simp add: walker_cfg_def walker_motion_def)
  then show ?thesis using o(1) by (simp add: walker_cfg_def)
qed


section \<open>Properties of _project_joints\<close>

lemma hamilton_identity: "hamilton (0, 0, 0, 1) q = q"
  by (cases q) (simp add: hamilton_def)

lemma rest_rotations:
  "local_rotation humanoid_motion ! 0
     = [(0, 0, 0, 1), (0, 0, 0, 1), (0, 0, 0, 1), (0, 0, 0, 1), (0, 0, 0, 1), (0, 0, 0, 1),
        (0, 0, 0, 1), (0, 0, 0, 1), (0, 0, 0, 1), (0, 0, 0, 1), (0, 0, 0, 1), (0, 0, 0, 1),
        (0, 0, 0, 1), (0, 0, 1, 0)]"
  by (simp add: humanoid_motion_def numeral_eq_Suc)

lemma humanoid_ids:
  "limb_ids humanoid_tree = Some (1, 2, 3, 4, 5, 6, 7, 8, 9, 10, 11, 12)"
  by (simp add: limb_ids_def humanoid_tree_def)

lemma humanoid_kinematics:
  "forward_kinematics humanoid_tree
     [(0, 0, 0, 1), (0, 0, 0, 1), (0, 0, 0, 1), (0, 0, 0, 1), (0, 0, 0, 1), (0, 0, 0, 1),
        (0, 0, 0, 1), (0, 0, 0, 1), (0, 0, 0, 1), (0, 0, 0, 1), (0, 0, 0, 1), (0, 0, 0, 1),
        (0, 0, 0, 1), (0, 0, 1, 0)] (0, 0, 3)
   = [(0, 0, 3), (0, - 1, 5), (0, - 2, 5), (0, - 3, 5), (0, 1, 5), (0, 2, 5), (0, 3, 5),
      (0, - 1, 3), (0, - 1, 2), (0, - 1, 1), (0, 1, 3), (0, 1, 2), (0, 1, 1), (0, 0, 6)]"
  by (simp add: forward_kinematics_def fk_step_def humanoid_tree_def upt_conv_Cons
      Let_def hamilton_identity rotate_identity vadd_def)


lemma vnorm_vsub_commute: "vnorm (vsub a b) = vnorm (vsub b a)"
  by (cases a, cases b) (simp add: vnorm_def vsub_def power2_commute)

lemma vneg_vdiv_vsub: "vneg (vdiv (vsub a b) c) = vdiv (vsub b a) c"
  by (cases a, cases b) (simp add: vneg_def vdiv_def vsub_def minus_divide_left)

lemma joint_theta_segment_angle: "joint_theta u m e = segment_angle u m e"
  by (simp add: joint_theta_def segment_angle_def Let_def vneg_vdiv_vsub
      vnorm_vsub_commute [of u m])

lemma project_limb_projected:
  assumes "new ! m = snd (project_limb lib tree arm u m e pos rot)"
    and "new ! u = fst (project_limb lib tree arm u m e pos rot)"
  shows "projected_limb lib tree arm u m e pos rot new"
proof -
  have s: "(if arm then - \<bar>x\<bar> else \<bar>x\<bar>) = (if arm then - 1 else 1) * \<bar>x\<bar>" for x :: real
    by simp
  show ?thesis
    unfolding projected_limb_def Let_def assms
    by (simp add: project_limb_def Let_def joint_theta_segment_angle s)
qed

lemma project_frame_nth:
  assumes "distinct [a1, a2, a3, a4, a5, a6, a7, a8, a10, a11]"
    and "\<forall>i \<in> set [a1, a2, a3, a4, a5, a6, a7, a8, a10, a11]. i < length rot"
    and "new = project_frame lib tree (a1, a2, a3, a4, a5, a6, a7, a8, a9, a10, a11, a12) pos rot"
  shows "new ! a1 = fst (project_limb lib tree True a1 a2 a3 pos rot)"
    and "new ! a2 = snd (project_limb lib tree True a1 a2 a3 pos rot)"
    and "new ! a4 = fst (project_limb lib tree True a4 a5 a6 pos rot)"
    and "new ! a5 = snd (project_limb lib tree True a4 a5 a6 pos rot)"
    and "new ! a7 = fst (project_limb lib tree False a7 a8 a9 pos rot)"
    and "new ! a8 = snd (project_limb lib tree False a7 a8 a9 pos rot)"
    and "new ! a10 = fst (project_limb lib tree False a10 a11 a12 pos rot)"
    and "new ! a11 = snd (project_limb lib tree False a10 a11 a12 pos rot)"
    and "new ! a6 = quat_identity lib"
    and "new ! a3 = quat_identity lib"
    and "length new = length rot"
    and "\<forall>j. j \<notin> set [a1, a2, a3, a4, a5, a6, a7, a8, a10, a11] \<longrightarrow> new ! j = rot ! j"
  using assms(1,2) unfolding assms(3) project_frame_def
  by (auto simp: nth_list_update split_beta Let_def)


lemma project_joints_frame:
  assumes "limb_ids (skeleton_tree motion) = Some (rua, rla, rh, lua, lla, lh, rt, rs, rf, lt, ls, lf)"
    and "\<forall>i \<in> set [rua, rla, rh, lua, lla, lh, rt, rs, rf, lt, ls, lf].
           i < length (local_translation (skeleton_tree motion))"
    and "length (root_translation motion) = length (local_rotation motion)"
    and "f < length (local_rotation motion)"
  shows "\<exists>out. project_joints lib motion = Inr out
           \<and> skeleton_tree out = skeleton_tree motion
           \<and> root_translation out = root_translation motion
           \<and> fps out = fps motion
           \<and> length (local_rotation out) = length (local_rotation motion)
           \<and> local_rotation out ! f =
               project_frame lib (skeleton_tree motion)
                 (rua, rla, rh, lua, lla, lh, rt, rs, rf, lt, ls, lf)
                 (global_translation lib (skeleton_tree motion) (local_rotation motion ! f)
                    (root_translation motion ! f))
                 (local_rotation motion ! f)"
proof -
  let ?ids = "(rua, rla, rh, lua, lla, lh, rt, rs, rf, lt, ls, lf)"
  let ?G = "map2 (global_translation lib (skeleton_tree motion))
              (local_rotation motion) (root_translation motion)"
  define out where "out = motion\<lparr>local_rotation :=
      map2 (project_frame lib (skeleton_tree motion) ?ids) ?G (local_rotation motion)\<rparr>"
  have ok: "\<not> list_ex (\<lambda>i. length (local_translation (skeleton_tree motion)) \<le> i)
              [rua, rla, rh, lua, lla, lh, rt, rs, rf, lt, ls, lf]"
    using assms(2) by (simp add: not_le)
  have run: "project_joints lib motion = Inr out"
    unfolding project_joints_def assms(1) option.case prod.case Let_def out_def
    using ok by (simp only: if_False)
  have lg: "length ?G = length (local_rotation motion)" using assms(3) by simp
  have gf: "?G ! f = global_translation lib (skeleton_tree motion) (local_rotation motion ! f)
                       (root_translation motion ! f)"
    using assms(3,4) by simp
  have "local_rotation out ! f =
          project_frame lib (skeleton_tree motion) ?ids (?G ! f) (local_rotation motion ! f)"
    using assms(4) lg by (simp add: out_def)
  then have "local_rotation out ! f =
          project_frame lib (skeleton_tree motion) ?ids
            (global_translation lib (skeleton_tree motion) (local_rotation motion ! f)
               (root_translation motion ! f))
            (local_rotation motion ! f)"
    by (simp only: gf)
  moreover have "length (local_rotation out) = length (local_rotation motion)"
    using lg by (simp add: out_def)
  moreover have "skeleton_tree out = skeleton_tree motion"
    "root_translation out = root_translation motion" "fps out = fps motion"
    by (simp_all add: out_def)
  ultimately show ?thesis using run by blast
qed

text \<open>
  Claim C5, as amended. For a motion whose skeleton has the twelve named joints, the
  ten that are assigned with different indices, \<open>_project_joints\<close> returns a new motion
  with the same skeleton tree, root translation and fps, whose local rotations differ
  from the input only at the eight arm and leg joints and the two hands. In every
  frame, each elbow is the rotation about \<open>(0, 1, 0)\<close> by \<open>-|theta|\<close> and each knee by
  \<open>+|theta|\<close>, where \<open>theta\<close> is the arccosine of the clamped dot product of the normalised
  directions from the upper joint to the mid joint and from the mid joint to the end
  joint; each shoulder and hip is its input rotation multiplied by a twist about the
  normalised local translation of the limb's end joint; both hands are the identity.
\<close>

theorem project_joints_rotations:
  assumes "limb_ids (skeleton_tree motion) = Some (rua, rla, rh, lua, lla, lh, rt, rs, rf, lt, ls, lf)"
    and "distinct [rua, rla, rh, lua, lla, lh, rt, rs, lt, ls]"
    and "\<forall>i \<in> set [rua, rla, rh, lua, lla, lh, rt, rs, rf, lt, ls, lf].
           i < length (local_translation (skeleton_tree motion))"
    and "\<forall>row \<in> set (local_rotation motion).
           length row = length (local_translation (skeleton_tree motion))"
    and "length (root_translation motion) = length (local_rotation motion)"
    and "f < length (local_rotation motion)"
    and "rot = local_rotation motion ! f"
    and "pos = global_translation lib (skeleton_tree motion) rot (root_translation motion ! f)"
    and "proper_limb (skeleton_tree motion) rua rla rh pos"
    and "proper_limb (skeleton_tree motion) lua lla lh pos"
    and "proper_limb (skeleton_tree motion) rt rs rf pos"
    and "proper_limb (skeleton_tree motion) lt ls lf pos"
  shows "\<exists>out. project_joints lib motion = Inr out
           \<and> skeleton_tree out = skeleton_tree motion
           \<and> root_translation out = root_translation motion
           \<and> fps out = fps motion
           \<and> length (local_rotation out) = length (local_rotation motion)
           \<and> length (local_rotation out ! f) = length rot
           \<and> projected_limb lib (skeleton_tree motion) True rua rla rh pos rot (local_rotation out ! f)
           \<and> projected_limb lib (skeleton_tree motion) True lua lla lh pos rot (local_rotation out ! f)
           \<and> projected_limb lib (skeleton_tree motion) False rt rs rf pos rot (local_rotation out ! f)
           \<and> projected_limb lib (skeleton_tree motion) False lt ls lf pos rot (local_rotation out ! f)
           \<and> local_rotation out ! f ! lh = quat_identity lib
           \<and> local_rotation out ! f ! rh = quat_identity lib
           \<and> (\<forall>j. j \<notin> set [rua, rla, rh, lua, lla, lh, rt, rs, lt, ls]
                  \<longrightarrow> local_rotation out ! f ! j = rot ! j)"
proof -
  from project_joints_frame [OF assms(1,3,5,6), of lib] obtain out where
    out: "project_joints lib motion = Inr out" "skeleton_tree out = skeleton_tree motion"
      "root_translation out = root_translation motion" "fps out = fps motion"
      "length (local_rotation out) = length (local_rotation motion)"
    and fr: "local_rotation out ! f =
               project_frame lib (skeleton_tree motion)
                 (rua, rla, rh, lua, lla, lh, rt, rs, rf, lt, ls, lf) pos rot"
    unfolding assms(7,8) by blast
  have "rot \<in> set (local_rotation motion)" using assms(6,7) by simp
  then have lr: "length rot = length (local_translation (skeleton_tree motion))"
    using assms(4) by blast
  have rng: "\<forall>i \<in> set [rua, rla, rh, lua, lla, lh, rt, rs, lt, ls]. i < length rot"
    using assms(3) lr by simp
  note n = project_frame_nth [OF assms(2) rng fr]
  have "projected_limb lib (skeleton_tree motion) True rua rla rh pos rot (local_rotation out ! f)"
    using n(2) n(1) by (rule project_limb_projected)
  moreover have "projected_limb lib (skeleton_tree motion) True lua lla lh pos rot (local_rotation out ! f)"
    using n(4) n(3) by (rule project_limb_projected)
  moreover have "projected_limb lib (skeleton_tree motion) False rt rs rf pos rot (local_rotation out ! f)"
    using n(6) n(5) by (rule project_limb_projected)
  moreover have "projected_limb lib (skeleton_tree motion) False lt ls lf pos rot (local_rotation out ! f)"
    using n(8) n(7) by (rule project_limb_projected)
  ultimately show ?thesis using out n(9,10,11,12) by blast
qed


lemma humanoid_positions_eval:
  "humanoid_positions
   = [(0, 0, 3), (0, - 1, 5), (0, - 2, 5), (0, - 3, 5), (0, 1, 5), (0, 2, 5), (0, 3, 5),
      (0, - 1, 3), (0, - 1, 2), (0, - 1, 1), (0, 1, 3), (0, 1, 2), (0, 1, 1), (0, 0, 6)]"
proof -
  have "root_translation humanoid_motion ! 0 = (0, 0, 3)" by (simp add: humanoid_motion_def)
  then show ?thesis
    unfolding humanoid_positions_def rest_rotations
    using humanoid_kinematics by (simp add: sample_lib_def)
qed

lemma straight_arm_segment_angle: "segment_angle (0, - 1, 5) (0, - 2, 5) (0, - 3, 5) = 0"
  by (simp add: segment_angle_def vsub_def vnorm_def vdiv_def vdot_def clamp_def)

lemma straight_arm_claimed_angle: "claimed_angle (0, - 1, 5) (0, - 2, 5) (0, - 3, 5) = pi"
  by (simp add: claimed_angle_def vsub_def vnorm_def vdiv_def vdot_def clamp_def)

lemma no_turn: "angle_axis 0 axis False = (0, 0, 0, 1)"
  by (cases axis) (simp add: angle_axis_def)

lemma half_turn_back: "angle_axis (- pi) (0, 1, 0) False = (0, - 1, 0, 0)"
  by (simp add: angle_axis_def)

lemma bent_kinematics:
  "forward_kinematics humanoid_tree
     [(0, 0, 0, 1), (0, 0, 0, 1), (0, 0, 1, 0), (1, 0, 0, 0), (0, 0, 0, 1), (0, 0, 0, 1),
      (0, 0, 0, 1), (0, 0, 0, 1), (sqrt 2 / 2, 0, 0, sqrt 2 / 2), (0, 0, 0, 1),
      (0, 0, 0, 1), (0, 0, 0, 1), (0, 0, 0, 1), (0, 0, 1, 0)] (0, 0, 3)
   = [(0, 0, 3), (0, - 1, 5), (0, - 2, 5), (0, - 1, 5), (0, 1, 5), (0, 2, 5), (0, 3, 5),
      (0, - 1, 3), (0, - 1, 2), (0, 0, 2), (0, 1, 3), (0, 1, 2), (0, 1, 1), (0, 0, 6)]"
proof -
  have r1: "rotate_vec (0, 0, 1, 0) (0, - 1, 0) = (0, 1, 0)"
    by (simp add: rotate_vec_def hamilton_def)
  have r2: "rotate_vec (sqrt 2 / 2, 0, 0, sqrt 2 / 2) (0, 0, - 1) = (0, 1, 0)"
    by (simp add: rotate_vec_def hamilton_def)
  show ?thesis
    by (simp add: forward_kinematics_def fk_step_def humanoid_tree_def upt_conv_Cons
        Let_def hamilton_identity rotate_identity r1 r2 vadd_def)
qed

lemma folded_arm_segment_angle: "segment_angle (0, - 1, 5) (0, - 2, 5) (0, - 1, 5) = pi"
  by (simp add: segment_angle_def vsub_def vnorm_def vdiv_def vdot_def clamp_def)

lemma lifted_foot_segment_angle: "segment_angle (0, - 1, 3) (0, - 1, 2) (0, 0, 2) = pi / 2"
  by (simp add: segment_angle_def vsub_def vnorm_def vdiv_def vdot_def clamp_def)

lemma quarter_turn_up: "angle_axis (pi / 2) (0, 1, 0) False = (0, sqrt 2 / 2, 0, sqrt 2 / 2)"
  by (simp add: angle_axis_def sin_45 cos_45)

lemma folded_arm_twist:
  "twist_theta sample_lib True (0, 0, 1, 0) (0, - 1, 0, 0) (0, - 1, 0) = - pi"
  by (simp add: twist_theta_def sample_lib_def rotate_vec_def hamilton_def vdot_def clamp_def
      Let_def)

lemma lifted_foot_twist:
  "twist_theta sample_lib False (sqrt 2 / 2, 0, 0, sqrt 2 / 2) (0, sqrt 2 / 2, 0, sqrt 2 / 2)
     (0, 0, - 1) = pi / 2"
  by (simp add: twist_theta_def sample_lib_def rotate_vec_def hamilton_def vdot_def clamp_def
      Let_def)

lemma half_turn_down: "angle_axis (- pi) (0, - 1, 0) False = (0, 1, 0, 0)"
  by (simp add: angle_axis_def)

lemma quarter_turn_down:
  "angle_axis (pi / 2) (0, 0, - 1) False = (0, 0, - (sqrt 2 / 2), sqrt 2 / 2)"
  by (simp add: angle_axis_def sin_45 cos_45)

text \<open>
  The theorem at the humanoid with the bent right arm and leg. The angle at the elbow
  is \<open>pi\<close> and the elbow becomes the rotation about \<open>(0, 1, 0)\<close> by \<open>-pi\<close>; the angle at the
  knee is \<open>pi/2\<close> and the knee becomes the rotation about \<open>(0, 1, 0)\<close> by \<open>+pi/2\<close>; the
  shoulder gets the twist by \<open>-pi\<close> about the hand's direction \<open>(0, -1, 0)\<close> and the hip the
  twist by \<open>pi/2\<close> about the foot's direction \<open>(0, 0, -1)\<close>; the turned hand becomes the
  identity and the turned head keeps its rotation.
\<close>

theorem project_joints_rotations_witness:
  "map_sum id (\<lambda>m. (local_rotation m ! 0 ! 1, local_rotation m ! 0 ! 2, local_rotation m ! 0 ! 3,
                    local_rotation m ! 0 ! 7, local_rotation m ! 0 ! 8, local_rotation m ! 0 ! 13))
     (project_joints sample_lib bent_motion)
   = Inr ((0, 1, 0, 0), (0, - 1, 0, 0), (0, 0, 0, 1),
          (0, 0, - (sqrt 2 / 2), sqrt 2 / 2), (0, sqrt 2 / 2, 0, sqrt 2 / 2), (0, 0, 1, 0))"
proof -
  define rot where "rot = local_rotation bent_motion ! 0"
  define pos where "pos = global_translation sample_lib (skeleton_tree bent_motion) rot
                            (root_translation bent_motion ! 0)"
  have tree: "skeleton_tree bent_motion = humanoid_tree" by (simp add: bent_motion_def)
  have rot: "rot = [(0, 0, 0, 1), (0, 0, 0, 1), (0, 0, 1, 0), (1, 0, 0, 0), (0, 0, 0, 1),
      (0, 0, 0, 1), (0, 0, 0, 1), (0, 0, 0, 1), (sqrt 2 / 2, 0, 0, sqrt 2 / 2), (0, 0, 0, 1),
      (0, 0, 0, 1), (0, 0, 0, 1), (0, 0, 0, 1), (0, 0, 1, 0)]"
    by (simp add: rot_def bent_motion_def)
  have "root_translation bent_motion ! 0 = (0, 0, 3)" by (simp add: bent_motion_def)
  then have pos: "pos = [(0, 0, 3), (0, - 1, 5), (0, - 2, 5), (0, - 1, 5), (0, 1, 5), (0, 2, 5),
      (0, 3, 5), (0, - 1, 3), (0, - 1, 2), (0, 0, 2), (0, 1, 3), (0, 1, 2), (0, 1, 1), (0, 0, 6)]"
    unfolding pos_def tree rot using bent_kinematics by (simp add: sample_lib_def)
  have a1: "limb_ids (skeleton_tree bent_motion) = Some (1, 2, 3, 4, 5, 6, 7, 8, 9, 10, 11, 12)"
    using humanoid_ids by (simp add: tree)
  have a2: "distinct [1, 2, 3, 4, 5, 6, 7, 8, 10, 11 :: nat]" by simp
  have a3: "\<forall>i \<in> set [1, 2, 3, 4, 5, 6, 7, 8, 9, 10, 11, 12 :: nat].
              i < length (local_translation (skeleton_tree bent_motion))"
    by (simp add: tree humanoid_tree_def)
  have a4: "\<forall>row \<in> set (local_rotation bent_motion).
              length row = length (local_translation (skeleton_tree bent_motion))"
    by (simp add: tree humanoid_tree_def bent_motion_def)
  have a5: "length (root_translation bent_motion) = length (local_rotation bent_motion)"
    and a6: "0 < length (local_rotation bent_motion)"
    by (simp_all add: bent_motion_def)
  have p: "proper_limb (skeleton_tree bent_motion) 1 2 3 pos"
    "proper_limb (skeleton_tree bent_motion) 4 5 6 pos"
    "proper_limb (skeleton_tree bent_motion) 7 8 9 pos"
    "proper_limb (skeleton_tree bent_motion) 10 11 12 pos"
    by (simp_all add: proper_limb_def pos tree humanoid_tree_def)
  from project_joints_rotations [OF a1 a2 a3 a4 a5 a6 rot_def pos_def p]
  obtain out where o: "project_joints sample_lib bent_motion = Inr out"
    "projected_limb sample_lib (skeleton_tree bent_motion) True 1 2 3 pos rot
       (local_rotation out ! 0)"
    "projected_limb sample_lib (skeleton_tree bent_motion) False 7 8 9 pos rot
       (local_rotation out ! 0)"
    "local_rotation out ! 0 ! 3 = quat_identity sample_lib"
    "\<forall>j. j \<notin> set [1, 2, 3, 4, 5, 6, 7, 8, 10, 11] \<longrightarrow> local_rotation out ! 0 ! j = rot ! j"
    by blast
  have hand_dir: "vdiv (local_translation humanoid_tree ! 3) (vnorm (local_translation humanoid_tree ! 3))
                    = (0, - 1, 0)"
    and foot_dir: "vdiv (local_translation humanoid_tree ! 9) (vnorm (local_translation humanoid_tree ! 9))
                    = (0, 0, - 1)"
    by (simp_all add: humanoid_tree_def vdiv_def vnorm_def)
  have lib: "quat_from_angle_axis sample_lib = angle_axis" "quat_mul sample_lib = hamilton"
    by (simp_all add: sample_lib_def)
  have "local_rotation out ! 0 ! 2
          = angle_axis ((if True then - 1 else 1) * \<bar>segment_angle (pos ! 1) (pos ! 2) (pos ! 3)\<bar>)
              (0, 1, 0) False"
    using o(2) by (simp add: projected_limb_def Let_def lib)
  then have elbow: "local_rotation out ! 0 ! 2 = (0, - 1, 0, 0)"
    by (simp add: pos folded_arm_segment_angle half_turn_back)
  have "local_rotation out ! 0 ! 1
          = hamilton (rot ! 1)
              (angle_axis (twist_theta sample_lib True (rot ! 2) (local_rotation out ! 0 ! 2)
                             (0, - 1, 0)) (0, - 1, 0) False)"
    using o(2) unfolding projected_limb_def Let_def tree hand_dir lib by simp
  then have shoulder: "local_rotation out ! 0 ! 1 = (0, 1, 0, 0)"
    unfolding elbow by (simp add: rot folded_arm_twist half_turn_down hamilton_identity)
  have "local_rotation out ! 0 ! 8
          = angle_axis ((if False then - 1 else 1) * \<bar>segment_angle (pos ! 7) (pos ! 8) (pos ! 9)\<bar>)
              (0, 1, 0) False"
    using o(3) by (simp add: projected_limb_def Let_def lib)
  then have knee: "local_rotation out ! 0 ! 8 = (0, sqrt 2 / 2, 0, sqrt 2 / 2)"
    by (simp add: pos lifted_foot_segment_angle quarter_turn_up)
  have "local_rotation out ! 0 ! 7
          = hamilton (rot ! 7)
              (angle_axis (twist_theta sample_lib False (rot ! 8) (local_rotation out ! 0 ! 8)
                             (0, 0, - 1)) (0, 0, - 1) False)"
    using o(3) unfolding projected_limb_def Let_def tree foot_dir lib by simp
  then have hip: "local_rotation out ! 0 ! 7 = (0, 0, - (sqrt 2 / 2), sqrt 2 / 2)"
    unfolding knee by (simp add: rot lifted_foot_twist quarter_turn_down hamilton_identity)
  have hand: "local_rotation out ! 0 ! 3 = (0, 0, 0, 1)" using o(4) by (simp add: sample_lib_def)
  have "local_rotation out ! 0 ! 13 = rot ! 13" using o(5) by simp
  then have head: "local_rotation out ! 0 ! 13 = (0, 0, 1, 0)" by (simp add: rot)
  show ?thesis using o(1) shoulder elbow hand hip knee head by simp
qed

text \<open>
  Claim C5 as stated fails at a straight arm. With the shoulder, the elbow and the hand
  on one line, the direction from the upper joint to the mid joint and the direction
  from the end joint to the mid joint are opposite, so the angle of the claim is \<open>pi\<close>
  and its elbow rotation is half a turn; the function computes the angle 0 and leaves
  the elbow at the identity.
\<close>

theorem project_joints_straight_arm_counterexample:
  "map_sum id (\<lambda>m. local_rotation m ! 0 ! 2) (project_joints sample_lib humanoid_motion)
     = Inr (0, 0, 0, 1) \<and>
   quat_from_angle_axis sample_lib
     (- \<bar>claimed_angle (humanoid_positions ! 1) (humanoid_positions ! 2) (humanoid_positions ! 3)\<bar>)
     (0, 1, 0) False = (0, - 1, 0, 0)"
proof -
  have tree: "skeleton_tree humanoid_motion = humanoid_tree" by (simp add: humanoid_motion_def)
  have a1: "limb_ids (skeleton_tree humanoid_motion) = Some (1, 2, 3, 4, 5, 6, 7, 8, 9, 10, 11, 12)"
    using humanoid_ids by (simp add: tree)
  have a3: "\<forall>i \<in> set [1, 2, 3, 4, 5, 6, 7, 8, 9, 10, 11, 12 :: nat].
              i < length (local_translation (skeleton_tree humanoid_motion))"
    by (simp add: tree humanoid_tree_def)
  have a5: "length (root_translation humanoid_motion) = length (local_rotation humanoid_motion)"
    and a6: "0 < length (local_rotation humanoid_motion)"
    by (simp_all add: humanoid_motion_def)
  from project_joints_frame [OF a1 a3 a5 a6, of sample_lib]
  obtain out where o: "project_joints sample_lib humanoid_motion = Inr out"
    and fr: "local_rotation out ! 0 =
               project_frame sample_lib humanoid_tree (1, 2, 3, 4, 5, 6, 7, 8, 9, 10, 11, 12)
                 humanoid_positions (local_rotation humanoid_motion ! 0)"
    unfolding tree humanoid_positions_def by blast
  have d: "distinct [1, 2, 3, 4, 5, 6, 7, 8, 10, 11 :: nat]" by simp
  have r: "\<forall>i \<in> set [1, 2, 3, 4, 5, 6, 7, 8, 10, 11 :: nat].
             i < length (local_rotation humanoid_motion ! 0)"
    by (simp add: rest_rotations)
  have "local_rotation out ! 0 ! 2
          = snd (project_limb sample_lib humanoid_tree True 1 2 3 humanoid_positions
                   (local_rotation humanoid_motion ! 0))"
    by (rule project_frame_nth(2) [OF d r fr])
  also have "\<dots> = quat_from_angle_axis sample_lib
       (- \<bar>segment_angle (humanoid_positions ! 1) (humanoid_positions ! 2) (humanoid_positions ! 3)\<bar>)
       (0, 1, 0) False"
    by (simp add: project_limb_def Let_def joint_theta_segment_angle)
  also have "\<dots> = (0, 0, 0, 1)"
    by (simp add: humanoid_positions_eval straight_arm_segment_angle sample_lib_def no_turn)
  finally have e: "local_rotation out ! 0 ! 2 = (0, 0, 0, 1)" .
  have "quat_from_angle_axis sample_lib
     (- \<bar>claimed_angle (humanoid_positions ! 1) (humanoid_positions ! 2) (humanoid_positions ! 3)\<bar>)
     (0, 1, 0) False = (0, - 1, 0, 0)"
    by (simp add: humanoid_positions_eval straight_arm_claimed_angle sample_lib_def half_turn_back)
  then show ?thesis using o e by simp
qed

end
